(* ===== verification/Gold_Prelude.thy ===== *)
theory Gold_Prelude
  imports Main "HOL-Library.Word" "HOL-Library.List_Lexorder"
begin

text \<open>
  Shared vocabulary of the development: Python values and exceptions, the error and
  divergence monads in which the translated functions are written, Python's indexing,
  association-list dictionaries (Python dictionaries keep insertion order), and the
  generic lemmas the component theories rely on.
\<close>

section \<open>Types\<close>

type_synonym byte = "8 word"
type_synonym bytes = "byte list"
type_synonym bytes32 = bytes

text \<open>The exceptions that the modelled functions raise.\<close>

datatype exn =
    ValueError
  | AssertionError
  | KeyError
  | IndexError
  | TypeError
  | ZeroDivisionError
  | OverflowError
  | NotImplementedError
  | SetError
  | IntegrityError
  | StructError

type_synonym 'a res = "exn + 'a"

text \<open>
  A loop that follows back pointers need not end; a computation is \<^term>\<open>None\<close> when it
  does not return, and otherwise an exception or a value.
\<close>

type_synonym 'a comp = "'a res option"

named_theorems res_simps \<open>unfolding the error monad\<close>

section \<open>The error monad\<close>

definition rbind :: "'e + 'a \<Rightarrow> ('a \<Rightarrow> 'e + 'b) \<Rightarrow> 'e + 'b" where
  "rbind m f = (case m of Inl e \<Rightarrow> Inl e | Inr a \<Rightarrow> f a)"

definition py_assert :: "bool \<Rightarrow> unit res" where
  "py_assert b = (if b then Inr () else Inl AssertionError)"

definition raise_unless :: "exn \<Rightarrow> bool \<Rightarrow> unit res" where
  "raise_unless e b = (if b then Inr () else Inl e)"

definition from_key :: "'a option \<Rightarrow> 'a res" where
  "from_key x = (case x of None \<Rightarrow> Inl KeyError | Some v \<Rightarrow> Inr v)"

definition not_none :: "'a option \<Rightarrow> 'a res" where
  "not_none x = (case x of None \<Rightarrow> Inl AssertionError | Some v \<Rightarrow> Inr v)"

lemma rbind_Inl [simp]: "rbind (Inl e) f = Inl e"
  and rbind_Inr [simp]: "rbind (Inr a) f = f a"
  by (simp_all add: rbind_def)

lemma rbind_cong [fundef_cong]:
  assumes "m = m'" and "\<And>a. m' = Inr a \<Longrightarrow> f a = f' a"
  shows "rbind m f = rbind m' f'"
  using assms by (cases m') simp_all

lemma rbind_assoc: "rbind (rbind m f) g = rbind m (\<lambda>x. rbind (f x) g)"
  by (cases m) simp_all

lemma rbind_eq_Inr: "rbind m f = Inr b \<longleftrightarrow> (\<exists>a. m = Inr a \<and> f a = Inr b)"
  by (cases m) auto

lemma rbind_eq_Inl: "rbind m f = Inl e \<longleftrightarrow> m = Inl e \<or> (\<exists>a. m = Inr a \<and> f a = Inl e)"
  by (cases m) auto

lemma py_assert_True [simp]: "py_assert True = Inr ()"
  and py_assert_False [simp]: "py_assert False = Inl AssertionError"
  by (simp_all add: py_assert_def)

lemma py_assert_eq_Inr [simp]: "py_assert b = Inr u \<longleftrightarrow> b"
  by (simp add: py_assert_def)

lemma raise_unless_True [simp]: "raise_unless e True = Inr ()"
  and raise_unless_False [simp]: "raise_unless e False = Inl e"
  by (simp_all add: raise_unless_def)

lemma raise_unless_eq_Inr [simp]: "raise_unless e b = Inr u \<longleftrightarrow> b"
  by (simp add: raise_unless_def)

lemma from_key_Some [simp]: "from_key (Some v) = Inr v"
  and from_key_None [simp]: "from_key None = Inl KeyError"
  by (simp_all add: from_key_def)

lemma from_key_eq_Inr [simp]: "from_key x = Inr v \<longleftrightarrow> x = Some v"
  by (cases x) simp_all

lemma not_none_Some [simp]: "not_none (Some v) = Inr v"
  and not_none_None [simp]: "not_none None = Inl AssertionError"
  by (simp_all add: not_none_def)

lemma not_none_eq_Inr [simp]: "not_none x = Inr v \<longleftrightarrow> x = Some v"
  by (cases x) simp_all

lemmas res_bind_simps [res_simps] = rbind_eq_Inr rbind_eq_Inl

section \<open>Computations that may not return\<close>

definition cbind :: "('e + 'a) option \<Rightarrow> ('a \<Rightarrow> ('e + 'b) option) \<Rightarrow> ('e + 'b) option" where
  "cbind m f = (case m of None \<Rightarrow> None | Some (Inl e) \<Rightarrow> Some (Inl e) | Some (Inr a) \<Rightarrow> f a)"

abbreviation cret :: "'a \<Rightarrow> ('e + 'a) option" where
  "cret a \<equiv> Some (Inr a)"

abbreviation craise :: "'e \<Rightarrow> ('e + 'a) option" where
  "craise e \<equiv> Some (Inl e)"

lemma cbind_None [simp]: "cbind None f = None"
  and cbind_Inl [simp]: "cbind (Some (Inl e)) f = Some (Inl e)"
  and cbind_Inr [simp]: "cbind (Some (Inr a)) f = f a"
  by (simp_all add: cbind_def)

lemma cbind_eq_Inr: "cbind m f = Some (Inr b) \<longleftrightarrow> (\<exists>a. m = Some (Inr a) \<and> f a = Some (Inr b))"
  by (auto simp: cbind_def split: option.splits sum.splits)

lemma cbind_eq_None: "cbind m f = None \<longleftrightarrow> m = None \<or> (\<exists>a. m = Some (Inr a) \<and> f a = None)"
  by (auto simp: cbind_def split: option.splits sum.splits)

lemma cbind_lift: "cbind (Some m) f = (case m of Inl e \<Rightarrow> Some (Inl e) | Inr a \<Rightarrow> f a)"
  by (simp add: cbind_def)

section \<open>While loops\<close>

text \<open>
  A \<^verbatim>\<open>while\<close> loop with a body that may raise. It is \<^term>\<open>None\<close> when the loop does not end.
\<close>

partial_function (option) cwhile :: "('s \<Rightarrow> bool) \<Rightarrow> ('s \<Rightarrow> exn + 's) \<Rightarrow> 's \<Rightarrow> (exn + 's) option" where
  "cwhile c b s = (if c s then (case b s of Inl e \<Rightarrow> Some (Inl e) | Inr s' \<Rightarrow> cwhile c b s') else Some (Inr s))"

declare cwhile.simps [code]

lemma cwhile_done [simp]: "\<not> c s \<Longrightarrow> cwhile c b s = Some (Inr s)"
  by (subst cwhile.simps) simp

lemma cwhile_step: "c s \<Longrightarrow> b s = Inr s' \<Longrightarrow> cwhile c b s = cwhile c b s'"
  by (subst cwhile.simps) simp

lemma cwhile_raise: "c s \<Longrightarrow> b s = Inl e \<Longrightarrow> cwhile c b s = Some (Inl e)"
  by (subst cwhile.simps) simp

text \<open>A loop whose body decreases a measure ends; its result satisfies the loop invariant.\<close>

lemma cwhile_total:
  assumes "I s"
    and "\<And>s s'. I s \<Longrightarrow> c s \<Longrightarrow> b s = Inr s' \<Longrightarrow> I s' \<and> m s' < (m s :: nat)"
  shows "(\<exists>s'. cwhile c b s = Some (Inr s') \<and> I s' \<and> \<not> c s') \<or>
    (\<exists>s' e. cwhile c b s = Some (Inl e) \<and> I s' \<and> c s' \<and> b s' = Inl e)"
  using assms(1)
proof (induction "m s" arbitrary: s rule: less_induct)
  case less
  show ?case
  proof (cases "c s")
    case True
    show ?thesis
    proof (cases "b s")
      case (Inl e)
      with True less.prems show ?thesis using cwhile_raise [of c s b e] by blast
    next
      case (Inr s')
      with assms(2) [OF less.prems True Inr] less.hyps [of s'] cwhile_step [of c s b s'] True Inr show ?thesis by simp
    qed
  qed (use less.prems in auto)
qed

lemma cwhile_Inr:
  assumes "cwhile c b s = Some (Inr s')" and "I s"
    and "\<And>s s'. I s \<Longrightarrow> c s \<Longrightarrow> b s = Inr s' \<Longrightarrow> I s'"
  shows "I s' \<and> \<not> c s'"
proof -
  have "\<forall>s'. x = Inr s' \<longrightarrow> I s' \<and> \<not> c s'" if "cwhile c b s = Some x" "I s" for x s
    using that assms(3)
    apply (induction c b s x rule: cwhile.raw_induct)
    subgoal premises p for loop c b s x
    proof (cases "c s")
      case True
      show ?thesis
      proof (cases "b s")
        case (Inl e)
        then show ?thesis using p(2) True by auto
      next
        case (Inr s')
        then have "loop c b s' = Some x" "cwhile c b s' = Some x"
          using p(2,3) True cwhile_step [of c s b s'] by simp_all
        from p(1) [OF this p(5) [OF p(4) True Inr] p(5)] show ?thesis .
      qed
    next
      case False
      then show ?thesis using p(2,4) by auto
    qed
    by (rule that(1))
  with assms(1,2) show ?thesis by blast
qed

section \<open>Python lists\<close>

text \<open>Subscripting: negative indices count from the end, others out of range raise.\<close>

definition py_nth :: "'a list \<Rightarrow> int \<Rightarrow> 'a res" where
  "py_nth xs i =
     (if i < - int (length xs) \<or> int (length xs) \<le> i then Inl IndexError
      else if 0 \<le> i then Inr (xs ! nat i)
      else Inr (xs ! nat (int (length xs) + i)))"

lemma py_nth_nonneg: "0 \<le> i \<Longrightarrow> i < int (length xs) \<Longrightarrow> py_nth xs i = Inr (xs ! nat i)"
  by (simp add: py_nth_def)

lemma py_nth_last: "xs \<noteq> [] \<Longrightarrow> py_nth xs (-1) = Inr (last xs)"
  by (cases xs rule: rev_cases) (simp_all add: py_nth_def)

lemma py_nth_Nil [simp]: "py_nth [] i = Inl IndexError"
  by (auto simp: py_nth_def)

text \<open>A loop over a list whose body may raise.\<close>

fun rmap :: "('a \<Rightarrow> 'e + 'b) \<Rightarrow> 'a list \<Rightarrow> 'e + 'b list" where
  "rmap f [] = Inr []"
| "rmap f (x # xs) = rbind (f x) (\<lambda>y. rbind (rmap f xs) (\<lambda>ys. Inr (y # ys)))"

fun rfold :: "('a \<Rightarrow> 's \<Rightarrow> 'e + 's) \<Rightarrow> 'a list \<Rightarrow> 's \<Rightarrow> 'e + 's" where
  "rfold f [] s = Inr s"
| "rfold f (x # xs) s = rbind (f x s) (rfold f xs)"

lemma rmap_total: "(\<And>x. x \<in> set xs \<Longrightarrow> f x = Inr (g x)) \<Longrightarrow> rmap f xs = Inr (map g xs)"
  by (induction xs) simp_all

lemma rmap_length: "rmap f xs = Inr ys \<Longrightarrow> length ys = length xs"
  by (induction xs arbitrary: ys) (auto simp: res_simps)

lemma rfold_append: "rfold f (xs @ ys) s = rbind (rfold f xs s) (rfold f ys)"
proof (induction xs arbitrary: s)
  case (Cons x xs)
  then show ?case by (cases "f x s") simp_all
qed simp

lemma rfold_invariant:
  assumes "rfold f xs s = Inr s'" and "I s"
    and "\<And>x s t. x \<in> set xs \<Longrightarrow> I s \<Longrightarrow> f x s = Inr t \<Longrightarrow> I t"
  shows "I s'"
  using assms by (induction xs arbitrary: s) (auto simp: res_simps)

section \<open>Dictionaries\<close>

text \<open>
  A dictionary is the list of its items in insertion order. Storing under a key that is
  present keeps the key's position and replaces the value; deleting an absent key raises
  KeyError in the callers.
\<close>

type_synonym ('k, 'v) dict = "('k \<times> 'v) list"

definition dget :: "('k, 'v) dict \<Rightarrow> 'k \<Rightarrow> 'v option" where
  "dget d k = map_of d k"

definition dmem :: "'k \<Rightarrow> ('k, 'v) dict \<Rightarrow> bool" where
  "dmem k d = (k \<in> set (map fst d))"

fun dput :: "'k \<Rightarrow> 'v \<Rightarrow> ('k, 'v) dict \<Rightarrow> ('k, 'v) dict" where
  "dput k v [] = [(k, v)]"
| "dput k v ((k', v') # d) = (if k = k' then (k, v) # d else (k', v') # dput k v d)"

definition ddel :: "'k \<Rightarrow> ('k, 'v) dict \<Rightarrow> ('k, 'v) dict" where
  "ddel k d = filter (\<lambda>(k', v). k' \<noteq> k) d"

definition dkeys :: "('k, 'v) dict \<Rightarrow> 'k list" where
  "dkeys d = map fst d"

definition dvalues :: "('k, 'v) dict \<Rightarrow> 'v list" where
  "dvalues d = map snd d"

definition dict_wf :: "('k, 'v) dict \<Rightarrow> bool" where
  "dict_wf d = distinct (map fst d)"

definition ddel_res :: "'k \<Rightarrow> ('k, 'v) dict \<Rightarrow> ('k, 'v) dict res" where
  "ddel_res k d = (if dmem k d then Inr (ddel k d) else Inl KeyError)"

lemma dget_Nil [simp]: "dget [] k = None"
  by (simp add: dget_def)

lemma dget_Cons [simp]: "dget ((k', v) # d) k = (if k = k' then Some v else dget d k)"
  by (simp add: dget_def)

lemma dmem_Nil [simp]: "\<not> dmem k []"
  by (simp add: dmem_def)

lemma dmem_Cons [simp]: "dmem k ((k', v) # d) \<longleftrightarrow> k = k' \<or> dmem k d"
  by (simp add: dmem_def)

lemma dmem_dget: "dmem k d \<longleftrightarrow> (\<exists>v. dget d k = Some v)"
  by (induction d) auto

lemma not_dmem_dget: "\<not> dmem k d \<Longrightarrow> dget d k = None"
  by (auto simp: dmem_dget)

lemma dget_None_iff: "dget d k = None \<longleftrightarrow> \<not> dmem k d"
  by (auto simp: dmem_dget)

lemma dget_dput [simp]: "dget (dput k v d) k' = (if k' = k then Some v else dget d k')"
  by (induction d) auto

lemma dmem_dput [simp]: "dmem k' (dput k v d) \<longleftrightarrow> k' = k \<or> dmem k' d"
  by (auto simp: dmem_dget)

lemma keys_dput:
  "map fst (dput k v d) = (if dmem k d then map fst d else map fst d @ [k])"
  by (induction d) auto

lemma dput_new: "\<not> dmem k d \<Longrightarrow> dput k v d = d @ [(k, v)]"
  by (induction d) auto

lemma dict_wf_Nil [simp]: "dict_wf []"
  by (simp add: dict_wf_def)

lemma dict_wf_Cons [simp]: "dict_wf ((k, v) # d) \<longleftrightarrow> \<not> dmem k d \<and> dict_wf d"
  by (simp add: dict_wf_def dmem_def)

lemma dict_wf_dput [simp]: "dict_wf d \<Longrightarrow> dict_wf (dput k v d)"
  by (auto simp: dict_wf_def keys_dput dmem_def)

lemma ddel_Nil [simp]: "ddel k [] = []"
  by (simp add: ddel_def)

lemma ddel_Cons [simp]: "ddel k ((k', v) # d) = (if k' = k then ddel k d else (k', v) # ddel k d)"
  by (simp add: ddel_def)

lemma dget_ddel [simp]: "dget (ddel k d) k' = (if k' = k then None else dget d k')"
  by (induction d) auto

lemma dmem_ddel [simp]: "dmem k' (ddel k d) \<longleftrightarrow> k' \<noteq> k \<and> dmem k' d"
  by (auto simp: dmem_dget)

lemma dict_wf_ddel [simp]: "dict_wf d \<Longrightarrow> dict_wf (ddel k d)"
  by (induction d) auto

lemma ddel_absent: "\<not> dmem k d \<Longrightarrow> ddel k d = d"
  by (induction d) auto

lemma set_ddel: "set (ddel k d) = {(k', v). (k', v) \<in> set d \<and> k' \<noteq> k}"
  by (auto simp: ddel_def)

lemma dget_in_set: "dget d k = Some v \<Longrightarrow> (k, v) \<in> set d"
  by (induction d) (auto split: if_splits)

lemma in_set_dmem: "(k, v) \<in> set d \<Longrightarrow> dmem k d"
  by (force simp: dmem_def)

lemma dict_wf_dget: "dict_wf d \<Longrightarrow> (k, v) \<in> set d \<Longrightarrow> dget d k = Some v"
  by (simp add: dict_wf_def dget_def)

lemma dict_wf_dget_iff: "dict_wf d \<Longrightarrow> dget d k = Some v \<longleftrightarrow> (k, v) \<in> set d"
  by (blast intro: dict_wf_dget dget_in_set)

lemma length_dput: "length (dput k v d) = (if dmem k d then length d else Suc (length d))"
  by (induction d) auto

lemma ddel_res_eq_Inr [simp]: "ddel_res k d = Inr d' \<longleftrightarrow> dmem k d \<and> d' = ddel k d"
  by (auto simp: ddel_res_def)

lemma ddel_res_present: "dmem k d \<Longrightarrow> ddel_res k d = Inr (ddel k d)"
  by (simp add: ddel_res_def)

section \<open>Big-endian byte strings\<close>

text \<open>
  \<^verbatim>\<open>int.to_bytes(k, "big")\<close> and \<^verbatim>\<open>int.from_bytes\<close>. A negative number is written in
  two's complement, because division rounds towards minus infinity and words wrap.
\<close>

definition be_bytes :: "nat \<Rightarrow> int \<Rightarrow> bytes" where
  "be_bytes k n = map (\<lambda>i. word_of_int (n div 256 ^ i)) (rev [0..<k])"

definition be_int :: "bytes \<Rightarrow> int" where
  "be_int bs = foldl (\<lambda>a b. a * 256 + uint b) 0 bs"

lemma length_be_bytes [simp]: "length (be_bytes k n) = k"
  by (simp add: be_bytes_def)

lemma be_bytes_0 [simp]: "be_bytes 0 n = []"
  by (simp add: be_bytes_def)

lemma be_bytes_Suc: "be_bytes (Suc k) n = be_bytes k (n div 256) @ [word_of_int n]"
proof -
  have "rev [0..<Suc k] = map Suc (rev [0..<k]) @ [0]"
    by (simp only: map_Suc_upt upt_conv_Cons rev_map [symmetric]) (simp add: upt_conv_Cons del: upt_Suc)
  then show ?thesis
    by (simp add: be_bytes_def zdiv_zmult2_eq del: upt_Suc rev.simps)
qed

lemma be_int_Nil [simp]: "be_int [] = 0"
  by (simp add: be_int_def)

lemma be_int_snoc [simp]: "be_int (bs @ [b]) = be_int bs * 256 + uint b"
  by (simp add: be_int_def)

lemma be_int_nonneg: "0 \<le> be_int bs"
  by (induction bs rule: rev_induct) simp_all

lemma be_int_less: "be_int bs < 256 ^ length bs"
proof (induction bs rule: rev_induct)
  case (snoc b bs)
  moreover have "uint b < 256" using uint_lt2p [of b] by simp
  ultimately show ?case by simp
qed simp

lemma be_int_be_bytes: "be_int (be_bytes k n) = n mod 256 ^ k"
proof (induction k arbitrary: n)
  case (Suc k)
  have "n mod (256 * 256 ^ k) = 256 * (n div 256 mod 256 ^ k) + n mod 256"
    by (rule zmod_zmult2_eq) simp
  moreover have "uint (word_of_int n :: byte) = n mod 256"
    by (simp add: uint_word_of_int)
  ultimately show ?case using Suc by (simp add: be_bytes_Suc)
qed simp

lemma be_bytes_be_int: "be_bytes (length bs) (be_int bs) = bs"
proof (induction bs rule: rev_induct)
  case (snoc b bs)
  have b: "0 \<le> uint b" "uint b < 256" using uint_lt2p [of b] by simp_all
  then have "(be_int bs * 256 + uint b) div 256 = be_int bs" by simp
  moreover have "(word_of_int (be_int bs * 256 + uint b) :: byte) = b"
  proof (rule word_uint_eqI)
    show "uint (word_of_int (be_int bs * 256 + uint b) :: byte) = uint b"
      unfolding uint_word_of_int using b by simp
  qed
  ultimately show ?case using snoc by (simp add: be_bytes_Suc)
qed simp

section \<open>Integer division\<close>

text \<open>Python's \<^verbatim>\<open>//\<close> and \<^verbatim>\<open>%\<close> round towards minus infinity, as \<open>div\<close> and \<open>mod\<close> do.\<close>

definition floor_div :: "int \<Rightarrow> int \<Rightarrow> int res" where
  "floor_div a b = (if b = 0 then Inl ZeroDivisionError else Inr (a div b))"

definition py_mod :: "int \<Rightarrow> int \<Rightarrow> int res" where
  "py_mod a b = (if b = 0 then Inl ZeroDivisionError else Inr (a mod b))"

lemma floor_div_nonzero [simp]: "b \<noteq> 0 \<Longrightarrow> floor_div a b = Inr (a div b)"
  by (simp add: floor_div_def)

lemma py_mod_nonzero [simp]: "b \<noteq> 0 \<Longrightarrow> py_mod a b = Inr (a mod b)"
  by (simp add: py_mod_def)

end
