(* ===== verification/Gold_Merkle_Set.thy ===== *)
theory Gold_Merkle_Set
  imports Gold_Prelude
begin

unbundle bit_operations_syntax

text \<open>
  The Merkle set of \<^verbatim>\<open>src/chia/util/merkle_set.py\<close>: a binary trie over the bits of
  32-byte leaves whose root commits to the set. The hash function SHA-256 is the
  parameter \<open>sha\<close> of every definition; what the proofs use of it is that its digests
  have 32 bytes.

  A node object is a value of \<open>node\<close>; the \<^verbatim>\<open>hash\<close> attribute a middle node stores at
  construction is its third component. Python compares children by identity after an
  update (\<^verbatim>\<open>newchild is child\<close>); the model compares them by equality: a node is rebuilt
  with equal contents exactly when Python would keep the object.
\<close>

section \<open>Nodes and hashes\<close>

definition EMPTY :: bytes where "EMPTY = [0]"
definition TERMINAL :: bytes where "TERMINAL = [1]"
definition MIDDLE :: bytes where "MIDDLE = [2]"
definition TRUNCATED :: bytes where "TRUNCATED = [3]"
definition BLANK :: bytes where "BLANK = replicate 32 0"

lemmas tag_defs = EMPTY_def TERMINAL_def MIDDLE_def TRUNCATED_def

datatype node =
    EmptyNode
  | TerminalNode bytes
  | MiddleNode node node bytes
  | TruncatedNode bytes

text \<open>
  Each entry of \<^verbatim>\<open>prehashed\<close> is a hash object that has absorbed 30 zero bytes and a pair of
  tags; it is represented by the bytes it has absorbed.
\<close>

definition prehashed :: "(bytes, bytes) dict" where
  "prehashed =
     concat (map (\<lambda>x. map (\<lambda>y. (x @ y, replicate 30 0 @ x @ y)) [EMPTY, TERMINAL, MIDDLE])
               [EMPTY, TERMINAL, MIDDLE])"

definition hashdown :: "(bytes \<Rightarrow> bytes) \<Rightarrow> bytes \<Rightarrow> bytes res" where
  "hashdown sha mystr =
     rbind (py_assert (length mystr = 66)) (\<lambda>_.
     rbind (from_key (dget prehashed (take 1 mystr @ take 1 (drop 33 mystr)))) (\<lambda>h.
     Inr (take 32 (sha (h @ take 32 (drop 1 mystr) @ drop 34 mystr)))))"

definition compress_root :: "(bytes \<Rightarrow> bytes) \<Rightarrow> bytes \<Rightarrow> bytes res" where
  "compress_root sha mystr =
     rbind (py_assert (length mystr = 33)) (\<lambda>_.
     if take 1 mystr = MIDDLE then Inr (drop 1 mystr)
     else if take 1 mystr = EMPTY then
       rbind (py_assert (drop 1 mystr = BLANK)) (\<lambda>_. Inr BLANK)
     else Inr (take 32 (sha mystr)))"

definition get_bit :: "bytes \<Rightarrow> nat \<Rightarrow> nat res" where
  "get_bit mybytes pos =
     rbind (py_assert (length mybytes = 32)) (\<lambda>_.
     rbind (py_nth mybytes (int (pos div 8))) (\<lambda>b.
     Inr (unat (drop_bit (7 - pos mod 8) b AND 1))))"

fun node_hash :: "node \<Rightarrow> bytes" where
  "node_hash EmptyNode = BLANK"
| "node_hash (TerminalNode h) = h"
| "node_hash (MiddleNode l r h) = h"
| "node_hash (TruncatedNode h) = h"

fun get_hash :: "node \<Rightarrow> bytes" where
  "get_hash EmptyNode = EMPTY @ BLANK"
| "get_hash (TerminalNode h) = TERMINAL @ h"
| "get_hash (MiddleNode l r h) = MIDDLE @ h"
| "get_hash (TruncatedNode h) = MIDDLE @ h"

fun is_empty :: "node \<Rightarrow> bool" where
  "is_empty EmptyNode = True"
| "is_empty _ = False"

fun is_terminal :: "node \<Rightarrow> bool" where
  "is_terminal (TerminalNode h) = True"
| "is_terminal _ = False"

fun is_double :: "node \<Rightarrow> bool res" where
  "is_double EmptyNode = Inl SetError"
| "is_double (TerminalNode h) = Inl SetError"
| "is_double (MiddleNode l r h) =
     (if is_empty l then is_double r
      else if is_empty r then is_double l
      else Inr (is_terminal l \<and> is_terminal r))"
| "is_double (TruncatedNode h) = Inr False"

text \<open>The constructor of a middle node computes its hash or refuses the children.\<close>

definition mk_middle :: "(bytes \<Rightarrow> bytes) \<Rightarrow> node \<Rightarrow> node \<Rightarrow> node res" where
  "mk_middle sha c0 c1 =
     rbind (if is_empty c0 then is_double c1 else Inr False) (\<lambda>d1.
     if d1 then Inr (MiddleNode c0 c1 (node_hash c1))
     else rbind (if is_empty c1 then is_double c0 else Inr False) (\<lambda>d0.
     if d0 then Inr (MiddleNode c0 c1 (node_hash c0))
     else if is_empty c0 \<and> (is_empty c1 \<or> is_terminal c1) then Inl SetError
     else if is_empty c1 \<and> is_terminal c0 then Inl SetError
     else if is_terminal c0 \<and> is_terminal c1 \<and> node_hash c0 \<ge> node_hash c1 then Inl SetError
     else rbind (hashdown sha (get_hash c0 @ get_hash c1)) (\<lambda>h. Inr (MiddleNode c0 c1 h))))"

definition mk_terminal :: "bytes \<Rightarrow> node res" where
  "mk_terminal h = rbind (py_assert (length h = 32)) (\<lambda>_. Inr (TerminalNode h))"

definition audit_bits :: "bytes \<Rightarrow> nat list \<Rightarrow> unit res" where
  "audit_bits h bits =
     rfold (\<lambda>(pos, v) _. rbind (get_bit h pos) (\<lambda>b. py_assert (b = v))) (enumerate 0 bits) ()"

definition mk_terminal_at :: "bytes \<Rightarrow> nat list \<Rightarrow> node res" where
  "mk_terminal_at h bits =
     rbind (mk_terminal h) (\<lambda>t. rbind (audit_bits h bits) (\<lambda>_. Inr t))"

section \<open>Lookup facts about single bits\<close>

definition tbit :: "bytes \<Rightarrow> nat \<Rightarrow> bool" where
  "tbit x d = bit (x ! (d div 8)) (7 - d mod 8)"

lemma unat_and_one: "unat (drop_bit n b AND 1) = of_bool (bit b n)" for b :: byte
proof (cases "bit b n")
  case True
  then have "drop_bit n b AND 1 = 1"
    by (intro bit_eqI) (auto simp: bit_simps)
  with True show ?thesis by simp
next
  case False
  then have "drop_bit n b AND 1 = 0"
    by (intro bit_eqI) (auto simp: bit_simps intro!: gr0I)
  with False show ?thesis by simp
qed

lemma get_bit_ok: "length x = 32 \<Longrightarrow> d < 256 \<Longrightarrow> get_bit x d = Inr (of_bool (tbit x d))"
proof -
  assume "length x = 32" "d < 256"
  moreover from this have "nat (int d div 8) = d div 8" "int d div 8 < 32"
    by linarith+
  ultimately show ?thesis
    by (simp add: get_bit_def py_nth_def tbit_def unat_and_one)
qed

lemma get_bit_Inr: "get_bit x d = Inr b \<longleftrightarrow> length x = 32 \<and> d < 256 \<and> b = of_bool (tbit x d)"
proof (cases "length x = 32 \<and> d < 256")
  case True
  then show ?thesis by (auto simp: get_bit_ok)
next
  case False
  have "\<not> d < 256 \<Longrightarrow> \<not> int (d div 8) < 32" by linarith
  with False show ?thesis by (auto simp: get_bit_def py_nth_def res_simps)
qed

section \<open>Adding and removing\<close>

function make_middle :: "(bytes \<Rightarrow> bytes) \<Rightarrow> node \<Rightarrow> node \<Rightarrow> nat \<Rightarrow> node res" where
  "make_middle sha c0 c1 depth =
     rbind (get_bit (node_hash c0) depth) (\<lambda>b0.
     rbind (get_bit (node_hash c1) depth) (\<lambda>b1.
     if b0 \<noteq> b1 then mk_middle sha c0 c1
     else rbind (make_middle sha c0 c1 (depth + 1)) (\<lambda>m.
       if b0 = 0 then mk_middle sha m EmptyNode else mk_middle sha EmptyNode m)))"
  by pat_completeness auto
termination
  by (relation "measure (\<lambda>(sha, c0, c1, depth). 256 - depth)") (auto simp: get_bit_Inr)

declare make_middle.simps [simp del]

fun node_add :: "(bytes \<Rightarrow> bytes) \<Rightarrow> bytes \<Rightarrow> nat \<Rightarrow> node \<Rightarrow> node res" where
  "node_add sha toadd depth EmptyNode = mk_terminal toadd"
| "node_add sha toadd depth (TerminalNode h) =
     (if toadd = h then Inr (TerminalNode h)
      else rbind (mk_terminal toadd) (\<lambda>t.
        if toadd > h then make_middle sha (TerminalNode h) t depth
        else make_middle sha t (TerminalNode h) depth))"
| "node_add sha toadd depth (MiddleNode l r h) =
     rbind (get_bit toadd depth) (\<lambda>b.
     if b = 0 then
       rbind (node_add sha toadd (depth + 1) l) (\<lambda>newchild.
       if newchild = l then Inr (MiddleNode l r h) else mk_middle sha newchild r)
     else
       rbind (node_add sha toadd (depth + 1) r) (\<lambda>newchild.
       if newchild = r then Inr (MiddleNode l r h) else mk_middle sha l newchild))"
| "node_add sha toadd depth (TruncatedNode h) = Inr (TruncatedNode h)"

definition remove_merge ::
    "(bytes \<Rightarrow> bytes) \<Rightarrow> bool \<Rightarrow> node \<Rightarrow> node \<Rightarrow> node res" where
  "remove_merge sha left newchild otherchild =
     (if is_empty newchild \<and> is_terminal otherchild then Inr otherchild
      else if is_terminal newchild \<and> is_empty otherchild then Inr newchild
      else if left then mk_middle sha newchild otherchild
      else mk_middle sha otherchild newchild)"

fun node_remove :: "(bytes \<Rightarrow> bytes) \<Rightarrow> bytes \<Rightarrow> nat \<Rightarrow> node \<Rightarrow> node res" where
  "node_remove sha toremove depth EmptyNode = Inr EmptyNode"
| "node_remove sha toremove depth (TerminalNode h) =
     (if toremove = h then Inr EmptyNode else Inr (TerminalNode h))"
| "node_remove sha toremove depth (MiddleNode l r h) =
     rbind (get_bit toremove depth) (\<lambda>b.
     if b = 0 then
       rbind (node_remove sha toremove (depth + 1) l) (\<lambda>newchild.
       if newchild = l then Inr (MiddleNode l r h) else remove_merge sha True newchild r)
     else
       rbind (node_remove sha toremove (depth + 1) r) (\<lambda>newchild.
       if newchild = r then Inr (MiddleNode l r h) else remove_merge sha False newchild l))"
| "node_remove sha toremove depth (TruncatedNode h) = Inr (TruncatedNode h)"

section \<open>Membership with a proof\<close>

text \<open>The proof chunks are appended to the list \<open>p\<close> in the order the code appends them.\<close>

fun node_included :: "bytes \<Rightarrow> nat \<Rightarrow> node \<Rightarrow> bytes list \<Rightarrow> (bool \<times> bytes list) res"
and other_included :: "bytes \<Rightarrow> nat \<Rightarrow> node \<Rightarrow> bytes list \<Rightarrow> bool \<Rightarrow> bytes list res" where
  "node_included tocheck depth EmptyNode p = Inr (False, p @ [EMPTY])"
| "node_included tocheck depth (TerminalNode h) p = Inr (tocheck = h, p @ [TERMINAL @ h])"
| "node_included tocheck depth (MiddleNode l r h) p =
     rbind (get_bit tocheck depth) (\<lambda>b.
     if b = 0 then
       rbind (node_included tocheck (depth + 1) l (p @ [MIDDLE])) (\<lambda>(res, p1).
       rbind (other_included tocheck (depth + 1) r p1 (\<not> is_empty l)) (\<lambda>p2.
       Inr (res, p2)))
     else
       rbind (other_included tocheck (depth + 1) l (p @ [MIDDLE]) (\<not> is_empty r)) (\<lambda>p1.
       node_included tocheck (depth + 1) r p1))"
| "node_included tocheck depth (TruncatedNode h) p = Inl SetError"
| "other_included tocheck depth EmptyNode p collapse = Inr (p @ [EMPTY])"
| "other_included tocheck depth (TerminalNode h) p collapse = Inr (p @ [TERMINAL @ h])"
| "other_included tocheck depth (MiddleNode l r h) p collapse =
     (if collapse then Inr (p @ [TRUNCATED @ h])
      else rbind (is_double (MiddleNode l r h)) (\<lambda>d.
        if \<not> d then Inr (p @ [TRUNCATED @ h])
        else rbind (node_included tocheck depth (MiddleNode l r h) p) (\<lambda>(res, p1). Inr p1)))"
| "other_included tocheck depth (TruncatedNode h) p collapse = Inr (p @ [TRUNCATED @ h])"

fun node_audit :: "node \<Rightarrow> bytes list \<Rightarrow> nat list \<Rightarrow> bytes list res" where
  "node_audit EmptyNode hashes bits = Inr hashes"
| "node_audit (TerminalNode h) hashes bits =
     rbind (audit_bits h bits) (\<lambda>_. Inr (hashes @ [h]))"
| "node_audit (MiddleNode l r h) hashes bits =
     rbind (node_audit l hashes (bits @ [0])) (\<lambda>hs. node_audit r hs (bits @ [1]))"
| "node_audit (TruncatedNode h) hashes bits = Inr hashes"

section \<open>The set object\<close>

record merkle_set =
  root :: node

definition MerkleSet :: "node option \<Rightarrow> merkle_set" where
  "MerkleSet r = \<lparr>root = (case r of None \<Rightarrow> EmptyNode | Some n \<Rightarrow> n)\<rparr>"

definition get_root :: "(bytes \<Rightarrow> bytes) \<Rightarrow> merkle_set \<Rightarrow> bytes res" where
  "get_root sha s = compress_root sha (get_hash (root s))"

definition add_already_hashed :: "(bytes \<Rightarrow> bytes) \<Rightarrow> bytes \<Rightarrow> merkle_set \<Rightarrow> merkle_set res" where
  "add_already_hashed sha toadd s =
     rbind (node_add sha toadd 0 (root s)) (\<lambda>n. Inr (s\<lparr>root := n\<rparr>))"

definition remove_already_hashed ::
    "(bytes \<Rightarrow> bytes) \<Rightarrow> bytes \<Rightarrow> merkle_set \<Rightarrow> merkle_set res" where
  "remove_already_hashed sha toremove s =
     rbind (node_remove sha toremove 0 (root s)) (\<lambda>n. Inr (s\<lparr>root := n\<rparr>))"

definition is_included_already_hashed :: "bytes \<Rightarrow> merkle_set \<Rightarrow> (bool \<times> bytes) res" where
  "is_included_already_hashed tocheck s =
     rbind (node_included tocheck 0 (root s) []) (\<lambda>(r, proof). Inr (r, concat proof))"

definition merkle_set_audit :: "merkle_set \<Rightarrow> unit res" where
  "merkle_set_audit s =
     rbind (node_audit (root s) [] []) (\<lambda>newhashes. py_assert (newhashes = sort newhashes))"

section \<open>Checking proofs\<close>

function node_deserialize ::
    "(bytes \<Rightarrow> bytes) \<Rightarrow> bytes \<Rightarrow> nat \<Rightarrow> nat list \<Rightarrow> (node \<times> nat) res" where
  "node_deserialize sha pf pos bits =
     (let t = take 1 (drop pos pf) in
      if t = EMPTY then Inr (EmptyNode, pos + 1)
      else if t = TERMINAL then
        rbind (mk_terminal_at (take 32 (drop (pos + 1) pf)) bits) (\<lambda>n. Inr (n, pos + 33))
      else if t = TRUNCATED then Inr (TruncatedNode (take 32 (drop (pos + 1) pf)), pos + 33)
      else if t \<noteq> MIDDLE then Inl SetError
      else
        rbind (node_deserialize sha pf (pos + 1) (bits @ [0])) (\<lambda>(v0, pos1).
        rbind (node_deserialize sha pf pos1 (bits @ [1])) (\<lambda>(v1, pos2).
        rbind (mk_middle sha v0 v1) (\<lambda>m. Inr (m, pos2)))))"
  by pat_completeness auto

lemma node_deserialize_progress:
  "node_deserialize_dom (sha, pf, pos, bits) \<Longrightarrow>
   node_deserialize sha pf pos bits = Inr (n, pos') \<Longrightarrow> pos < pos'"
proof (induction sha pf pos bits arbitrary: n pos' rule: node_deserialize.pinduct)
  case (1 sha pf p bs)
  note unfold = node_deserialize.psimps [OF "1.hyps"]
  show ?case
  proof (cases "take 1 (drop p pf) = MIDDLE")
    case True
    then have tags: "take 1 (drop p pf) \<noteq> EMPTY" "take 1 (drop p pf) \<noteq> TERMINAL"
      "take 1 (drop p pf) \<noteq> TRUNCATED" "\<not> take 1 (drop p pf) \<noteq> MIDDLE"
      by (auto simp: tag_defs)
    from "1.prems" tags obtain v0 p1 v1
      where fst: "node_deserialize sha pf (p + 1) (bs @ [0]) = Inr (v0, p1)"
        and snd: "node_deserialize sha pf p1 (bs @ [1]) = Inr (v1, pos')"
      by (auto simp: unfold Let_def res_simps)
    have "p + 1 < p1" by (rule "1.IH"(1) [OF refl tags fst])
    moreover have "p1 < pos'" by (rule "1.IH"(2) [OF refl tags fst refl snd])
    ultimately show ?thesis by simp
  next
    case False
    with "1.prems" show ?thesis
      by (auto simp: unfold Let_def res_simps split: if_splits)
  qed
qed

termination node_deserialize
proof (relation "measure (\<lambda>(sha, pf, pos, bits). length pf - pos)", goal_cases)
  case 1
  then show ?case by simp
next
  case (2 sha pf p bs t)
  have "p < length pf"
  proof (rule ccontr)
    assume "\<not> p < length pf"
    then have "t = []" using 2(1) by simp
    then show False using 2 by (simp add: tag_defs)
  qed
  then show ?case by simp
next
  case (3 sha pf p bs t a v0 pos1)
  have "p < length pf"
  proof (rule ccontr)
    assume "\<not> p < length pf"
    then have "t = []" using 3(1) by simp
    then show False using 3 by (simp add: tag_defs)
  qed
  moreover have "p + 1 < pos1"
    using 3 by (auto dest!: node_deserialize_progress)
  ultimately show ?case by simp
qed

declare node_deserialize.simps [simp del]

definition deserialize_proof :: "(bytes \<Rightarrow> bytes) \<Rightarrow> bytes \<Rightarrow> merkle_set res" where
  "deserialize_proof sha pf =
     (case rbind (node_deserialize sha pf 0 []) (\<lambda>(r, pos).
             if pos \<noteq> length pf then Inl SetError else Inr (MerkleSet (Some r))) of
        Inl IndexError \<Rightarrow> Inl SetError
      | x \<Rightarrow> x)"

definition confirm :: "(bytes \<Rightarrow> bytes) \<Rightarrow> bytes \<Rightarrow> bytes \<Rightarrow> bytes \<Rightarrow> bool \<Rightarrow> bool res" where
  "confirm sha rt val pf expected =
     (case rbind (deserialize_proof sha pf) (\<lambda>p.
           rbind (get_root sha p) (\<lambda>r.
           if r \<noteq> rt then Inr False
           else rbind (is_included_already_hashed val p) (\<lambda>(r, junk). Inr (r = expected)))) of
        Inl SetError \<Rightarrow> Inr False
      | x \<Rightarrow> x)"

definition confirm_included_already_hashed ::
    "(bytes \<Rightarrow> bytes) \<Rightarrow> bytes \<Rightarrow> bytes \<Rightarrow> bytes \<Rightarrow> bool res" where
  "confirm_included_already_hashed sha rt val pf = confirm sha rt val pf True"

definition confirm_not_included_already_hashed ::
    "(bytes \<Rightarrow> bytes) \<Rightarrow> bytes \<Rightarrow> bytes \<Rightarrow> bytes \<Rightarrow> bool res" where
  "confirm_not_included_already_hashed sha rt val pf = confirm sha rt val pf False"

definition confirm_included :: "(bytes \<Rightarrow> bytes) \<Rightarrow> bytes \<Rightarrow> bytes \<Rightarrow> bytes \<Rightarrow> bool res" where
  "confirm_included sha rt val pf =
     confirm_not_included_already_hashed sha rt (sha val) pf"

definition confirm_not_included :: "(bytes \<Rightarrow> bytes) \<Rightarrow> bytes \<Rightarrow> bytes \<Rightarrow> bytes \<Rightarrow> bool res" where
  "confirm_not_included sha rt val pf =
     confirm_not_included_already_hashed sha rt (sha val) pf"

end
