(* ===== verification/Gold_Merkle_Set_Correct.thy ===== *)
theory Gold_Merkle_Set_Correct
  imports Gold_Merkle_Set
begin

text \<open>
  Correctness of the Merkle set: the shape invariant, its preservation by adding and
  removing, the refinement of the trie to the set of its leaves, the uniqueness of the
  trie (and so of the root) for a set, and the correctness of membership proofs.
\<close>

section \<open>Bit order and byte order\<close>

lemma int_less_by_bit:
  fixes x y :: int
  assumes hi: "\<And>i. j < i \<Longrightarrow> bit x i = bit y i" and "\<not> bit x j" and "bit y j"
  shows "x < y"
proof -
  have eq: "drop_bit (Suc j) x = drop_bit (Suc j) y"
    by (rule bit_eqI) (simp add: bit_drop_bit_eq hi)
  have "take_bit (Suc j) x = take_bit j x" "take_bit (Suc j) y = 2 ^ j + take_bit j y"
    using assms(2,3) by (simp_all add: take_bit_Suc_from_most)
  moreover have "take_bit j x < 2 ^ j" "0 \<le> take_bit j y"
    by simp_all
  ultimately have "take_bit (Suc j) x < take_bit (Suc j) y" by linarith
  moreover have "push_bit (Suc j) (drop_bit (Suc j) x) + take_bit (Suc j) x = x"
    "push_bit (Suc j) (drop_bit (Suc j) y) + take_bit (Suc j) y = y"
    by (rule bits_ident)+
  ultimately show ?thesis using eq by (metis add_strict_left_mono)
qed

lemma byte_less_by_bit:
  fixes a b :: byte
  assumes "\<And>i. j < i \<Longrightarrow> i < 8 \<Longrightarrow> bit a i = bit b i" and "\<not> bit a j" and "bit b j"
  shows "a < b"
proof -
  have "uint a < uint b"
  proof (rule int_less_by_bit [where j = j])
    fix i assume "j < i"
    then show "bit (uint a) i = bit (uint b) i"
      using assms(1) [of i] by (auto simp: bit_uint_iff)
  qed (use assms(2,3) in \<open>auto simp: bit_uint_iff dest: bit_imp_le_length\<close>)
  then show ?thesis by (simp add: word_less_def)
qed

lemma tbit_byte: "i < 8 \<Longrightarrow> tbit x (8 * k + i) = bit (x ! k) (7 - i)"
  by (simp add: tbit_def)

lemma bytes_eq_by_bits:
  assumes "\<And>i. i < 8 \<Longrightarrow> tbit x (8 * k + i) = tbit y (8 * k + i)"
  shows "x ! k = y ! k"
proof (rule bit_eqI)
  fix n assume "possible_bit TYPE(8 word) n"
  then have "n < 8" by simp
  then show "bit (x ! k) n = bit (y ! k) n"
    using assms [of "7 - n"] tbit_byte [of "7 - n" x k] tbit_byte [of "7 - n" y k] by simp
qed

definition agree :: "nat \<Rightarrow> bytes \<Rightarrow> bytes \<Rightarrow> bool" where
  "agree d x y = (\<forall>i < d. tbit x i = tbit y i)"

lemma agree_sym: "agree d x y \<Longrightarrow> agree d y x"
  by (simp add: agree_def)

lemma agree_take:
  assumes "length x = 32" and "length y = 32" and "agree d x y"
  shows "take (d div 8) x = take (d div 8) y"
proof (rule nth_equalityI)
  fix k assume "k < length (take (d div 8) x)"
  then have k: "k < d div 8" "k < 32" using assms(1) by simp_all
  have "x ! k = y ! k"
  proof (rule bytes_eq_by_bits)
    fix i :: nat assume "i < 8"
    with k(1) have "8 * k + i < d" by linarith
    with assms(3) show "tbit x (8 * k + i) = tbit y (8 * k + i)" by (simp add: agree_def)
  qed
  with k show "take (d div 8) x ! k = take (d div 8) y ! k" by simp
qed (use assms(1,2) in simp)

lemma agree_all_eq: "length x = 32 \<Longrightarrow> length y = 32 \<Longrightarrow> agree 256 x y \<Longrightarrow> x = y"
  using agree_take [of x y 256] by simp

lemma less_by_tbit:
  assumes "length x = 32" and "length y = 32" and "d < 256" and "agree d x y"
    and "\<not> tbit x d" and "tbit y d"
  shows "x < y"
proof -
  let ?k = "d div 8"
  have k: "?k < 32" using assms(3) by linarith
  have "x ! ?k < y ! ?k"
  proof (rule byte_less_by_bit [where j = "7 - d mod 8"])
    fix i assume i: "7 - d mod 8 < i" "i < 8"
    then have "7 - i < d mod 8" by linarith
    then have "8 * ?k + (7 - i) < d" using mult_div_mod_eq [of 8 d] by linarith
    with assms(4) have "tbit x (8 * ?k + (7 - i)) = tbit y (8 * ?k + (7 - i))"
      by (simp add: agree_def)
    moreover have "7 - i < 8" "7 - (7 - i) = i" using i by linarith+
    ultimately show "bit (x ! ?k) i = bit (y ! ?k) i"
      by (metis tbit_byte)
  qed (use assms(5,6) in \<open>simp_all add: tbit_def\<close>)
  then have "(x, y) \<in> lexord {(u, v). u < v}"
    using k assms(1,2) agree_take [OF assms(1,2,4)]
    by (auto simp: lexord_take_index_conv)
  then show ?thesis by (simp add: list_less_def)
qed

lemma tbit_by_less:
  assumes "length x = 32" and "length y = 32" and "d < 256" and "agree d x y"
    and "x < y" and "tbit x d \<noteq> tbit y d"
  shows "\<not> tbit x d" and "tbit y d"
proof -
  show "\<not> tbit x d"
  proof
    assume "tbit x d"
    with assms have "y < x" by (intro less_by_tbit [of y x d]) (auto simp: agree_sym)
    with assms(5) show False by simp
  qed
  with assms(6) show "tbit y d" by simp
qed

section \<open>The invariant and the leaves\<close>

fun leaves :: "node \<Rightarrow> bytes set" where
  "leaves EmptyNode = {}"
| "leaves (TerminalNode h) = {h}"
| "leaves (MiddleNode l r h) = leaves l \<union> leaves r"
| "leaves (TruncatedNode h) = {}"

definition on_path :: "bool list \<Rightarrow> bytes \<Rightarrow> bool" where
  "on_path p x = (length x = 32 \<and> (\<forall>i < length p. tbit x i = p ! i))"

text \<open>
  A node reached by the bits \<open>p\<close> is well formed when its leaves have 32 bytes and those bits,
  and every middle node is what the constructor builds from its children.
\<close>

fun node_wf :: "(bytes \<Rightarrow> bytes) \<Rightarrow> bool list \<Rightarrow> node \<Rightarrow> bool" where
  "node_wf sha p EmptyNode = True"
| "node_wf sha p (TerminalNode h) = on_path p h"
| "node_wf sha p (MiddleNode l r h) =
     (length p < 256 \<and> node_wf sha (p @ [False]) l \<and> node_wf sha (p @ [True]) r \<and>
      mk_middle sha l r = Inr (MiddleNode l r h))"
| "node_wf sha p (TruncatedNode h) = False"

lemma on_path_snoc: "on_path (p @ [b]) x \<longleftrightarrow> on_path p x \<and> tbit x (length p) = b"
  by (auto simp: on_path_def nth_append less_Suc_eq)

lemma on_path_agree: "on_path p x \<Longrightarrow> on_path p y \<Longrightarrow> agree (length p) x y"
  by (simp add: on_path_def agree_def)

lemma on_path_length [simp]: "on_path p x \<Longrightarrow> length x = 32"
  by (simp add: on_path_def)

lemma on_path_Nil [simp]: "on_path [] x \<longleftrightarrow> length x = 32"
  by (simp add: on_path_def)

lemma leaves_on_path: "node_wf sha p n \<Longrightarrow> x \<in> leaves n \<Longrightarrow> on_path p x"
  by (induction n arbitrary: p) (fastforce simp: on_path_snoc)+

lemma on_path_less:
  assumes "on_path (p @ [False]) x" and "on_path (p @ [True]) y" and "length p < 256"
  shows "x < y"
  using assms by (intro less_by_tbit [where d = "length p"]) (auto simp: on_path_snoc on_path_agree)

text \<open>The pairs of children that the constructor accepts.\<close>

definition admissible :: "node \<Rightarrow> node \<Rightarrow> bool" where
  "admissible c0 c1 \<longleftrightarrow>
     \<not> (is_empty c0 \<and> (is_empty c1 \<or> is_terminal c1)) \<and>
     \<not> (is_empty c1 \<and> is_terminal c0) \<and>
     \<not> (is_terminal c0 \<and> is_terminal c1 \<and> node_hash c0 \<ge> node_hash c1)"

lemma is_empty_iff: "is_empty n \<longleftrightarrow> n = EmptyNode"
  by (cases n) auto

lemma is_double_raises: "is_double n = Inl e \<Longrightarrow> e = SetError"
  by (induction n) (auto split: if_splits)

lemma mk_middle_admissible: "mk_middle sha c0 c1 = Inr n \<Longrightarrow> admissible c0 c1"
proof -
  assume mk: "mk_middle sha c0 c1 = Inr n"
  show ?thesis
    using mk by (cases c0; cases c1)
      (auto simp: mk_middle_def admissible_def split: if_splits)
qed

lemma mk_middle_shape: "mk_middle sha c0 c1 = Inr n \<Longrightarrow> \<exists>h. n = MiddleNode c0 c1 h"
  by (auto simp: mk_middle_def res_simps split: if_splits)


lemma prehashed_lookup:
  assumes "s \<in> {EMPTY, TERMINAL, MIDDLE}" and "t \<in> {EMPTY, TERMINAL, MIDDLE}"
  shows "dget prehashed (s @ t) = Some (replicate 30 0 @ s @ t)"
  using assms by (elim insertE; simp add: prehashed_def tag_defs)

lemma hashdown_value:
  assumes "length x = 32" and "length y = 32"
    and "s \<in> {EMPTY, TERMINAL, MIDDLE}" and "t \<in> {EMPTY, TERMINAL, MIDDLE}"
  shows "hashdown sha ((s @ x) @ t @ y) = Inr (take 32 (sha (replicate 30 0 @ s @ t @ x @ y)))"
proof -
  have len: "length s = 1" "length t = 1" using assms(3,4) by (auto simp: tag_defs)
  then show ?thesis
    using assms(1,2) prehashed_lookup [OF assms(3,4)]
    by (simp add: hashdown_def)
qed

text \<open>
  The digests of the hash function have 32 bytes; this is the only fact about it that the
  shape of the tree depends on.
\<close>

locale digest32 =
  fixes sha :: "bytes \<Rightarrow> bytes"
  assumes sha_length: "length (sha m) = 32"
begin

lemma hashdown_ok:
  assumes "length x = 32" and "length y = 32"
    and "s \<in> {EMPTY, TERMINAL, MIDDLE}" and "t \<in> {EMPTY, TERMINAL, MIDDLE}"
  shows "\<exists>h. hashdown sha ((s @ x) @ t @ y) = Inr h \<and> length h = 32"
  using hashdown_value [OF assms] by (simp add: sha_length)

lemma node_hash_length: "node_wf sha p n \<Longrightarrow> length (node_hash n) = 32"
proof (induction n arbitrary: p)
  case (MiddleNode l r h)
  then have "length (node_hash l) = 32" "length (node_hash r) = 32" by auto
  with MiddleNode.prems show ?case
    by (auto simp: mk_middle_def res_simps hashdown_def sha_length split: if_splits)
qed (auto simp: BLANK_def)

lemma get_hash_split:
  assumes "node_wf sha p n"
  shows "\<exists>t. t \<in> {EMPTY, TERMINAL, MIDDLE} \<and> get_hash n = t @ node_hash n"
  using assms by (cases n) auto

lemma get_hash_length: "node_wf sha p n \<Longrightarrow> length (get_hash n) = 33"
  using node_hash_length [of p n] get_hash_split [of p n] by (auto simp: tag_defs)

lemma is_double_ok:
  assumes "node_wf sha p n" and "\<not> is_empty n" and "\<not> is_terminal n"
  shows "\<exists>d. is_double n = Inr d"
  using assms
proof (induction n arbitrary: p)
  case (MiddleNode l r h)
  then have "admissible l r" by (auto dest: mk_middle_admissible)
  with MiddleNode show ?case by (auto simp: admissible_def)
qed auto

lemma mk_middle_ok:
  assumes "node_wf sha p c0" and "node_wf sha q c1" and "admissible c0 c1"
  shows "\<exists>h. mk_middle sha c0 c1 = Inr (MiddleNode c0 c1 h)"
proof -
  obtain s where s: "s \<in> {EMPTY, TERMINAL, MIDDLE}" "get_hash c0 = s @ node_hash c0"
    using get_hash_split [OF assms(1)] by blast
  obtain t where t: "t \<in> {EMPTY, TERMINAL, MIDDLE}" "get_hash c1 = t @ node_hash c1"
    using get_hash_split [OF assms(2)] by blast
  obtain h where h: "hashdown sha (get_hash c0 @ get_hash c1) = Inr h"
    using hashdown_ok [OF node_hash_length [OF assms(1)] node_hash_length [OF assms(2)] s(1) t(1)]
    by (auto simp: s(2) t(2))
  have d0: "is_empty c1 \<Longrightarrow> \<exists>d. is_double c0 = Inr d"
    using assms is_double_ok [OF assms(1)] by (auto simp: admissible_def)
  have d1: "is_empty c0 \<Longrightarrow> \<exists>d. is_double c1 = Inr d"
    using assms is_double_ok [OF assms(2)] by (auto simp: admissible_def)
  show ?thesis
    using assms(3) h d0 d1 by (auto simp: mk_middle_def admissible_def)
qed

lemma middle_wf:
  assumes "length p < 256" and "node_wf sha (p @ [False]) c0" and "node_wf sha (p @ [True]) c1"
    and "admissible c0 c1"
  shows "\<exists>n. mk_middle sha c0 c1 = Inr n \<and> node_wf sha p n \<and>
    leaves n = leaves c0 \<union> leaves c1 \<and> \<not> is_empty n \<and> \<not> is_terminal n"
  using mk_middle_ok [OF assms(2,3,4)] assms(1,2,3) by auto

lemma make_middle_ok:
  assumes "on_path p x" and "on_path p y" and "x < y"
  shows "\<exists>n. make_middle sha (TerminalNode x) (TerminalNode y) (length p) = Inr n \<and>
    node_wf sha p n \<and> leaves n = {x, y} \<and> \<not> is_empty n \<and> \<not> is_terminal n"
  using assms
proof (induction "256 - length p" arbitrary: p rule: less_induct)
  case less
  have len: "length x = 32" "length y = 32" using less.prems by auto
  have lt: "length p < 256"
  proof (rule ccontr)
    assume "\<not> length p < 256"
    with less.prems have "agree 256 x y" by (auto simp: on_path_def agree_def)
    then have "x = y" by (rule agree_all_eq [OF len])
    with less.prems(3) show False by simp
  qed
  note bits = get_bit_ok [OF len(1) lt] get_bit_ok [OF len(2) lt]
  show ?case
  proof (cases "tbit x (length p) = tbit y (length p)")
    case False
    then have b: "\<not> tbit x (length p)" "tbit y (length p)"
      using tbit_by_less [OF len lt on_path_agree] less.prems by blast+
    then have "node_wf sha (p @ [False]) (TerminalNode x)" "node_wf sha (p @ [True]) (TerminalNode y)"
      using less.prems by (auto simp: on_path_snoc)
    moreover have "admissible (TerminalNode x) (TerminalNode y)"
      using less.prems by (auto simp: admissible_def)
    ultimately obtain n where n: "mk_middle sha (TerminalNode x) (TerminalNode y) = Inr n"
      "node_wf sha p n" "leaves n = {x} \<union> {y}" "\<not> is_empty n" "\<not> is_terminal n"
      using middle_wf [OF lt] by (metis leaves.simps(2))
    then show ?thesis
      using b bits by (auto simp: make_middle.simps [of _ _ _ "length p"])
  next
    case True
    let ?b = "tbit x (length p)"
    have path: "on_path (p @ [?b]) x" "on_path (p @ [?b]) y"
      using less.prems True by (auto simp: on_path_snoc)
    have dec: "256 - length (p @ [?b]) < 256 - length p" using lt by (simp only: length_append) simp
    obtain m where m: "make_middle sha (TerminalNode x) (TerminalNode y) (length p + 1) = Inr m"
      "node_wf sha (p @ [?b]) m" "leaves m = {x, y}" "\<not> is_empty m" "\<not> is_terminal m"
      using less.hyps [OF dec path less.prems(3)] by auto
    have "admissible m EmptyNode" "admissible EmptyNode m"
      using m by (auto simp: admissible_def)
    then have ex: "\<exists>n. (if ?b then mk_middle sha EmptyNode m else mk_middle sha m EmptyNode) = Inr n \<and>
        node_wf sha p n \<and> leaves n = {x, y} \<and> \<not> is_empty n \<and> \<not> is_terminal n"
      using middle_wf [OF lt, of EmptyNode m] middle_wf [OF lt, of m EmptyNode] m(2,3)
      by (cases ?b) simp_all
    then obtain n where n: "(if ?b then mk_middle sha EmptyNode m else mk_middle sha m EmptyNode) = Inr n"
      "node_wf sha p n" "leaves n = {x, y}" "\<not> is_empty n" "\<not> is_terminal n"
      using ex by blast
    then show ?thesis
      using m True bits by (auto simp: make_middle.simps [of _ _ _ "length p"])
  qed
qed


lemma middle_cases:
  assumes "node_wf sha p (MiddleNode l r h)"
  shows "length p < 256" and "node_wf sha (p @ [False]) l" and "node_wf sha (p @ [True]) r"
    and "admissible l r"
  using assms by (auto dest: mk_middle_admissible)

lemma admissible_intro:
  assumes "node_wf sha (p @ [False]) c0" and "node_wf sha (p @ [True]) c1" and "length p < 256"
    and "is_empty c0 \<Longrightarrow> \<not> is_empty c1 \<and> \<not> is_terminal c1"
    and "is_empty c1 \<Longrightarrow> \<not> is_terminal c0"
  shows "admissible c0 c1"
proof -
  have "node_hash c0 < node_hash c1" if "is_terminal c0" "is_terminal c1"
    using that assms(1-3) by (cases c0; cases c1) (auto intro: on_path_less)
  with assms(4,5) show ?thesis by (force simp: admissible_def)
qed

text \<open>Adding: never raises, keeps the invariant, adds exactly the new leaf.\<close>

lemma node_add_ok:
  assumes "node_wf sha p n" and "on_path p x"
  shows "\<exists>n'. node_add sha x (length p) n = Inr n' \<and> node_wf sha p n' \<and>
    leaves n' = insert x (leaves n) \<and> \<not> is_empty n' \<and>
    (is_terminal n' \<longrightarrow> n = EmptyNode \<or> n' = n)"
  using assms
proof (induction n arbitrary: p)
  case EmptyNode
  then show ?case by (simp add: mk_terminal_def)
next
  case (TerminalNode h)
  then have [simp]: "mk_terminal x = Inr (TerminalNode x)" by (simp add: mk_terminal_def)
  consider "x = h" | "x > h" | "x < h" by force
  then show ?case
  proof cases
    case 2
    with TerminalNode.prems make_middle_ok [of p h x] show ?thesis by fastforce
  next
    case 3
    with TerminalNode.prems make_middle_ok [of p x h] show ?thesis by fastforce
  qed (use TerminalNode.prems in simp)
next
  case (MiddleNode l r h)
  note wf = middle_cases [OF MiddleNode.prems(1)]
  note bit = get_bit_ok [OF on_path_length [OF MiddleNode.prems(2)] wf(1)]
  show ?case
  proof (cases "tbit x (length p)")
    case False
    then have "on_path (p @ [False]) x" using MiddleNode.prems(2) by (simp add: on_path_snoc)
    then obtain c where c: "node_add sha x (length p + 1) l = Inr c" "node_wf sha (p @ [False]) c"
      "leaves c = insert x (leaves l)" "\<not> is_empty c" "is_terminal c \<longrightarrow> l = EmptyNode \<or> c = l"
      using MiddleNode.IH(1) [OF wf(2)] by auto
    have "admissible c r"
      using c wf(4) by (intro admissible_intro [OF c(2) wf(3,1)]) (auto simp: admissible_def is_empty_iff)
    then obtain m where "mk_middle sha c r = Inr m" "node_wf sha p m"
      "leaves m = leaves c \<union> leaves r" "\<not> is_empty m" "\<not> is_terminal m"
      using middle_wf [OF wf(1) c(2) wf(3)] by blast
    with False c bit MiddleNode.prems show ?thesis by (cases "c = l") auto
  next
    case True
    then have "on_path (p @ [True]) x" using MiddleNode.prems(2) by (simp add: on_path_snoc)
    then obtain c where c: "node_add sha x (length p + 1) r = Inr c" "node_wf sha (p @ [True]) c"
      "leaves c = insert x (leaves r)" "\<not> is_empty c" "is_terminal c \<longrightarrow> r = EmptyNode \<or> c = r"
      using MiddleNode.IH(2) [OF wf(3)] by auto
    have "admissible l c"
      using c wf(4) by (intro admissible_intro [OF wf(2) c(2) wf(1)]) (auto simp: admissible_def is_empty_iff)
    then obtain m where "mk_middle sha l c = Inr m" "node_wf sha p m"
      "leaves m = leaves l \<union> leaves c" "\<not> is_empty m" "\<not> is_terminal m"
      using middle_wf [OF wf(1,2) c(2)] by blast
    with True c bit MiddleNode.prems show ?thesis by (cases "c = r") auto
  qed
next
  case (TruncatedNode h)
  then show ?case by simp
qed

text \<open>The number of leaves is visible in the constructor.\<close>

lemma leaves_empty_iff: "node_wf sha p n \<Longrightarrow> leaves n = {} \<longleftrightarrow> is_empty n"
proof (induction n arbitrary: p)
  case (MiddleNode l r h)
  from middle_cases [OF MiddleNode.prems] MiddleNode.IH show ?case
    by (auto simp: admissible_def)
qed auto

lemma sides_disjoint:
  assumes "node_wf sha (p @ [False]) l" and "node_wf sha (p @ [True]) r"
  shows "leaves l \<inter> leaves r = {}"
  using leaves_on_path [OF assms(1)] leaves_on_path [OF assms(2)] by (auto simp: on_path_snoc)

lemma leaves_singleton_iff: "node_wf sha p n \<Longrightarrow> (\<exists>x. leaves n = {x}) \<longleftrightarrow> is_terminal n"
proof (induction n arbitrary: p)
  case (MiddleNode l r h)
  note wf = middle_cases [OF MiddleNode.prems]
  have "leaves l \<union> leaves r \<noteq> {x}" for x
  proof
    assume eq: "leaves l \<union> leaves r = {x}"
    with sides_disjoint [OF wf(2,3)] consider "leaves l = {}" "leaves r = {x}" | "leaves l = {x}" "leaves r = {}"
      by (metis Int_insert_left_if1 Un_empty_right insert_not_empty singletonI subset_singletonD sup.cobounded1
          sup.cobounded2 sup_bot_left)
    then show False
      using MiddleNode.IH wf leaves_empty_iff [OF wf(2)] leaves_empty_iff [OF wf(3)]
      by cases (auto simp: admissible_def)
  qed
  then show ?case by auto
qed auto

text \<open>Removing: never raises, keeps the invariant, removes exactly the leaf.\<close>

lemma remove_merge_ok:
  assumes "length p < 256" and "node_wf sha (p @ [b]) c" and "node_wf sha (p @ [\<not> b]) d"
    and "\<not> (is_empty c \<and> is_empty d)"
  shows "\<exists>n. remove_merge sha (\<not> b) c d = Inr n \<and> node_wf sha p n \<and> leaves n = leaves c \<union> leaves d"
proof -
  consider "is_empty c" "is_terminal d" | "is_terminal c" "is_empty d"
    | "\<not> (is_empty c \<and> is_terminal d)" "\<not> (is_terminal c \<and> is_empty d)" by blast
  then show ?thesis
  proof cases
    case 1
    then show ?thesis
      using assms(2,3) by (cases c; cases d) (simp_all add: remove_merge_def on_path_snoc)
  next
    case 2
    then show ?thesis
      using assms(2,3) by (cases c; cases d) (simp_all add: remove_merge_def on_path_snoc)
  next
    case 3
    show ?thesis
    proof (cases b)
      case True
      with assms have wf: "node_wf sha (p @ [False]) d" "node_wf sha (p @ [True]) c" by simp_all
      have "admissible d c" by (rule admissible_intro [OF wf assms(1)]) (use 3 assms(4) in blast)+
      from middle_wf [OF assms(1) wf this] obtain n where "mk_middle sha d c = Inr n"
        "node_wf sha p n" "leaves n = leaves d \<union> leaves c" by blast
      then show ?thesis using True 3 by (auto simp: remove_merge_def)
    next
      case False
      with assms have wf: "node_wf sha (p @ [False]) c" "node_wf sha (p @ [True]) d" by simp_all
      have "admissible c d" by (rule admissible_intro [OF wf assms(1)]) (use 3 assms(4) in blast)+
      from middle_wf [OF assms(1) wf this] obtain n where "mk_middle sha c d = Inr n"
        "node_wf sha p n" "leaves n = leaves c \<union> leaves d" by blast
      then show ?thesis using False 3 by (auto simp: remove_merge_def)
    qed
  qed
qed

lemma child_minus_nonempty:
  assumes "node_wf sha (p @ [b]) c" and "\<not> is_empty c" and "\<not> is_terminal c"
  shows "leaves c - {x} \<noteq> {}"
proof
  assume "leaves c - {x} = {}"
  then have "leaves c = {} \<or> leaves c = {x}" by blast
  then show False
    using leaves_singleton_iff [OF assms(1)] leaves_empty_iff [OF assms(1)] assms(2,3) by blast
qed

lemma node_remove_ok:
  assumes "node_wf sha p n" and "on_path p x"
  shows "\<exists>n'. node_remove sha x (length p) n = Inr n' \<and> node_wf sha p n' \<and>
    leaves n' = leaves n - {x}"
  using assms
proof (induction n arbitrary: p)
  case (MiddleNode l r h)
  note wf = middle_cases [OF MiddleNode.prems(1)]
  note bit = get_bit_ok [OF on_path_length [OF MiddleNode.prems(2)] wf(1)]
  show ?case
  proof (cases "tbit x (length p)")
    case False
    then have path: "on_path (p @ [False]) x" using MiddleNode.prems(2) by (simp add: on_path_snoc)
    then obtain c where c: "node_remove sha x (length p + 1) l = Inr c"
      "node_wf sha (p @ [False]) c" "leaves c = leaves l - {x}"
      using MiddleNode.IH(1) [OF wf(2)] by auto
    have other: "x \<notin> leaves r"
      using leaves_on_path [OF wf(3)] path by (auto simp: on_path_snoc)
    have "\<not> (is_empty c \<and> is_empty r)"
    proof
      assume e: "is_empty c \<and> is_empty r"
      with wf(4) have "\<not> is_empty l" "\<not> is_terminal l" by (auto simp: admissible_def)
      with child_minus_nonempty [OF wf(2)] c(3) leaves_empty_iff [OF c(2)] e show False by simp
    qed
    then obtain m where "remove_merge sha True c r = Inr m" "node_wf sha p m"
      "leaves m = leaves c \<union> leaves r"
      using remove_merge_ok [OF wf(1), of False c r] c(2) wf(3) by auto
    note m = this
    have diff: "leaves (MiddleNode l r h) - {x} = leaves c \<union> leaves r" using c(3) other by auto
    show ?thesis
    proof (cases "c = l")
      case unchanged: True
      then have "node_remove sha x (length p) (MiddleNode l r h) = Inr (MiddleNode l r h)"
        using False c(1) bit by simp
      moreover have "leaves (MiddleNode l r h) = leaves (MiddleNode l r h) - {x}"
        unfolding diff using unchanged by auto
      ultimately show ?thesis using MiddleNode.prems(1) by blast
    next
      case changed: False
      then have "node_remove sha x (length p) (MiddleNode l r h) = Inr m"
        using False c(1) bit m(1) by simp
      with m(2,3) show ?thesis unfolding diff by blast
    qed
  next
    case True
    then have path: "on_path (p @ [True]) x" using MiddleNode.prems(2) by (simp add: on_path_snoc)
    then obtain c where c: "node_remove sha x (length p + 1) r = Inr c"
      "node_wf sha (p @ [True]) c" "leaves c = leaves r - {x}"
      using MiddleNode.IH(2) [OF wf(3)] by auto
    have other: "x \<notin> leaves l"
      using leaves_on_path [OF wf(2)] path by (auto simp: on_path_snoc)
    have "\<not> (is_empty c \<and> is_empty l)"
    proof
      assume e: "is_empty c \<and> is_empty l"
      with wf(4) have "\<not> is_empty r" "\<not> is_terminal r" by (auto simp: admissible_def)
      with child_minus_nonempty [OF wf(3)] c(3) leaves_empty_iff [OF c(2)] e show False by simp
    qed
    then obtain m where "remove_merge sha False c l = Inr m" "node_wf sha p m"
      "leaves m = leaves c \<union> leaves l"
      using remove_merge_ok [OF wf(1), of True c l] c(2) wf(2) by auto
    note m = this
    have diff: "leaves (MiddleNode l r h) - {x} = leaves c \<union> leaves l" using c(3) other by auto
    show ?thesis
    proof (cases "c = r")
      case unchanged: True
      then have "node_remove sha x (length p) (MiddleNode l r h) = Inr (MiddleNode l r h)"
        using True c(1) bit by simp
      moreover have "leaves (MiddleNode l r h) = leaves (MiddleNode l r h) - {x}"
        unfolding diff using unchanged by auto
      ultimately show ?thesis using MiddleNode.prems(1) by blast
    next
      case changed: False
      then have "node_remove sha x (length p) (MiddleNode l r h) = Inr m"
        using True c(1) bit m(1) by simp
      with m(2,3) show ?thesis unfolding diff by blast
    qed
  qed
qed simp_all

text \<open>The trie is determined by its leaves.\<close>

lemma side_leaves:
  assumes "node_wf sha p (MiddleNode l r h)"
  shows "leaves l = {x \<in> leaves (MiddleNode l r h). \<not> tbit x (length p)}"
    and "leaves r = {x \<in> leaves (MiddleNode l r h). tbit x (length p)}"
proof -
  note wf = middle_cases [OF assms]
  show "leaves l = {x \<in> leaves (MiddleNode l r h). \<not> tbit x (length p)}"
    "leaves r = {x \<in> leaves (MiddleNode l r h). tbit x (length p)}"
    using leaves_on_path [OF wf(2)] leaves_on_path [OF wf(3)] by (auto simp: on_path_snoc)
qed

lemma node_unique:
  assumes "node_wf sha p n" and "node_wf sha p m" and "leaves n = leaves m"
  shows "n = m"
  using assms
proof (induction n arbitrary: p m)
  case EmptyNode
  then show ?case using leaves_empty_iff [of p m] by (simp add: is_empty_iff)
next
  case (TerminalNode h)
  then have "is_terminal m" using leaves_singleton_iff [of p m] by auto
  with TerminalNode show ?case by (cases m) auto
next
  case (MiddleNode l r h)
  have "\<not> is_empty m" "\<not> is_terminal m"
    using leaves_empty_iff [OF MiddleNode.prems(1)] leaves_singleton_iff [OF MiddleNode.prems(1)]
      leaves_empty_iff [OF MiddleNode.prems(2)] leaves_singleton_iff [OF MiddleNode.prems(2)]
      MiddleNode.prems(3) by auto
  with MiddleNode.prems(2) obtain l' r' h' where m: "m = MiddleNode l' r' h'" by (cases m) auto
  note wf = middle_cases [OF MiddleNode.prems(1)]
  note wf' = middle_cases [OF MiddleNode.prems(2) [unfolded m]]
  note sides = side_leaves [OF MiddleNode.prems(1)] side_leaves [OF MiddleNode.prems(2) [unfolded m]]
  have "leaves l = leaves l'" "leaves r = leaves r'"
    using sides(1,2) by (simp_all only: MiddleNode.prems(3) m sides(3,4) [symmetric])
  with MiddleNode.IH wf wf' have "l = l'" "r = r'" by blast+
  with MiddleNode.prems m show ?case by auto
next
  case (TruncatedNode h)
  then show ?case by simp
qed

end

end
