(* ===== verification/Gold_Merkle_Proofs.thy ===== *)
theory Gold_Merkle_Proofs
  imports Gold_Merkle_Set_Correct
begin

text \<open>
  Inclusion and exclusion proofs of the Merkle set (\<^verbatim>\<open>src/chia/util/merkle_set.py\<close>). A proof of
  \<open>x\<close> is the serialisation of the trie pruned along the path of \<open>x\<close>; reading it back gives the
  pruned trie, which has the same root hash and the same answer for \<open>x\<close> (completeness). A proof
  that is accepted for the root of a set tells the truth about the set as long as the hash has
  no collision among the strings hashed in the set and in the proof (soundness).
\<close>

section \<open>Membership proofs\<close>

text \<open>
  The tree a membership proof describes: the parts of the trie that the path of \<open>x\<close> does
  not visit are truncated to their hash, except for doubles next to an empty node.
\<close>

fun pruned :: "bytes \<Rightarrow> nat \<Rightarrow> node \<Rightarrow> node"
and pruned_other :: "bytes \<Rightarrow> nat \<Rightarrow> node \<Rightarrow> bool \<Rightarrow> node" where
  "pruned x d (MiddleNode l r h) =
     (if tbit x d then MiddleNode (pruned_other x (d + 1) l (\<not> is_empty r)) (pruned x (d + 1) r) h
      else MiddleNode (pruned x (d + 1) l) (pruned_other x (d + 1) r (\<not> is_empty l)) h)"
| "pruned x d n = n"
| "pruned_other x d (MiddleNode l r h) collapse =
     (if collapse \<or> is_double (MiddleNode l r h) \<noteq> Inr True then TruncatedNode h
      else pruned x d (MiddleNode l r h))"
| "pruned_other x d n collapse = n"

fun serialized :: "node \<Rightarrow> bytes" where
  "serialized EmptyNode = EMPTY"
| "serialized (TerminalNode h) = TERMINAL @ h"
| "serialized (MiddleNode l r h) = MIDDLE @ serialized l @ serialized r"
| "serialized (TruncatedNode h) = TRUNCATED @ h"

fun proof_wf :: "(bytes \<Rightarrow> bytes) \<Rightarrow> bool list \<Rightarrow> node \<Rightarrow> bool" where
  "proof_wf sha p EmptyNode = True"
| "proof_wf sha p (TerminalNode h) = (on_path p h \<and> length p \<le> 256)"
| "proof_wf sha p (MiddleNode l r h) =
     (proof_wf sha (p @ [False]) l \<and> proof_wf sha (p @ [True]) r \<and>
      mk_middle sha l r = Inr (MiddleNode l r h))"
| "proof_wf sha p (TruncatedNode h) = (length h = 32)"

lemma pruned_hash [simp]:
  "get_hash (pruned x d n) = get_hash n" "get_hash (pruned_other x d n c) = get_hash n"
  "node_hash (pruned x d n) = node_hash n" "node_hash (pruned_other x d n c) = node_hash n"
  by (cases n; simp)+

lemma pruned_empty [simp]:
  "is_empty (pruned x d n) = is_empty n" "is_empty (pruned_other x d n c) = is_empty n"
  by (cases n; simp)+

lemma pruned_terminal [simp]:
  "is_terminal (pruned x d n) = is_terminal n" "is_terminal (pruned_other x d n c) = is_terminal n"
  by (cases n; simp)+

lemma is_terminal_pruned: "is_terminal n \<Longrightarrow> pruned x d n = n" "is_terminal n \<Longrightarrow> pruned_other x d n c = n"
  by (cases n; simp)+

text \<open>A double is never truncated when its sibling is empty.\<close>

lemma pruned_double: "is_double n = Inr True \<Longrightarrow> pruned x d n = n"
proof (induction n arbitrary: d)
  case (MiddleNode l r h)
  consider "is_empty l" "is_double r = Inr True" | "\<not> is_empty l" "is_empty r" "is_double l = Inr True"
    | "is_terminal l" "is_terminal r"
    using MiddleNode.prems by (auto split: if_splits)
  then show ?case
  proof cases
    case 1
    then show ?thesis using MiddleNode.IH(2) by (cases r) (auto simp: is_empty_iff)
  next
    case 2
    then show ?thesis using MiddleNode.IH(1) by (cases l) (auto simp: is_empty_iff)
  next
    case 3
    then show ?thesis by (simp add: is_terminal_pruned)
  qed
qed auto

lemma pruned_other_double: "is_double n = Inr True \<Longrightarrow> pruned_other x d n False = n"
  using pruned_double [of n x d] by (cases n) auto

lemma pruned_is_double:
  "is_double n = Inr b \<Longrightarrow> is_double (pruned x d n) = Inr b"
  "is_double n = Inr b \<Longrightarrow> is_double (pruned_other x d n False) = Inr b"
proof (induction n arbitrary: d)
  case (MiddleNode l r h)
  {
    case 1
    then show ?case using MiddleNode.IH by (simp split: if_splits)
  next
    case 2
    then show ?case
      using pruned_other_double [of "MiddleNode l r h" x d] by (cases b) auto
  }
qed auto

lemma mk_middle_similar:
  assumes "mk_middle sha l r = Inr (MiddleNode l r h)"
    and "is_empty l' = is_empty l" and "is_empty r' = is_empty r"
    and "is_terminal l' = is_terminal l" and "is_terminal r' = is_terminal r"
    and "node_hash l' = node_hash l" and "node_hash r' = node_hash r"
    and "get_hash l' = get_hash l" and "get_hash r' = get_hash r"
    and "\<And>b. is_empty l \<Longrightarrow> is_double r = Inr b \<Longrightarrow> is_double r' = Inr b"
    and "\<And>b. is_empty r \<Longrightarrow> is_double l = Inr b \<Longrightarrow> is_double l' = Inr b"
  shows "mk_middle sha l' r' = Inr (MiddleNode l' r' h)"
  using assms
  by (cases "is_empty l"; cases "is_empty r"; cases "is_double l"; cases "is_double r";
      simp add: mk_middle_def res_simps split: if_splits)

context digest32
begin

lemma pruned_proof_wf:
  assumes "node_wf sha p n" and "length p \<le> 256"
  shows "proof_wf sha p (pruned x (length p) n) \<and> proof_wf sha p (pruned_other x (length p) n c)"
  using assms
proof (induction n arbitrary: p c)
  case (MiddleNode l r h)
  then have wf: "length p < 256" "node_wf sha (p @ [False]) l" "node_wf sha (p @ [True]) r"
    "mk_middle sha l r = Inr (MiddleNode l r h)" by simp_all
  have "proof_wf sha p (pruned x (length p) (MiddleNode l r h))"
  proof (cases "tbit x (length p)")
    case True
    have "mk_middle sha (pruned_other x (length p + 1) l (\<not> is_empty r)) (pruned x (length p + 1) r) =
        Inr (pruned x (length p) (MiddleNode l r h))"
      using True by (simp, intro mk_middle_similar [OF wf(4)]) (simp_all add: pruned_is_double)
    with True MiddleNode.IH(1) [OF wf(2)] MiddleNode.IH(2) [OF wf(3)] wf(1) show ?thesis by simp
  next
    case False
    have "mk_middle sha (pruned x (length p + 1) l) (pruned_other x (length p + 1) r (\<not> is_empty l)) =
        Inr (pruned x (length p) (MiddleNode l r h))"
      using False by (simp, intro mk_middle_similar [OF wf(4)]) (simp_all add: pruned_is_double)
    with False MiddleNode.IH(1) [OF wf(2)] MiddleNode.IH(2) [OF wf(3)] wf(1) show ?thesis by simp
  qed
  with node_hash_length [OF MiddleNode.prems(1)] show ?case by simp
qed auto

end

lemma rfold_unit: "(\<And>x. x \<in> set xs \<Longrightarrow> f x () = Inr ()) \<Longrightarrow> rfold f xs () = Inr ()"
  by (induction xs) auto

lemma audit_bits_ok:
  assumes "on_path p h" and "length p \<le> 256"
  shows "audit_bits h (map of_bool p) = Inr ()"
  unfolding audit_bits_def
proof (rule rfold_unit)
  fix x assume "x \<in> set (enumerate 0 (map of_bool p :: nat list))"
  then obtain i where "i < length p" "x = (i, of_bool (p ! i))"
    by (auto simp: in_set_enumerate_eq)
  with assms show "(case x of (pos, v) \<Rightarrow> \<lambda>_. rbind (get_bit h pos) (\<lambda>b. py_assert (b = v))) () = Inr ()"
    by (simp add: get_bit_ok on_path_def)
qed

lemma deserialize_serialized:
  assumes "proof_wf sha p t"
  shows "node_deserialize sha (pre @ serialized t @ post) (length pre) (map of_bool p) =
    Inr (t, length pre + length (serialized t))"
  using assms
proof (induction t arbitrary: p pre post)
  case EmptyNode
  then show ?case by (simp add: node_deserialize.simps tag_defs)
next
  case (TerminalNode h)
  then have "length h = 32" by auto
  with TerminalNode show ?case
    by (simp add: node_deserialize.simps tag_defs mk_terminal_at_def mk_terminal_def audit_bits_ok)
next
  case (MiddleNode l r h)
  from MiddleNode.prems MiddleNode.IH(1) [of "p @ [False]" "pre @ MIDDLE" "serialized r @ post"]
    MiddleNode.IH(2) [of "p @ [True]" "pre @ MIDDLE @ serialized l" post]
  show ?case
    by (subst node_deserialize.simps) (simp add: tag_defs add_ac)
next
  case (TruncatedNode h)
  then show ?case by (simp add: node_deserialize.simps tag_defs)
qed

context digest32
begin

lemma included_proof:
  assumes "node_wf sha p n" and "length x = 32"
  shows "(\<exists>b ps. node_included x (length p) n acc = Inr (b, acc @ ps) \<and>
        concat ps = serialized (pruned x (length p) n) \<and> (on_path p x \<longrightarrow> b = (x \<in> leaves n))) \<and>
    (\<exists>ps. other_included x (length p) n acc c = Inr (acc @ ps) \<and>
        concat ps = serialized (pruned_other x (length p) n c))"
  using assms(1)
proof (induction n arbitrary: p acc c)
  case (MiddleNode l r h)
  note wf = middle_cases [OF MiddleNode.prems]
  note bit = get_bit_ok [OF assms(2) wf(1)]
  have incl: "\<exists>b ps. node_included x (length p) (MiddleNode l r h) acc = Inr (b, acc @ ps) \<and>
        concat ps = serialized (pruned x (length p) (MiddleNode l r h)) \<and>
        (on_path p x \<longrightarrow> b = (x \<in> leaves (MiddleNode l r h)))"
  proof (cases "tbit x (length p)")
    case True
    obtain ps where ps: "other_included x (length p + 1) l (acc @ [MIDDLE]) (\<not> is_empty r) =
        Inr ((acc @ [MIDDLE]) @ ps)" "concat ps = serialized (pruned_other x (length p + 1) l (\<not> is_empty r))"
      using MiddleNode.IH(1) [OF wf(2)] by (metis length_append_singleton Suc_eq_plus1)
    obtain b qs where qs: "node_included x (length p + 1) r ((acc @ [MIDDLE]) @ ps) =
        Inr (b, ((acc @ [MIDDLE]) @ ps) @ qs)" "concat qs = serialized (pruned x (length p + 1) r)"
        "on_path (p @ [True]) x \<longrightarrow> b = (x \<in> leaves r)"
      using MiddleNode.IH(2) [OF wf(3)] by (metis length_append_singleton Suc_eq_plus1)
    have "on_path p x \<longrightarrow> x \<notin> leaves l"
      using leaves_on_path [OF wf(2)] True by (auto simp: on_path_snoc)
    with True bit ps qs show ?thesis
      by (intro exI [of _ b] exI [of _ "[MIDDLE] @ ps @ qs"]) (auto simp: on_path_snoc)
  next
    case False
    obtain b qs where qs: "node_included x (length p + 1) l (acc @ [MIDDLE]) =
        Inr (b, (acc @ [MIDDLE]) @ qs)" "concat qs = serialized (pruned x (length p + 1) l)"
        "on_path (p @ [False]) x \<longrightarrow> b = (x \<in> leaves l)"
      using MiddleNode.IH(1) [OF wf(2)] by (metis length_append_singleton Suc_eq_plus1)
    obtain ps where ps: "other_included x (length p + 1) r ((acc @ [MIDDLE]) @ qs) (\<not> is_empty l) =
        Inr (((acc @ [MIDDLE]) @ qs) @ ps)"
        "concat ps = serialized (pruned_other x (length p + 1) r (\<not> is_empty l))"
      using MiddleNode.IH(2) [OF wf(3)] by (metis length_append_singleton Suc_eq_plus1)
    have "on_path p x \<longrightarrow> x \<notin> leaves r"
      using leaves_on_path [OF wf(3)] False by (auto simp: on_path_snoc)
    with False bit ps qs show ?thesis
      by (intro exI [of _ b] exI [of _ "[MIDDLE] @ qs @ ps"]) (auto simp: on_path_snoc)
  qed
  obtain d where d: "is_double (MiddleNode l r h) = Inr d"
    using is_double_ok [OF MiddleNode.prems] by auto
  have "\<exists>ps. other_included x (length p) (MiddleNode l r h) acc c = Inr (acc @ ps) \<and>
        concat ps = serialized (pruned_other x (length p) (MiddleNode l r h) c)"
  proof (cases "c \<or> \<not> d")
    case True
    with d show ?thesis by (auto simp del: is_double.simps)
  next
    case False
    with d incl show ?thesis
      by (auto simp del: is_double.simps node_included.simps pruned.simps)
  qed
  with incl show ?case by blast
qed auto

lemma included_pruned:
  assumes "node_wf sha p n" and "length x = 32"
  shows "node_included x (length p) (pruned x (length p) n) acc = node_included x (length p) n acc \<and>
    other_included x (length p) (pruned_other x (length p) n c) acc c = other_included x (length p) n acc c"
  using assms(1)
proof (induction n arbitrary: p acc c)
  case (MiddleNode l r h)
  note wf = middle_cases [OF MiddleNode.prems]
  note bit = get_bit_ok [OF assms(2) wf(1)]
  note IH = MiddleNode.IH(1) [OF wf(2), simplified] MiddleNode.IH(2) [OF wf(3), simplified]
  have right: "node_included x (Suc (length p)) (pruned x (Suc (length p)) r) =
      node_included x (Suc (length p)) r"
    using IH(2) by (intro ext) simp
  obtain d where d: "is_double (MiddleNode l r h) = Inr d"
    using is_double_ok [OF MiddleNode.prems] by auto
  have "other_included x (length p) (pruned_other x (length p) (MiddleNode l r h) c) acc c =
      other_included x (length p) (MiddleNode l r h) acc c"
    using d pruned_other_double [of "MiddleNode l r h" x "length p"]
    by (cases "c \<or> \<not> d") (auto simp del: is_double.simps node_included.simps pruned.simps)
  moreover have "node_included x (length p) (pruned x (length p) (MiddleNode l r h)) acc =
      node_included x (length p) (MiddleNode l r h) acc"
    using IH bit right by (cases "tbit x (length p)") simp_all
  ultimately show ?case by blast
qed auto

text \<open>The root hash is defined for every well formed trie.\<close>

lemma get_root_ok: "node_wf sha [] n \<Longrightarrow> \<exists>h. get_root sha \<lparr>root = n\<rparr> = Inr h \<and> length h = 32"
  using node_hash_length [of "[]" n]
  by (cases n) (auto simp: get_root_def compress_root_def sha_length tag_defs)

lemma is_included_value:
  assumes "node_wf sha [] (root s)" and "length x = 32"
  shows "is_included_already_hashed x s =
    Inr (x \<in> leaves (root s), serialized (pruned x 0 (root s)))"
proof -
  obtain b ps where "node_included x 0 (root s) [] = Inr (b, ps)"
    "concat ps = serialized (pruned x 0 (root s))" "b = (x \<in> leaves (root s))"
    using included_proof [OF assms, of "[]" False] assms(2) by auto
  then show ?thesis by (simp add: is_included_already_hashed_def)
qed

lemma deserialize_honest:
  assumes "node_wf sha [] n"
  shows "deserialize_proof sha (serialized (pruned x 0 n)) = Inr \<lparr>root = pruned x 0 n\<rparr>"
proof -
  have "proof_wf sha [] (pruned x 0 n)" using pruned_proof_wf [OF assms, of x] by simp
  from deserialize_serialized [OF this, of "[]" "[]"] show ?thesis
    by (simp add: deserialize_proof_def MerkleSet_def)
qed

lemma included_pruned_value:
  assumes "node_wf sha [] n" and "length x = 32"
  shows "is_included_already_hashed x \<lparr>root = pruned x 0 n\<rparr> = is_included_already_hashed x \<lparr>root = n\<rparr>"
  using included_pruned [OF assms, of "[]"] by (simp add: is_included_already_hashed_def)

lemma confirm_honest:
  assumes "node_wf sha [] (root s)" and "length x = 32" and "get_root sha s = Inr rt"
  shows "confirm sha rt x (serialized (pruned x 0 (root s))) expected =
    Inr ((x \<in> leaves (root s)) = expected)"
proof -
  have "get_root sha \<lparr>root = pruned x 0 (root s)\<rparr> = Inr rt"
    using assms(3) by (simp add: get_root_def)
  then show ?thesis
    using deserialize_honest [OF assms(1), of x] included_pruned_value [OF assms(1,2)]
      is_included_value [OF assms(1,2)]
    by (simp add: confirm_def is_included_already_hashed_def)
qed

end

section \<open>Soundness\<close>

text \<open>
  The string whose hash a middle node carries. A chain of middle nodes with one empty child
  over a pair of leaves (a double) carries the hash of the pair.
\<close>

definition node_tag :: "node \<Rightarrow> bytes" where
  "node_tag n = (if is_empty n then EMPTY else if is_terminal n then TERMINAL else MIDDLE)"

fun preimage :: "node \<Rightarrow> bytes" where
  "preimage (MiddleNode l r h) =
     (if is_empty l \<and> is_double r = Inr True then preimage r
      else if is_empty r \<and> is_double l = Inr True then preimage l
      else replicate 30 0 @ node_tag l @ node_tag r @ node_hash l @ node_hash r)"
| "preimage n = []"

fun preimages :: "node \<Rightarrow> bytes set" where
  "preimages (MiddleNode l r h) = insert (preimage (MiddleNode l r h)) (preimages l \<union> preimages r)"
| "preimages n = {}"

fun truncates :: "node \<Rightarrow> node \<Rightarrow> bool" where
  "truncates (TruncatedNode h) n = (get_hash n = MIDDLE @ h)"
| "truncates (MiddleNode l r h) (MiddleNode l' r' h') = (truncates l l' \<and> truncates r r')"
| "truncates t n = (t = n)"

lemma node_wf_proof_wf: "node_wf sha p n \<Longrightarrow> length p \<le> 256 \<Longrightarrow> proof_wf sha p n"
  by (induction n arbitrary: p) auto

lemma proof_wf_double:
  assumes "proof_wf sha p (MiddleNode l r h)"
  shows "\<exists>d. is_double (MiddleNode l r h) = Inr d"
  using assms by (auto simp: mk_middle_def res_simps split: if_splits)

lemma double_children:
  assumes "is_double (MiddleNode l r h) = Inr True"
  shows "is_empty l \<and> is_double r = Inr True \<or> is_empty r \<and> is_double l = Inr True \<or>
    is_terminal l \<and> is_terminal r"
  using assms by (auto split: if_splits)

lemma double_node_wf:
  assumes "proof_wf sha p t" and "is_double t = Inr True"
  shows "node_wf sha p t"
  using assms
proof (induction t arbitrary: p)
  case (MiddleNode l r h)
  from double_children [OF MiddleNode.prems(2)] MiddleNode.prems(1)
  show ?case
  proof (elim disjE conjE)
    assume "is_empty l" "is_double r = Inr True"
    moreover from this MiddleNode have "node_wf sha (p @ [True]) r" by simp
    ultimately show ?thesis using MiddleNode.prems(1) by (cases r) (auto simp: is_empty_iff)
  next
    assume "is_empty r" "is_double l = Inr True"
    moreover from this MiddleNode have "node_wf sha (p @ [False]) l" by simp
    ultimately show ?thesis using MiddleNode.prems(1) by (cases l) (auto simp: is_empty_iff)
  next
    assume "is_terminal l" "is_terminal r"
    then show ?thesis using MiddleNode.prems(1) by (cases l; cases r) auto
  qed
qed auto

lemma double_preimage:
  assumes "node_wf sha p t" and "is_double t = Inr True"
  shows "\<exists>a b. leaves t = {a, b} \<and> preimage t = replicate 30 0 @ TERMINAL @ TERMINAL @ a @ b \<and>
    length a = 32 \<and> length b = 32"
  using assms
proof (induction t arbitrary: p)
  case (MiddleNode l r h)
  from double_children [OF MiddleNode.prems(2)] show ?case
  proof (elim disjE conjE)
    assume "is_empty l" "is_double r = Inr True"
    with MiddleNode.IH(2) [of "p @ [True]"] MiddleNode.prems show ?thesis
      by (simp add: is_empty_iff)
  next
    assume r: "is_empty r" "is_double l = Inr True"
    then have "\<not> is_empty l" by (cases l) auto
    with r MiddleNode.IH(1) [of "p @ [False]"] MiddleNode.prems show ?thesis
      by (simp add: is_empty_iff)
  next
    assume "is_terminal l" "is_terminal r"
    then obtain a b where "l = TerminalNode a" "r = TerminalNode b" by (cases l; cases r) auto
    with MiddleNode.prems show ?thesis
      by (intro exI [of _ a] exI [of _ b]) (auto simp: node_tag_def tag_defs)
  qed
qed auto

lemma not_double_preimage:
  assumes "is_double (MiddleNode l r h) = Inr False"
  shows "preimage (MiddleNode l r h) =
      replicate 30 0 @ node_tag l @ node_tag r @ node_hash l @ node_hash r"
    and "\<not> (is_terminal l \<and> is_terminal r)"
  using assms by (auto split: if_splits simp: is_empty_iff)

lemma get_hash_tag: "get_hash n = node_tag n @ node_hash n"
  by (cases n) (auto simp: node_tag_def)

lemma node_tag_in: "node_tag n \<in> {EMPTY, TERMINAL, MIDDLE}"
  by (simp add: node_tag_def)

lemma length_node_tag [simp]: "length (node_tag n) = 1"
  by (simp add: node_tag_def tag_defs)

lemma get_hash_eqD:
  assumes "get_hash t = get_hash n"
  shows "is_empty t = is_empty n" and "is_terminal t = is_terminal n" and "node_hash t = node_hash n"
  using assms by (cases t; cases n; auto simp: tag_defs)+

context digest32
begin

lemma proof_hash_length: "proof_wf sha p n \<Longrightarrow> length (node_hash n) = 32"
proof (induction n arbitrary: p)
  case (MiddleNode l r h)
  then have "length (node_hash l) = 32" "length (node_hash r) = 32" by auto
  with MiddleNode.prems show ?case
    by (auto simp: mk_middle_def res_simps hashdown_def sha_length split: if_splits)
qed (auto simp: BLANK_def)

lemma proof_node_hash:
  assumes "proof_wf sha p (MiddleNode l r h)"
  shows "h = take 32 (sha (preimage (MiddleNode l r h)))"
proof -
  have "proof_wf sha p n \<Longrightarrow> n = MiddleNode l r h \<Longrightarrow> h = take 32 (sha (preimage n))" for n
  proof (induction n arbitrary: p l r h)
    case (MiddleNode l' r' h')
    then have mk: "mk_middle sha l r = Inr (MiddleNode l r h)" and eq: "l' = l" "r' = r" "h' = h"
      and wf: "proof_wf sha (p @ [False]) l" "proof_wf sha (p @ [True]) r" by auto
    consider (right) "is_empty l" "is_double r = Inr True" "h = node_hash r"
      | (left) "is_empty r" "is_double l = Inr True" "h = node_hash l" "\<not> (is_empty l \<and> is_double r = Inr True)"
      | (both) "hashdown sha (get_hash l @ get_hash r) = Inr h"
          "\<not> (is_empty l \<and> is_double r = Inr True)" "\<not> (is_empty r \<and> is_double l = Inr True)"
      using mk by (auto simp: mk_middle_def res_simps split: if_splits)
    then show ?case
    proof cases
      case right
      then obtain a b k where "r = MiddleNode a b k" by (cases r) auto
      with right MiddleNode.IH(2) [of "p @ [True]"] wf eq show ?thesis by simp
    next
      case left
      then obtain a b k where "l = MiddleNode a b k" by (cases l) auto
      with left MiddleNode.IH(1) [of "p @ [False]"] wf eq show ?thesis by simp
    next
      case both
      have "hashdown sha (get_hash l @ get_hash r) = Inr (take 32 (sha (replicate 30 0 @
          node_tag l @ node_tag r @ node_hash l @ node_hash r)))"
        using hashdown_value [OF proof_hash_length [OF wf(1)] proof_hash_length [OF wf(2)]
            node_tag_in node_tag_in, of sha l r]
        by (simp only: get_hash_tag [symmetric])
      with both eq show ?thesis by auto
    qed
  qed simp_all
  with assms show ?thesis by blast
qed

lemma truncates_refl: "truncates n n"
  by (induction n) (auto simp: tag_defs)

text \<open>Trees with the same hash agree up to truncation, unless two hashed strings collide.\<close>

lemma same_preimage:
  assumes "proof_wf sha p (MiddleNode l r h)" and "node_wf sha p (MiddleNode l' r' h)"
    and "preimage (MiddleNode l r h) = preimage (MiddleNode l' r' h)"
    and "length p < 256"
  shows "MiddleNode l r h = MiddleNode l' r' h \<or>
    get_hash l = get_hash l' \<and> get_hash r = get_hash r'"
proof -
  let ?t = "MiddleNode l r h" and ?n = "MiddleNode l' r' h"
  have wf': "proof_wf sha p ?n" using node_wf_proof_wf [OF assms(2)] assms(4) by simp
  obtain d where d: "is_double ?t = Inr d" using proof_wf_double [OF assms(1)] by blast
  obtain d' where d': "is_double ?n = Inr d'" using proof_wf_double [OF wf'] by blast
  have len: "length (node_hash l) = 32" "length (node_hash r) = 32"
      "length (node_hash l') = 32" "length (node_hash r') = 32"
    using proof_hash_length assms(1) wf' by auto
  consider "d" "d'" | "d" "\<not> d'" | "\<not> d" "d'" | "\<not> d" "\<not> d'" by blast
  then show ?thesis
  proof cases
    case 1
    have wf: "node_wf sha p ?t" using double_node_wf [OF assms(1)] d 1 by simp
    obtain a b where "leaves ?t = {a, b}" "preimage ?t = replicate 30 0 @ TERMINAL @ TERMINAL @ a @ b"
        "length a = 32" "length b = 32" using double_preimage [OF wf] d 1 by auto
    moreover obtain a' b' where "leaves ?n = {a', b'}"
        "preimage ?n = replicate 30 0 @ TERMINAL @ TERMINAL @ a' @ b'"
        "length a' = 32" "length b' = 32" using double_preimage [OF assms(2)] d' 1 by auto
    ultimately have "leaves ?t = leaves ?n" using assms(3) by simp
    with node_unique [OF wf assms(2)] show ?thesis by blast
  next
    case 2
    have wf: "node_wf sha p ?t" using double_node_wf [OF assms(1)] d 2 by simp
    obtain a b where "preimage ?t = replicate 30 0 @ TERMINAL @ TERMINAL @ a @ b"
      using double_preimage [OF wf] d 2 by auto
    with assms(3) not_double_preimage [of l' r' h] d' 2 show ?thesis
      by (auto simp: node_tag_def tag_defs split: if_splits)
  next
    case 3
    obtain a b where "preimage ?n = replicate 30 0 @ TERMINAL @ TERMINAL @ a @ b"
      using double_preimage [OF assms(2)] d' 3 by auto
    with assms(3) not_double_preimage [of l r h] d 3 show ?thesis
      by (auto simp: node_tag_def tag_defs split: if_splits)
  next
    case 4
    with assms(3) not_double_preimage(1) [of l r h] not_double_preimage(1) [of l' r' h] d d'
    have "node_tag l @ node_tag r @ node_hash l @ node_hash r =
      node_tag l' @ node_tag r' @ node_hash l' @ node_hash r'"
      by (simp del: preimage.simps)
    then have "node_tag l = node_tag l'" "node_tag r = node_tag r'"
      "node_hash l = node_hash l'" "node_hash r = node_hash r'"
      using len by simp_all
    then show ?thesis by (simp add: get_hash_tag)
  qed
qed

lemma same_hash_truncates:
  assumes "proof_wf sha p t" and "node_wf sha p n" and "get_hash t = get_hash n"
    and "inj_on (\<lambda>m. take 32 (sha m)) (preimages t \<union> preimages n)"
  shows "truncates t n"
  using assms
proof (induction t arbitrary: p n)
  case (MiddleNode l r h)
  then obtain l' r' where n: "n = MiddleNode l' r' h" by (cases n) (auto simp: tag_defs)
  then have wf: "length p < 256" "node_wf sha (p @ [False]) l'" "node_wf sha (p @ [True]) r'"
    and pwf: "proof_wf sha (p @ [False]) l" "proof_wf sha (p @ [True]) r"
    using MiddleNode.prems by auto
  have "proof_wf sha p n" using node_wf_proof_wf [OF MiddleNode.prems(2)] wf(1) by simp
  then have "take 32 (sha (preimage (MiddleNode l r h))) = take 32 (sha (preimage (MiddleNode l' r' h)))"
    using proof_node_hash [OF MiddleNode.prems(1)] proof_node_hash [of p l' r' h] n by simp
  then have "preimage (MiddleNode l r h) = preimage (MiddleNode l' r' h)"
    using MiddleNode.prems(4) unfolding n by (elim inj_onD) simp_all
  from same_preimage [OF MiddleNode.prems(1) MiddleNode.prems(2) [unfolded n] this wf(1)]
  consider "MiddleNode l r h = n" | "get_hash l = get_hash l'" "get_hash r = get_hash r'"
    unfolding n by blast
  then show ?case
  proof cases
    case 1
    then show ?thesis using truncates_refl by metis
  next
    case 2
    have "inj_on (\<lambda>m. take 32 (sha m)) (preimages l \<union> preimages l')"
      "inj_on (\<lambda>m. take 32 (sha m)) (preimages r \<union> preimages r')"
      using MiddleNode.prems(4) unfolding n by (auto elim!: inj_on_subset)
    with 2 MiddleNode.IH(1) [OF pwf(1) wf(2)] MiddleNode.IH(2) [OF pwf(2) wf(3)] n
    show ?thesis by simp
  qed
next
  case EmptyNode
  then show ?case by (cases n) (auto simp: tag_defs)
next
  case (TerminalNode h)
  then show ?case by (cases n) (auto simp: tag_defs)
qed simp

lemma truncated_member:
  assumes "truncates t n" and "node_wf sha p n" and "on_path p x"
    and "node_included x (length p) t acc = Inr (b, ps)"
  shows "b = (x \<in> leaves n)"
  using assms
proof (induction t arbitrary: p n acc ps)
  case (MiddleNode l r h)
  then obtain l' r' h' where n: "n = MiddleNode l' r' h'" by (cases n) auto
  note wf = middle_cases [OF MiddleNode.prems(2) [unfolded n]]
  note bit = get_bit_ok [OF on_path_length [OF MiddleNode.prems(3)] wf(1)]
  have tr: "truncates l l'" "truncates r r'" using MiddleNode.prems(1) n by simp_all
  show ?case
  proof (cases "tbit x (length p)")
    case True
    then have path: "on_path (p @ [True]) x" using MiddleNode.prems(3) by (simp add: on_path_snoc)
    have "x \<notin> leaves l'" using leaves_on_path [OF wf(2)] path by (auto simp: on_path_snoc)
    moreover obtain acc' where "node_included x (length (p @ [True])) r acc' = Inr (b, ps)"
      using MiddleNode.prems(4) bit True by (auto simp: res_simps)
    ultimately show ?thesis using MiddleNode.IH(2) [OF tr(2) wf(3) path] n by simp
  next
    case False
    then have path: "on_path (p @ [False]) x" using MiddleNode.prems(3) by (simp add: on_path_snoc)
    have "x \<notin> leaves r'" using leaves_on_path [OF wf(3)] path by (auto simp: on_path_snoc)
    moreover obtain acc' ps' where "node_included x (length (p @ [False])) l acc' = Inr (b, ps')"
      using MiddleNode.prems(4) bit False by (auto simp: res_simps split: prod.splits)
    ultimately show ?thesis using MiddleNode.IH(1) [OF tr(1) wf(2) path] n by simp
  qed
qed auto

end

lemma rfold_unit_conv: "rfold f xs () = Inr () \<longleftrightarrow> (\<forall>x \<in> set xs. f x () = Inr ())"
proof (induction xs)
  case (Cons x xs)
  then show ?case by (cases "f x ()") auto
qed simp

lemma audit_bits_sound:
  assumes "audit_bits h (map of_bool p) = Inr ()" and "length h = 32"
  shows "on_path p h \<and> length p \<le> 256"
proof -
  have bit: "i < 256 \<and> tbit h i = p ! i" if "i < length p" for i
  proof -
    have "(i, of_bool (p ! i)) \<in> set (enumerate 0 (map of_bool p :: nat list))"
      using that by (auto simp: in_set_enumerate_eq)
    then have "rbind (get_bit h i) (\<lambda>b. py_assert (b = of_bool (p ! i))) = Inr ()"
      using assms(1) unfolding audit_bits_def rfold_unit_conv by fastforce
    then show ?thesis
      by (cases "p ! i"; cases "tbit h i") (auto simp: res_simps get_bit_Inr py_assert_def split: if_splits)
  qed
  have "length p \<le> 256"
    using bit [of 256] by (cases "256 < length p") auto
  with bit assms(2) show ?thesis by (simp add: on_path_def)
qed

lemma node_deserialize_cases:
  assumes "node_deserialize sha pf pos bits = Inr (t, pos')"
  shows "t = EmptyNode \<and> pos' = pos + 1 \<or>
    (\<exists>h. t = TerminalNode h \<and> length h = 32 \<and> audit_bits h bits = Inr () \<and> pos' = pos + 33) \<or>
    t = TruncatedNode (take 32 (drop (pos + 1) pf)) \<and> pos' = pos + 33 \<or>
    (\<exists>l r h pos1. t = MiddleNode l r h \<and> mk_middle sha l r = Inr (MiddleNode l r h) \<and>
       node_deserialize sha pf (pos + 1) (bits @ [0]) = Inr (l, pos1) \<and>
       node_deserialize sha pf pos1 (bits @ [1]) = Inr (r, pos'))"
proof -
  note eq = assms [unfolded node_deserialize.simps [of sha pf pos bits] Let_def]
  show ?thesis
  proof (cases "take 1 (drop pos pf) = MIDDLE")
    case True
    then have "take 1 (drop pos pf) \<noteq> EMPTY" "take 1 (drop pos pf) \<noteq> TERMINAL"
      "take 1 (drop pos pf) \<noteq> TRUNCATED" by (simp_all add: tag_defs)
    with eq True obtain l r pos1 where "mk_middle sha l r = Inr t"
       "node_deserialize sha pf (pos + 1) (bits @ [0]) = Inr (l, pos1)"
       "node_deserialize sha pf pos1 (bits @ [1]) = Inr (r, pos')"
      by (auto simp: res_simps)
    with mk_middle_shape show ?thesis by metis
  next
    case False
    with eq show ?thesis
      by (auto simp: res_simps mk_terminal_at_def mk_terminal_def py_assert_def split: if_splits)
  qed
qed

lemma node_deserialize_pos:
  "node_deserialize sha pf pos bits = Inr (t, pos') \<Longrightarrow> pos < pos'"
proof (induction t arbitrary: pos bits pos')
  case (MiddleNode l r h)
  then obtain pos1 where "node_deserialize sha pf (pos + 1) (bits @ [0]) = Inr (l, pos1)"
     "node_deserialize sha pf pos1 (bits @ [1]) = Inr (r, pos')"
    using node_deserialize_cases [OF MiddleNode.prems] by auto
  then have "pos + 1 < pos1" "pos1 < pos'" using MiddleNode.IH by blast+
  then show ?case by simp
qed (auto dest: node_deserialize_cases)

lemma deserialized_wf:
  assumes "node_deserialize sha pf pos (map of_bool p) = Inr (t, pos')" and "pos' \<le> length pf"
  shows "proof_wf sha p t"
  using assms
proof (induction t arbitrary: p pos pos')
  case (TerminalNode h)
  then show ?case using node_deserialize_cases [OF TerminalNode.prems(1)] audit_bits_sound by auto
next
  case (MiddleNode l r h)
  obtain pos1 where sides: "node_deserialize sha pf (pos + 1) (map of_bool (p @ [False])) = Inr (l, pos1)"
     "node_deserialize sha pf pos1 (map of_bool (p @ [True])) = Inr (r, pos')"
     "mk_middle sha l r = Inr (MiddleNode l r h)"
    using node_deserialize_cases [OF MiddleNode.prems(1)] by auto
  have "pos1 \<le> length pf" using node_deserialize_pos [OF sides(2)] MiddleNode.prems(2) by simp
  with MiddleNode.IH(1) [OF sides(1)] MiddleNode.IH(2) [OF sides(2)] sides(3) MiddleNode.prems(2)
  show ?case by simp
next
  case (TruncatedNode h)
  then show ?case using node_deserialize_cases [OF TruncatedNode.prems(1)] by auto
qed simp

text \<open>The strings hashed for a set: those of its middle nodes, and of a root that is a leaf.\<close>

fun root_preimages :: "node \<Rightarrow> bytes set" where
  "root_preimages (TerminalNode h) = {TERMINAL @ h}"
| "root_preimages n = preimages n"

text \<open>What the root hash is the hash of.\<close>

fun root_preimage :: "node \<Rightarrow> bytes option" where
  "root_preimage (TerminalNode h) = Some (TERMINAL @ h)"
| "root_preimage (MiddleNode l r h) = Some (preimage (MiddleNode l r h))"
| "root_preimage n = None"

context digest32
begin

lemma length_preimage:
  assumes "proof_wf sha p (MiddleNode l r h)"
  shows "length (preimage (MiddleNode l r h)) = 96"
proof -
  let ?t = "MiddleNode l r h"
  obtain d where d: "is_double ?t = Inr d" using proof_wf_double [OF assms] by blast
  show ?thesis
  proof (cases d)
    case True
    with double_preimage [OF double_node_wf [OF assms]] d show ?thesis
      by (auto simp: tag_defs simp del: preimage.simps)
  next
    case False
    have "length (node_hash l) = 32" "length (node_hash r) = 32"
      using proof_hash_length assms by auto
    with not_double_preimage(1) [of l r h] d False show ?thesis by (simp del: preimage.simps)
  qed
qed

lemma root_preimage_shape:
  assumes "proof_wf sha [] t" and "root_preimage t = Some m"
  shows "length m = 33 \<and> get_hash t = m \<or> length m = 96 \<and> get_hash t = MIDDLE @ take 32 (sha m)"
proof (cases t)
  case (MiddleNode l r h)
  with assms(2) have "m = preimage (MiddleNode l r h)" by (simp del: preimage.simps)
  with MiddleNode assms(1) proof_node_hash [of "[]" l r h] length_preimage [of "[]" l r h]
  show ?thesis by (simp del: preimage.simps)
qed (use assms in \<open>auto simp: tag_defs\<close>)

lemma root_preimage_hash:
  assumes "proof_wf sha [] t" and "proof_wf sha [] n"
    and "root_preimage t = Some m" and "root_preimage n = Some m"
  shows "get_hash t = get_hash n"
  using root_preimage_shape [OF assms(1,3)] root_preimage_shape [OF assms(2,4)]
  by (elim disjE conjE) simp_all

lemma root_value:
  assumes "proof_wf sha [] t" and "get_root sha \<lparr>root = t\<rparr> = Inr rt" and "root_preimage t = Some m"
  shows "rt = take 32 (sha m)" and "m \<in> root_preimages t"
proof -
  show "m \<in> root_preimages t" using assms(3) by (cases t) (simp_all del: preimage.simps)
  show "rt = take 32 (sha m)"
  proof (cases t)
    case (TerminalNode h)
    with assms show ?thesis by (auto simp: get_root_def compress_root_def tag_defs)
  next
    case (MiddleNode l r h)
    then have "m = preimage (MiddleNode l r h)" using assms(3) by (simp del: preimage.simps)
    moreover have "length h = 32" using proof_hash_length [OF assms(1)] MiddleNode by simp
    then have "rt = h" using assms(2) MiddleNode by (simp add: get_root_def compress_root_def tag_defs)
    ultimately show ?thesis using proof_node_hash [of "[]" l r h] assms(1) MiddleNode by simp
  qed (use assms(3) in simp_all)
qed

lemma same_root_truncates:
  assumes "proof_wf sha [] t" and "node_wf sha [] n"
    and "get_root sha \<lparr>root = t\<rparr> = Inr rt" and "get_root sha \<lparr>root = n\<rparr> = Inr rt"
    and "inj_on (\<lambda>m. take 32 (sha m)) (root_preimages t \<union> root_preimages n)"
    and "\<forall>m \<in> root_preimages t \<union> root_preimages n. take 32 (sha m) \<noteq> BLANK"
    and "\<And>h. t \<noteq> TruncatedNode h"
  shows "truncates t n"
proof -
  have wf: "proof_wf sha [] n" using node_wf_proof_wf [OF assms(2)] by simp
  have blank: "rt = BLANK" if "k = EmptyNode" "get_root sha \<lparr>root = k\<rparr> = Inr rt" for k
    using that by (simp add: get_root_def compress_root_def tag_defs BLANK_def)
  have sub: "preimages k \<subseteq> root_preimages k" for k by (cases k) auto
  show ?thesis
  proof (cases "root_preimage t")
    case None
    with assms(7) have t: "t = EmptyNode" by (cases t) auto
    then have "root_preimage n = None"
      using blank [OF t assms(3)] root_value [OF wf assms(4)] assms(6)
      by (cases "root_preimage n") auto
    with assms(2) t show ?thesis by (cases n) auto
  next
    case (Some m)
    note m = root_value [OF assms(1,3) Some]
    have "n \<noteq> EmptyNode"
      using blank [OF _ assms(4)] m assms(6) by auto
    with assms(2) obtain m' where m': "root_preimage n = Some m'" by (cases n) auto
    note m2 = root_value [OF wf assms(4) m']
    have "m = m'" using inj_onD [OF assms(5), of m m'] m m2 by simp
    then have "get_hash t = get_hash n"
      using root_preimage_hash [OF assms(1) wf Some] m' by simp
    moreover have "preimages t \<union> preimages n \<subseteq> root_preimages t \<union> root_preimages n"
      using sub by (meson Un_mono)
    ultimately show ?thesis
      by (intro same_hash_truncates [OF assms(1,2)] inj_on_subset [OF assms(5)])
  qed
qed

lemma confirm_sound_tree:
  assumes "node_wf sha [] (root s)" and "length x = 32" and "get_root sha s = Inr rt"
    and "deserialize_proof sha pf = Inr t"
    and "inj_on (\<lambda>m. take 32 (sha m)) (root_preimages (root t) \<union> root_preimages (root s))"
    and "\<forall>m \<in> root_preimages (root t) \<union> root_preimages (root s). take 32 (sha m) \<noteq> BLANK"
    and "confirm sha rt x pf expected = Inr True"
  shows "(x \<in> leaves (root s)) = expected"
proof -
  obtain pos where des: "node_deserialize sha pf 0 (map of_bool []) = Inr (root t, pos)" "pos = length pf"
    using assms(4) by (auto simp: deserialize_proof_def MerkleSet_def res_simps
        split: sum.splits exn.splits if_splits)
  then have wf: "proof_wf sha [] (root t)" using deserialized_wf [of sha pf 0 "[]"] by simp
  obtain ps where root: "get_root sha t = Inr rt" and incl: "node_included x 0 (root t) [] = Inr (expected, ps)"
    using assms(4,7) by (auto simp: confirm_def is_included_already_hashed_def res_simps
        split: sum.splits exn.splits if_splits)
  have "root t \<noteq> TruncatedNode h" for h using incl by auto
  moreover have "\<lparr>root = root k\<rparr> = k" for k :: merkle_set by (cases k) simp
  ultimately have "truncates (root t) (root s)"
    using same_root_truncates [OF wf assms(1), of rt] root assms(3,5,6) by metis
  from truncated_member [OF this assms(1)] incl assms(2) show ?thesis by auto
qed

end

end
