(* ===== verification/Gold_Sha256.thy ===== *)
theory Gold_Sha256
  imports Gold_Prelude
begin

text \<open>
  SHA-256 (FIPS 180-4) as \<^verbatim>\<open>hashlib.sha256\<close> computes it: padding, message schedule, 64
  rounds over eight 32-bit words, big-endian digest. The components take the hash function as an
  argument; this is the function the program passes.
\<close>

unbundle bit_operations_syntax

type_synonym word32 = "32 word"

text \<open>
  The constants are the standard's own definition: the first 32 bits of the fractional parts of
  the cube roots of the first 64 primes, and of the square roots of the first eight. The integer
  roots of \<open>p * 2 ^ 96\<close> and \<open>p * 2 ^ 64\<close> are found bit by bit; both are below \<open>2 ^ 37\<close>.
\<close>

definition primes64 :: "int list" where
  "primes64 =
     [2, 3, 5, 7, 11, 13, 17, 19, 23, 29, 31, 37, 41, 43, 47, 53, 59, 61, 67, 71, 73, 79, 83, 89,
      97, 101, 103, 107, 109, 113, 127, 131, 137, 139, 149, 151, 157, 163, 167, 173, 179, 181, 191,
      193, 197, 199, 211, 223, 227, 229, 233, 239, 241, 251, 257, 263, 269, 271, 277, 281, 283, 293,
      307, 311]"

fun root_below :: "(int \<Rightarrow> int) \<Rightarrow> int \<Rightarrow> nat \<Rightarrow> int \<Rightarrow> int" where
  "root_below f n 0 r = r"
| "root_below f n (Suc k) r =
     (let c = r + 2 ^ k in root_below f n k (if f c \<le> n then c else r))"

definition sha_K :: "word32 list" where
  "sha_K = map (\<lambda>p. word_of_int (root_below (\<lambda>c. c * c * c) (p * 2 ^ 96) 37 0)) primes64"

definition sha_H0 :: "word32 list" where
  "sha_H0 = map (\<lambda>p. word_of_int (root_below (\<lambda>c. c * c) (p * 2 ^ 64) 37 0)) (take 8 primes64)"

definition rotr :: "nat \<Rightarrow> word32 \<Rightarrow> word32" where
  "rotr n x = drop_bit n x OR push_bit (32 - n) x"

definition small_sigma0 :: "word32 \<Rightarrow> word32" where
  "small_sigma0 x = rotr 7 x XOR rotr 18 x XOR drop_bit 3 x"

definition small_sigma1 :: "word32 \<Rightarrow> word32" where
  "small_sigma1 x = rotr 17 x XOR rotr 19 x XOR drop_bit 10 x"

definition big_sigma0 :: "word32 \<Rightarrow> word32" where
  "big_sigma0 x = rotr 2 x XOR rotr 13 x XOR rotr 22 x"

definition big_sigma1 :: "word32 \<Rightarrow> word32" where
  "big_sigma1 x = rotr 6 x XOR rotr 11 x XOR rotr 25 x"

definition sha_ch :: "word32 \<Rightarrow> word32 \<Rightarrow> word32 \<Rightarrow> word32" where
  "sha_ch x y z = (x AND y) XOR (NOT x AND z)"

definition sha_maj :: "word32 \<Rightarrow> word32 \<Rightarrow> word32 \<Rightarrow> word32" where
  "sha_maj x y z = (x AND y) XOR (x AND z) XOR (y AND z)"

text \<open>The schedule is extended one word at a time; the window holds the last 16 words.\<close>

fun sha_schedule :: "nat \<Rightarrow> word32 list \<Rightarrow> word32 list" where
  "sha_schedule 0 w = w"
| "sha_schedule (Suc n) w =
     sha_schedule n (w @ [small_sigma1 (w ! (length w - 2)) + w ! (length w - 7) +
                          small_sigma0 (w ! (length w - 15)) + w ! (length w - 16)])"

type_synonym sha_state = "word32 \<times> word32 \<times> word32 \<times> word32 \<times> word32 \<times> word32 \<times> word32 \<times> word32"

definition sha_round :: "word32 \<times> word32 \<Rightarrow> sha_state \<Rightarrow> sha_state" where
  "sha_round = (\<lambda>(k, w) (a, b, c, d, e, f, g, h).
     let t1 = h + big_sigma1 e + sha_ch e f g + k + w;
         t2 = big_sigma0 a + sha_maj a b c
     in (t1 + t2, a, b, c, d + t1, e, f, g))"

definition state_of :: "word32 list \<Rightarrow> sha_state" where
  "state_of v = (v ! 0, v ! 1, v ! 2, v ! 3, v ! 4, v ! 5, v ! 6, v ! 7)"

definition words_of :: "sha_state \<Rightarrow> word32 list" where
  "words_of = (\<lambda>(a, b, c, d, e, f, g, h). [a, b, c, d, e, f, g, h])"

definition word_be :: "bytes \<Rightarrow> word32" where
  "word_be bs = foldl (\<lambda>w b. push_bit 8 w OR ucast b) 0 bs"

fun chunks :: "nat \<Rightarrow> nat \<Rightarrow> 'a list \<Rightarrow> 'a list list" where
  "chunks n 0 xs = []"
| "chunks n (Suc k) xs = take n xs # chunks n k (drop n xs)"

definition sha_compress :: "word32 list \<Rightarrow> bytes \<Rightarrow> word32 list" where
  "sha_compress v block =
     map2 (+) v (words_of (fold sha_round (zip sha_K (sha_schedule 48 (map word_be (chunks 4 16 block))))
       (state_of v)))"

definition sha_pad :: "bytes \<Rightarrow> bytes" where
  "sha_pad m =
     m @ [0x80] @ replicate (nat ((55 - int (length m)) mod 64)) 0 @ be_bytes 8 (8 * int (length m))"

definition word_bytes :: "word32 \<Rightarrow> bytes" where
  "word_bytes w = [ucast (drop_bit 24 w), ucast (drop_bit 16 w), ucast (drop_bit 8 w), ucast w]"

definition sha256 :: "bytes \<Rightarrow> bytes" where
  "sha256 m =
     (let p = sha_pad m
      in concat (map word_bytes (foldl sha_compress sha_H0 (chunks 64 (length p div 64) p))))"

section \<open>The length of a digest\<close>

lemma length_sha_H0: "length sha_H0 = 8"
  by (simp add: sha_H0_def primes64_def del: root_below.simps)

lemma length_words_of [simp]: "length (words_of s) = 8"
  by (simp add: words_of_def split: prod.splits)

lemma length_sha_compress [simp]: "length (sha_compress v b) = min (length v) 8"
  by (simp add: sha_compress_def)

lemma length_fold_compress: "length v = 8 \<Longrightarrow> length (foldl sha_compress v bs) = 8"
  by (induction bs arbitrary: v) simp_all

lemma length_concat_word_bytes: "length (concat (map word_bytes ws)) = 4 * length ws"
  by (induction ws) (simp_all add: word_bytes_def)

theorem sha256_length: "length (sha256 m) = 32"
  by (simp add: sha256_def Let_def length_concat_word_bytes length_fold_compress length_sha_H0)

text \<open>The padded message is a whole number of blocks.\<close>

lemma sha_pad_blocks: "length (sha_pad m) mod 64 = 0"
proof -
  let ?n = "nat ((55 - int (length m)) mod 64)"
  have len: "length (sha_pad m) = length m + 9 + ?n"
    by (simp add: sha_pad_def)
  have "(int (length m) + 9 + (55 - int (length m)) mod 64) mod 64 =
      (int (length m) + 9 + (55 - int (length m))) mod 64"
    by (rule mod_add_right_eq)
  then have "int (length m + 9 + ?n) mod int 64 = 0" by simp
  then show ?thesis unfolding len by (simp only: zmod_int [symmetric] of_nat_eq_0_iff)
qed

text \<open>The bitwise root is the integer root of a monotone function.\<close>

lemma root_below_correct:
  assumes "\<And>a b. 0 \<le> a \<Longrightarrow> a \<le> b \<Longrightarrow> f a \<le> f b" and "0 \<le> r" and "f r \<le> n" and "n < f (r + 2 ^ k)"
  shows "r \<le> root_below f n k r \<and> f (root_below f n k r) \<le> n \<and> n < f (root_below f n k r + 1)"
  using assms(2-)
proof (induction k arbitrary: r)
  case (Suc k)
  show ?case
  proof (cases "f (r + 2 ^ k) \<le> n")
    case True
    with Suc.IH [of "r + 2 ^ k"] Suc.prems show ?thesis
      by (simp add: add.assoc mult_2 [symmetric]) (metis add_increasing2 order_trans zero_le_power zero_le_numeral le_add_same_cancel1)
  next
    case False
    with Suc.IH [of r] Suc.prems show ?thesis by simp
  qed
qed simp

end
