(* ===== verification/Gold_Merkle_Interface.thy ===== *)
theory Gold_Merkle_Interface
  imports Gold_Merkle_Proofs Gold_Sha256
begin

text \<open>
  The contract of the Merkle set and its clients' facts, and the properties of the set with the
  hash function the program uses.
\<close>

section \<open>The interface\<close>

text \<open>
  A set of 32-byte digests with fallible updates: on well formed sets the updates succeed and act
  as the set operations, and a set is determined by its elements.
\<close>

locale hashed_set =
  fixes empty :: 's
    and add :: "bytes \<Rightarrow> 's \<Rightarrow> 's res"
    and remove :: "bytes \<Rightarrow> 's \<Rightarrow> 's res"
    and elems :: "'s \<Rightarrow> bytes set"
    and wf :: "'s \<Rightarrow> bool"
  assumes empty_wf: "wf empty"
    and elems_empty: "elems empty = {}"
    and add_ok: "wf s \<Longrightarrow> length x = 32 \<Longrightarrow> \<exists>s'. add x s = Inr s' \<and> wf s' \<and> elems s' = insert x (elems s)"
    and remove_ok: "wf s \<Longrightarrow> length x = 32 \<Longrightarrow> \<exists>s'. remove x s = Inr s' \<and> wf s' \<and> elems s' = elems s - {x}"
    and wf_ext: "wf s \<Longrightarrow> wf t \<Longrightarrow> elems s = elems t \<Longrightarrow> s = t"

datatype set_update = Add bytes | Remove bytes

fun update_arg :: "set_update \<Rightarrow> bytes" where
  "update_arg (Add x) = x"
| "update_arg (Remove x) = x"

fun abstract_update :: "set_update \<Rightarrow> bytes set \<Rightarrow> bytes set" where
  "abstract_update (Add x) A = insert x A"
| "abstract_update (Remove x) A = A - {x}"

fun run_update ::
    "(bytes \<Rightarrow> 's \<Rightarrow> 's res) \<Rightarrow> (bytes \<Rightarrow> 's \<Rightarrow> 's res) \<Rightarrow> set_update \<Rightarrow> 's \<Rightarrow> 's res" where
  "run_update add remove (Add x) s = add x s"
| "run_update add remove (Remove x) s = remove x s"

context hashed_set
begin

lemma update_ok:
  assumes "wf s" and "length (update_arg u) = 32"
  shows "\<exists>s'. run_update add remove u s = Inr s' \<and> wf s' \<and> elems s' = abstract_update u (elems s)"
  using assms add_ok remove_ok by (cases u) auto

lemma updates_ok:
  assumes "wf s" and "\<forall>u \<in> set us. length (update_arg u) = 32"
  shows "\<exists>s'. rfold (run_update add remove) us s = Inr s' \<and> wf s' \<and>
    elems s' = fold abstract_update us (elems s)"
  using assms
proof (induction us arbitrary: s)
  case (Cons u us)
  then obtain s1 where "run_update add remove u s = Inr s1" "wf s1"
    "elems s1 = abstract_update u (elems s)" using update_ok by fastforce
  with Cons.IH [of s1] Cons.prems(2) show ?case by simp
qed simp

lemma updates_determined:
  assumes "\<forall>u \<in> set us \<union> set vs. length (update_arg u) = 32"
    and "fold abstract_update us {} = fold abstract_update vs {}"
  shows "rfold (run_update add remove) us empty = rfold (run_update add remove) vs empty"
proof -
  obtain s t where "rfold (run_update add remove) us empty = Inr s" "wf s"
      "elems s = fold abstract_update us {}"
      "rfold (run_update add remove) vs empty = Inr t" "wf t" "elems t = fold abstract_update vs {}"
    using updates_ok [OF empty_wf, of us] updates_ok [OF empty_wf, of vs] assms(1)
    by (auto simp: elems_empty)
  with assms(2) wf_ext show ?thesis by metis
qed

lemma remove_add:
  assumes "wf s" and "length x = 32" and "x \<notin> elems s"
  shows "rbind (add x s) (remove x) = Inr s"
proof -
  obtain s1 where s1: "add x s = Inr s1" "wf s1" "elems s1 = insert x (elems s)"
    using add_ok assms by blast
  obtain s2 where s2: "remove x s1 = Inr s2" "wf s2" "elems s2 = elems s1 - {x}"
    using remove_ok s1(2) assms(2) by blast
  have "s2 = s" using s1(3) s2(2,3) assms(1,3) by (intro wf_ext) auto
  with s1 s2 show ?thesis by simp
qed

end

section \<open>The Merkle set satisfies it\<close>

interpretation sha: digest32 sha256
  by unfold_locales (rule sha256_length)

definition set_wf :: "merkle_set \<Rightarrow> bool" where
  "set_wf s = node_wf sha256 [] (root s)"

definition members :: "merkle_set \<Rightarrow> bytes set" where
  "members s = leaves (root s)"

lemma merkle_add_ok:
  assumes "set_wf s" and "length x = 32"
  shows "\<exists>s'. add_already_hashed sha256 x s = Inr s' \<and> set_wf s' \<and> members s' = insert x (members s)"
  using sha.node_add_ok [of "[]" "root s" x] assms
  by (auto simp: set_wf_def members_def add_already_hashed_def)

lemma merkle_remove_ok:
  assumes "set_wf s" and "length x = 32"
  shows "\<exists>s'. remove_already_hashed sha256 x s = Inr s' \<and> set_wf s' \<and> members s' = members s - {x}"
  using sha.node_remove_ok [of "[]" "root s" x] assms
  by (auto simp: set_wf_def members_def remove_already_hashed_def)

interpretation merkle: hashed_set "MerkleSet None" "add_already_hashed sha256"
  "remove_already_hashed sha256" members set_wf
proof unfold_locales
  show "s = t" if "set_wf s" "set_wf t" "members s = members t" for s t
    using sha.node_unique [of "[]" "root s" "root t"] that
    by (cases s; cases t) (simp add: set_wf_def members_def)
qed (auto simp: MerkleSet_def set_wf_def members_def merkle_add_ok [unfolded set_wf_def members_def]
       merkle_remove_ok [unfolded set_wf_def members_def])

section \<open>The audit\<close>

fun leaf_list :: "node \<Rightarrow> bytes list" where
  "leaf_list (TerminalNode h) = [h]"
| "leaf_list (MiddleNode l r h) = leaf_list l @ leaf_list r"
| "leaf_list n = []"

lemma set_leaf_list [simp]: "set (leaf_list n) = leaves n"
  by (induction n) auto

lemma sorted_leaf_list: "node_wf sha p n \<Longrightarrow> sorted (leaf_list n)"
proof (induction n arbitrary: p)
  case (MiddleNode l r h)
  then have wf: "length p < 256" "node_wf sha (p @ [False]) l" "node_wf sha (p @ [True]) r" by simp_all
  then have "x \<le> y" if "x \<in> leaves l" "y \<in> leaves r" for x y
    using on_path_less [OF leaves_on_path [OF wf(2) that(1)] leaves_on_path [OF wf(3) that(2)] wf(1)]
    by simp
  with MiddleNode.IH wf show ?case by (auto simp: sorted_append)
qed auto

lemma node_audit_ok:
  assumes "node_wf sha p n" and "length p \<le> 256"
  shows "node_audit n hs (map of_bool p) = Inr (hs @ leaf_list n)"
  using assms
proof (induction n arbitrary: p hs)
  case (MiddleNode l r h)
  with MiddleNode.IH(1) [of "p @ [False]"] MiddleNode.IH(2) [of "p @ [True]"] show ?case by simp
qed (auto simp: audit_bits_ok)

section \<open>Properties\<close>

text \<open>
  C3. Every sequence of additions and removals of 32-byte digests on the empty set succeeds,
  leaves a well formed trie and computes the same set as the sequence of set operations.
\<close>

theorem merkle_updates_refine:
  assumes "\<forall>u \<in> set us. length (update_arg u) = 32"
  shows "\<exists>s. rfold (run_update (add_already_hashed sha256) (remove_already_hashed sha256)) us (MerkleSet None) =
      Inr s \<and> set_wf s \<and> members s = fold abstract_update us {}"
  using merkle.updates_ok [OF merkle.empty_wf assms] by (simp add: merkle.elems_empty)

theorem merkle_updates_refine_witness:
  "\<exists>s. rfold (run_update (add_already_hashed sha256) (remove_already_hashed sha256))
      [Add (replicate 32 1), Add (replicate 32 2), Remove (replicate 32 1)] (MerkleSet None) =
      Inr s \<and> set_wf s \<and>
      members s = fold abstract_update [Add (replicate 32 1), Add (replicate 32 2), Remove (replicate 32 1)] {}"
  by (rule merkle_updates_refine) simp

text \<open>
  C14. The root hash is a function of the contents: two sequences of additions and removals with
  the same resulting contents give the same root hash, whatever their order.
\<close>

theorem merkle_root_canonical:
  assumes "\<forall>u \<in> set us \<union> set vs. length (update_arg u) = 32"
    and "fold abstract_update us {} = fold abstract_update vs {}"
  shows "rbind (rfold (run_update (add_already_hashed sha256) (remove_already_hashed sha256)) us (MerkleSet None))
        (get_root sha256) =
      rbind (rfold (run_update (add_already_hashed sha256) (remove_already_hashed sha256)) vs (MerkleSet None))
        (get_root sha256)"
  using merkle.updates_determined [OF assms] by simp

theorem merkle_root_canonical_witness:
  "rbind (rfold (run_update (add_already_hashed sha256) (remove_already_hashed sha256))
      [Add (replicate 32 1), Add (replicate 32 2)] (MerkleSet None)) (get_root sha256) =
   rbind (rfold (run_update (add_already_hashed sha256) (remove_already_hashed sha256))
      [Add (replicate 32 2), Add (replicate 32 3), Remove (replicate 32 3), Add (replicate 32 1)]
      (MerkleSet None)) (get_root sha256)"
proof (rule merkle_root_canonical)
  have "replicate 32 1 \<noteq> (replicate 32 3 :: bytes)" "replicate 32 2 \<noteq> (replicate 32 3 :: bytes)"
    by simp_all
  then show "fold abstract_update [Add (replicate 32 1), Add (replicate 32 2)] {} =
      fold abstract_update
        [Add (replicate 32 2), Add (replicate 32 3), Remove (replicate 32 3), Add (replicate 32 1)] {}"
    by auto
qed simp

text \<open>
  C16. Proofs are complete: the answer of the set about a digest is right, and the proof that
  comes with it is accepted against the root of the set for that answer and for no other.
\<close>

theorem merkle_proof_complete:
  assumes "set_wf s" and "length x = 32"
  shows "\<exists>pf rt. is_included_already_hashed x s = Inr (x \<in> members s, pf) \<and> get_root sha256 s = Inr rt \<and>
      confirm_included_already_hashed sha256 rt x pf = Inr (x \<in> members s) \<and>
      confirm_not_included_already_hashed sha256 rt x pf = Inr (x \<notin> members s)"
proof -
  have wf: "node_wf sha256 [] (root s)" using assms(1) by (simp add: set_wf_def)
  obtain rt where rt: "get_root sha256 s = Inr rt"
    using sha.get_root_ok [OF wf] by (cases s) auto
  show ?thesis
    using sha.is_included_value [OF wf assms(2)] sha.confirm_honest [OF wf assms(2) rt] rt
    by (auto simp: members_def confirm_included_already_hashed_def
        confirm_not_included_already_hashed_def)
qed

theorem merkle_proof_complete_witness:
  "\<exists>pf rt. is_included_already_hashed (replicate 32 7) (MerkleSet (Some (TerminalNode (replicate 32 7)))) =
      Inr (replicate 32 7 \<in> members (MerkleSet (Some (TerminalNode (replicate 32 7)))), pf) \<and>
      get_root sha256 (MerkleSet (Some (TerminalNode (replicate 32 7)))) = Inr rt \<and>
      confirm_included_already_hashed sha256 rt (replicate 32 7) pf =
        Inr (replicate 32 7 \<in> members (MerkleSet (Some (TerminalNode (replicate 32 7))))) \<and>
      confirm_not_included_already_hashed sha256 rt (replicate 32 7) pf =
        Inr (replicate 32 7 \<notin> members (MerkleSet (Some (TerminalNode (replicate 32 7)))))"
  by (rule merkle_proof_complete) (simp_all add: set_wf_def MerkleSet_def)

text \<open>
  C1. Proofs are sound: a proof accepted against the root of a set tells the truth about the
  set, as long as the hash has no collision, and no all-zero value, on the strings that are
  hashed in the set and in the proof.
\<close>

theorem merkle_proof_sound:
  assumes "set_wf s" and "length x = 32" and "get_root sha256 s = Inr rt"
    and "deserialize_proof sha256 pf = Inr t"
    and "inj_on (\<lambda>m. take 32 (sha256 m)) (root_preimages (root t) \<union> root_preimages (root s))"
    and "\<forall>m \<in> root_preimages (root t) \<union> root_preimages (root s). take 32 (sha256 m) \<noteq> BLANK"
    and "confirm sha256 rt x pf expected = Inr True"
  shows "(x \<in> members s) = expected"
  using sha.confirm_sound_tree [OF assms(1) [unfolded set_wf_def] assms(2-)] by (simp add: members_def)

theorem merkle_proof_sound_witness:
  "(replicate 32 7 \<in> members (MerkleSet None)) = False"
proof (rule merkle_proof_sound)
  show "set_wf (MerkleSet None)" by (simp add: set_wf_def MerkleSet_def)
  show "length (replicate 32 7 :: bytes) = 32" by simp
  show rt: "get_root sha256 (MerkleSet None) = Inr BLANK"
    by (simp add: get_root_def MerkleSet_def compress_root_def tag_defs BLANK_def)
  show pf: "deserialize_proof sha256 EMPTY = Inr (MerkleSet None)"
    by (simp add: deserialize_proof_def node_deserialize.simps MerkleSet_def tag_defs)
  show "confirm sha256 BLANK (replicate 32 7) EMPTY False = Inr True"
    using rt pf by (simp add: confirm_def is_included_already_hashed_def MerkleSet_def)
qed (simp_all add: MerkleSet_def)

text \<open>
  C36. The audit of a well formed set passes: the leaves lie at the positions their bits
  prescribe and are visited in ascending order.
\<close>

theorem merkle_audit_passes:
  assumes "set_wf s"
  shows "merkle_set_audit s = Inr ()"
proof -
  have "node_audit (root s) [] [] = Inr (leaf_list (root s))"
    using node_audit_ok [of sha256 "[]" "root s" "[]"] assms by (simp add: set_wf_def)
  moreover have "sorted (leaf_list (root s))" using sorted_leaf_list assms by (auto simp: set_wf_def)
  ultimately show ?thesis by (simp add: merkle_set_audit_def sorted_sort_id)
qed

theorem merkle_audit_passes_witness:
  "merkle_set_audit (MerkleSet (Some (TerminalNode (replicate 32 7)))) = Inr ()"
  by (rule merkle_audit_passes) (simp add: set_wf_def MerkleSet_def)

text \<open>
  C37. The function that checks the inclusion of an unhashed value checks its exclusion: it
  rejects the honest proof of every value in the set and accepts that of every value outside.
\<close>

theorem confirm_included_checks_exclusion:
  assumes "set_wf s"
  shows "\<exists>pf rt. is_included_already_hashed (sha256 v) s = Inr (sha256 v \<in> members s, pf) \<and>
      get_root sha256 s = Inr rt \<and> confirm_included sha256 rt v pf = Inr (sha256 v \<notin> members s)"
proof -
  have wf: "node_wf sha256 [] (root s)" using assms(1) by (simp add: set_wf_def)
  obtain rt where rt: "get_root sha256 s = Inr rt"
    using sha.get_root_ok [OF wf] by (cases s) auto
  show ?thesis
    using sha.is_included_value [OF wf sha256_length] sha.confirm_honest [OF wf sha256_length rt] rt
    by (auto simp: members_def confirm_included_def confirm_not_included_already_hashed_def)
qed

theorem confirm_included_checks_exclusion_witness:
  "\<exists>pf rt. is_included_already_hashed (sha256 [1]) (MerkleSet (Some (TerminalNode (sha256 [1])))) =
      Inr (sha256 [1] \<in> members (MerkleSet (Some (TerminalNode (sha256 [1])))), pf) \<and>
      get_root sha256 (MerkleSet (Some (TerminalNode (sha256 [1])))) = Inr rt \<and>
      confirm_included sha256 rt [1] pf =
        Inr (sha256 [1] \<notin> members (MerkleSet (Some (TerminalNode (sha256 [1])))))"
  by (rule confirm_included_checks_exclusion) (simp add: set_wf_def MerkleSet_def sha256_length)

end
