(* ===== verification/Gold_Ints.thy ===== *)
theory Gold_Ints
  imports Gold_Prelude
begin

text \<open>
  The sized integers of \<^verbatim>\<open>src/chia/util/ints.py\<close> and \<^verbatim>\<open>src/chia/util/struct_stream.py\<close>. They
  are Python integers whose constructor raises when the value is out of range; arithmetic on them
  gives plain integers, so nothing wraps and a range is checked where a constructor is called.
  A binary stream that is read is the list of the bytes that are left.
\<close>

section \<open>The struct templates\<close>

datatype pack = Pack_b | Pack_B | Pack_h | Pack_H | Pack_l | Pack_L | Pack_q | Pack_Q

fun calcsize :: "pack \<Rightarrow> nat" where
  "calcsize Pack_b = 1"
| "calcsize Pack_B = 1"
| "calcsize Pack_h = 2"
| "calcsize Pack_H = 2"
| "calcsize Pack_l = 4"
| "calcsize Pack_L = 4"
| "calcsize Pack_q = 8"
| "calcsize Pack_Q = 8"

fun pack_signed :: "pack \<Rightarrow> bool" where
  "pack_signed p = (p \<in> {Pack_b, Pack_h, Pack_l, Pack_q})"

text \<open>The integers of \<open>k\<close> bytes, unsigned and in two's complement.\<close>

definition int_range :: "bool \<Rightarrow> nat \<Rightarrow> int \<Rightarrow> bool" where
  "int_range sg k v =
     (if sg then - (2 ^ (8 * k - 1)) \<le> v \<and> v < 2 ^ (8 * k - 1) else 0 \<le> v \<and> v < 2 ^ (8 * k))"

definition int_of_be :: "bool \<Rightarrow> bytes \<Rightarrow> int" where
  "int_of_be sg bs =
     (let n = be_int bs
      in if sg \<and> bs \<noteq> [] \<and> 2 ^ (8 * length bs - 1) \<le> n then n - 2 ^ (8 * length bs) else n)"

definition struct_pack :: "pack \<Rightarrow> int \<Rightarrow> bytes res" where
  "struct_pack p v =
     (if int_range (pack_signed p) (calcsize p) v then Inr (be_bytes (calcsize p) v) else Inl StructError)"

definition struct_unpack :: "pack \<Rightarrow> bytes \<Rightarrow> int res" where
  "struct_unpack p bs =
     (if length bs = calcsize p then Inr (int_of_be (pack_signed p) bs) else Inl StructError)"

section \<open>The class StructStream\<close>

definition struct_new :: "pack \<Rightarrow> int \<Rightarrow> int res" where
  "struct_new p v =
     (case rbind (struct_pack p v) (struct_unpack p) of
        Inl e \<Rightarrow> Inl ValueError
      | Inr v1 \<Rightarrow> if v \<noteq> v1 then Inl ValueError else Inr v)"

definition struct_parse :: "pack \<Rightarrow> bytes \<Rightarrow> (int \<times> bytes) res" where
  "struct_parse p f =
     (let read_bytes = take (calcsize p) f in
      rbind (py_assert (length read_bytes = calcsize p)) (\<lambda>_.
      rbind (struct_unpack p read_bytes) (\<lambda>n.
      rbind (struct_new p n) (\<lambda>v. Inr (v, drop (calcsize p) f)))))"

definition struct_stream :: "pack \<Rightarrow> int \<Rightarrow> bytes res" where
  "struct_stream p v = struct_pack p v"

definition struct_from_bytes :: "pack \<Rightarrow> bytes \<Rightarrow> int res" where
  "struct_from_bytes p blob =
     rbind (struct_parse p blob) (\<lambda>(result, f). rbind (py_assert (f = [])) (\<lambda>_. Inr result))"

section \<open>The integer classes\<close>

definition int8 :: "int \<Rightarrow> int res" where "int8 = struct_new Pack_b"
definition uint8 :: "int \<Rightarrow> int res" where "uint8 = struct_new Pack_B"
definition int16 :: "int \<Rightarrow> int res" where "int16 = struct_new Pack_h"
definition uint16 :: "int \<Rightarrow> int res" where "uint16 = struct_new Pack_H"
definition int32 :: "int \<Rightarrow> int res" where "int32 = struct_new Pack_l"
definition uint32 :: "int \<Rightarrow> int res" where "uint32 = struct_new Pack_L"
definition int64 :: "int \<Rightarrow> int res" where "int64 = struct_new Pack_q"
definition uint64 :: "int \<Rightarrow> int res" where "uint64 = struct_new Pack_Q"

definition uint128 :: "int \<Rightarrow> int res" where
  "uint128 v = (if v > 2 ^ 128 - 1 \<or> v < 0 then Inl ValueError else Inr v)"

definition uint128_parse :: "bytes \<Rightarrow> (int \<times> bytes) res" where
  "uint128_parse f =
     (let read_bytes = take 16 f in
      rbind (py_assert (length read_bytes = 16)) (\<lambda>_.
      let n = int_of_be False read_bytes in
      rbind (py_assert (n \<le> 2 ^ 128 - 1 \<and> n \<ge> 0)) (\<lambda>_.
      rbind (uint128 n) (\<lambda>v. Inr (v, drop 16 f)))))"

definition to_bytes :: "nat \<Rightarrow> bool \<Rightarrow> int \<Rightarrow> bytes res" where
  "to_bytes k sg v = (if int_range sg k v then Inr (be_bytes k v) else Inl OverflowError)"

definition uint128_stream :: "int \<Rightarrow> bytes res" where
  "uint128_stream v =
     rbind (py_assert (v \<le> 2 ^ 128 - 1 \<and> v \<ge> 0)) (\<lambda>_. to_bytes 16 False v)"

definition int512 :: "int \<Rightarrow> int res" where
  "int512 v = (if v \<ge> 2 ^ 512 \<or> v \<le> - (2 ^ 512) then Inl ValueError else Inr v)"

definition int512_parse :: "bytes \<Rightarrow> (int \<times> bytes) res" where
  "int512_parse f =
     (let read_bytes = take 65 f in
      rbind (py_assert (length read_bytes = 65)) (\<lambda>_.
      let n = int_of_be True read_bytes in
      rbind (py_assert (n < 2 ^ 512 \<and> n > - (2 ^ 512))) (\<lambda>_.
      rbind (int512 n) (\<lambda>v. Inr (v, drop 65 f)))))"

definition int512_stream :: "int \<Rightarrow> bytes res" where
  "int512_stream v =
     rbind (py_assert (v < 2 ^ 512 \<and> v > - (2 ^ 512))) (\<lambda>_. to_bytes 65 True v)"

section \<open>Encoding and decoding\<close>

lemma power_256: "(256 :: int) ^ k = 2 ^ (8 * k)"
  by (simp add: power_mult)

lemma half_power: "0 < k \<Longrightarrow> (2 :: int) ^ (8 * k) = 2 * 2 ^ (8 * k - 1)"
  by (metis power_Suc Suc_pred' nat_0_less_mult_iff zero_less_numeral)

lemma int_of_be_be_bytes:
  assumes "int_range s k v" and "0 < k"
  shows "int_of_be s (be_bytes k v) = v"
proof -
  have len: "be_bytes k v \<noteq> []" using assms(2) by (metis length_be_bytes length_0_conv not_gr_zero)
  note pow = half_power [OF assms(2)]
  show ?thesis
  proof (cases s)
    case True
    then have r: "- (2 ^ (8 * k - 1)) \<le> v" "v < 2 ^ (8 * k - 1)" using assms(1) by (auto simp: int_range_def)
    show ?thesis
    proof (cases "0 \<le> v")
      case nonneg: True
      then have "v mod 2 ^ (8 * k) = v" using r pow by (intro mod_pos_pos_trivial) auto
      with True r len show ?thesis by (simp add: int_of_be_def be_int_be_bytes power_256 Let_def)
    next
      case False
      have "(v + 2 ^ (8 * k)) mod 2 ^ (8 * k) = v + 2 ^ (8 * k)"
        using False r pow by (intro mod_pos_pos_trivial) auto
      then have "v mod 2 ^ (8 * k) = v + 2 ^ (8 * k)" by simp
      moreover from this have "v mod 2 ^ (8 * k) \<ge> 2 ^ (8 * k - 1)" using r pow by simp
      ultimately show ?thesis
        using True len by (simp add: int_of_be_def be_int_be_bytes power_256 Let_def)
    qed
  next
    case False
    then have "v mod 2 ^ (8 * k) = v" using assms(1) by (auto simp: int_range_def)
    with False show ?thesis by (simp add: int_of_be_def be_int_be_bytes power_256 Let_def)
  qed
qed

lemma int_range_int_of_be:
  assumes "bs \<noteq> []"
  shows "int_range s (length bs) (int_of_be s bs)"
proof -
  have pow: "(2 :: int) ^ (8 * length bs) = 2 * 2 ^ (8 * length bs - 1)" using assms by (simp add: half_power)
  have "0 \<le> be_int bs" "be_int bs < 2 ^ (8 * length bs)"
    using be_int_nonneg be_int_less [of bs] by (simp_all add: power_256)
  with assms pow show ?thesis by (auto simp: int_range_def int_of_be_def Let_def)
qed

lemma be_bytes_cong: "v mod 256 ^ k = w mod 256 ^ k \<Longrightarrow> be_bytes k v = be_bytes k w"
  by (metis be_bytes_be_int be_int_be_bytes length_be_bytes)

lemma be_bytes_int_of_be: "be_bytes (length bs) (int_of_be s bs) = bs"
proof -
  have "int_of_be s bs mod 256 ^ length bs = be_int bs mod 256 ^ length bs"
    by (simp add: int_of_be_def Let_def power_256)
  from be_bytes_cong [OF this] show ?thesis by (simp add: be_bytes_be_int)
qed

lemma calcsize_pos [simp]: "0 < calcsize p" "calcsize p \<noteq> 0"
  by (cases p; simp)+

lemma struct_pack_unpack:
  assumes "int_range (pack_signed p) (calcsize p) v"
  shows "rbind (struct_pack p v) (struct_unpack p) = Inr v"
  using assms by (simp add: struct_pack_def struct_unpack_def int_of_be_be_bytes del: pack_signed.simps)

text \<open>The constructors: the value itself, or a range error.\<close>

lemma struct_new_value:
  "struct_new p v = (if int_range (pack_signed p) (calcsize p) v then Inr v else Inl ValueError)"
  using struct_pack_unpack [of p v]
  by (auto simp: struct_new_def struct_pack_def simp del: pack_signed.simps)

lemma uint8_value: "uint8 v = (if 0 \<le> v \<and> v < 2 ^ 8 then Inr v else Inl ValueError)"
  and uint16_value: "uint16 v = (if 0 \<le> v \<and> v < 2 ^ 16 then Inr v else Inl ValueError)"
  and uint32_value: "uint32 v = (if 0 \<le> v \<and> v < 2 ^ 32 then Inr v else Inl ValueError)"
  and uint64_value: "uint64 v = (if 0 \<le> v \<and> v < 2 ^ 64 then Inr v else Inl ValueError)"
  and uint128_value: "uint128 v = (if 0 \<le> v \<and> v < 2 ^ 128 then Inr v else Inl ValueError)"
  by (simp_all add: uint8_def uint16_def uint32_def uint64_def uint128_def struct_new_value int_range_def)

lemmas uint_values = uint8_value uint16_value uint32_value uint64_value uint128_value

lemma struct_parse_stream:
  assumes "struct_stream p v = Inr bs"
  shows "struct_parse p (bs @ rest) = Inr (v, rest)"
proof -
  from assms have r: "int_range (pack_signed p) (calcsize p) v" and bs: "bs = be_bytes (calcsize p) v"
    by (auto simp: struct_stream_def struct_pack_def simp del: pack_signed.simps split: if_splits)
  then show ?thesis
    by (simp add: struct_parse_def struct_unpack_def struct_new_value int_of_be_be_bytes Let_def
        del: pack_signed.simps)
qed

lemma struct_stream_parse:
  assumes "struct_parse p f = Inr (v, rest)"
  shows "\<exists>bs. struct_stream p v = Inr bs \<and> f = bs @ rest"
proof -
  let ?r = "take (calcsize p) f"
  from assms have len: "length ?r = calcsize p" and v: "v = int_of_be (pack_signed p) ?r" "rest = drop (calcsize p) f"
    by (auto simp: struct_parse_def struct_unpack_def struct_new_value res_simps Let_def
        simp del: pack_signed.simps split: if_splits)
  have "?r \<noteq> []" using len by (metis calcsize_pos(2) list.size(3))
  then have "struct_stream p v = Inr ?r"
    using int_range_int_of_be [of ?r "pack_signed p"] be_bytes_int_of_be [of ?r "pack_signed p"] len
    by (simp add: struct_stream_def struct_pack_def v(1) del: pack_signed.simps)
  with v(2) show ?thesis by (metis append_take_drop_id)
qed

lemma uint128_parse_stream:
  assumes "uint128_stream v = Inr bs"
  shows "uint128_parse (bs @ rest) = Inr (v, rest)"
proof -
  from assms have r: "int_range False 16 v" and bs: "bs = be_bytes 16 v"
    by (auto simp: uint128_stream_def to_bytes_def res_simps split: if_splits)
  then show ?thesis
    by (simp add: uint128_parse_def int_of_be_be_bytes uint128_def int_range_def Let_def)
qed

lemma uint128_stream_parse:
  assumes "uint128_parse f = Inr (v, rest)"
  shows "\<exists>bs. uint128_stream v = Inr bs \<and> f = bs @ rest"
proof -
  let ?r = "take 16 f"
  from assms have len: "length ?r = 16" and v: "v = int_of_be False ?r" "rest = drop 16 f"
    by (auto simp: uint128_parse_def uint128_def res_simps Let_def split: if_splits)
  have "?r \<noteq> []" using len by force
  then have r: "int_range False 16 v" using int_range_int_of_be [of ?r False] len v(1) by simp
  then have "uint128_stream v = Inr ?r"
    using be_bytes_int_of_be [of ?r False] len
    by (simp add: uint128_stream_def to_bytes_def v(1)) (simp add: int_range_def)
  with v(2) show ?thesis by (metis append_take_drop_id)
qed

text \<open>
  The class int512 writes 65 bytes but refuses the two outermost halves of their range, so every
  value of the class is written, and a blob is read only when its value is in the class.
\<close>

lemma int512_parse_stream:
  assumes "int512_stream v = Inr bs"
  shows "int512_parse (bs @ rest) = Inr (v, rest)"
proof -
  from assms have r: "int_range True 65 v" "v < 2 ^ 512" "v > - (2 ^ 512)" and bs: "bs = be_bytes 65 v"
    by (auto simp: int512_stream_def to_bytes_def res_simps split: if_splits)
  then show ?thesis
    by (simp add: int512_parse_def int_of_be_be_bytes int512_def Let_def)
qed

lemma int512_stream_total: "int512 v = Inr w \<Longrightarrow> \<exists>bs. int512_stream w = Inr bs \<and> length bs = 65"
  by (auto simp: int512_def int512_stream_def to_bytes_def int_range_def split: if_splits)


end
