(* ===== verification/Gold_Float.thy ===== *)
theory Gold_Float
  imports Gold_Prelude Complex_Main "HOL-Library.Log_Nat"
begin

text \<open>
  Python floats as the rational numbers they stand for. Every operation is the exact operation
  followed by rounding to 53 significant bits, ties to even; true division of two integers is
  rounded once. The exponents of the modelled program are far from the limits of binary64, so
  overflow to infinity and gradual underflow do not occur and are not represented.
\<close>

section \<open>Rounding\<close>

type_synonym pyfloat = rat

definition pow2 :: "int \<Rightarrow> rat" where
  "pow2 e = (if 0 \<le> e then 2 ^ nat e else 1 / 2 ^ nat (- e))"

definition round_half_even :: "rat \<Rightarrow> int" where
  "round_half_even q =
     (let f = \<lfloor>q\<rfloor>; r = q - of_int f in if r < 1 / 2 \<or> r = 1 / 2 \<and> even f then f else f + 1)"

definition float_exp :: "rat \<Rightarrow> int" where
  "float_exp x =
     (let (n, d) = quotient_of x; k = bitlen n - bitlen d in if pow2 k \<le> x then k else k - 1)"

definition round53 :: "rat \<Rightarrow> pyfloat" where
  "round53 x =
     (if x = 0 then 0
      else let e = float_exp \<bar>x\<bar> - 52
           in sgn x * (of_int (round_half_even (\<bar>x\<bar> / pow2 e)) * pow2 e))"

definition float_of_int :: "int \<Rightarrow> pyfloat" where
  "float_of_int n = round53 (of_int n)"

definition float_mul :: "pyfloat \<Rightarrow> pyfloat \<Rightarrow> pyfloat" where
  "float_mul a b = round53 (a * b)"

definition float_add :: "pyfloat \<Rightarrow> pyfloat \<Rightarrow> pyfloat" where
  "float_add a b = round53 (a + b)"

text \<open>\<^verbatim>\<open>a / b\<close> on integers, and the truncation \<^verbatim>\<open>int(x)\<close>.\<close>

definition true_div :: "int \<Rightarrow> int \<Rightarrow> pyfloat res" where
  "true_div a b = (if b = 0 then Inl ZeroDivisionError else Inr (round53 (of_int a / of_int b)))"

definition int_of_float :: "pyfloat \<Rightarrow> int" where
  "int_of_float x = (if 0 \<le> x then \<lfloor>x\<rfloor> else \<lceil>x\<rceil>)"

section \<open>Powers of two\<close>

lemma pow2_pos [simp]: "0 < pow2 e" "pow2 e \<noteq> 0" "0 \<le> pow2 e"
  by (auto simp: pow2_def)

lemma pow2_powr: "pow2 e = power_int 2 e"
  by (simp add: pow2_def power_int_def inverse_eq_divide power_one_over)

lemma pow2_add: "pow2 (a + b) = pow2 a * pow2 b"
  by (simp add: pow2_powr power_int_add)

lemma pow2_nat: "pow2 (int n) = 2 ^ n"
  by (simp add: pow2_def)

lemma pow2_mono: "a \<le> b \<Longrightarrow> pow2 a \<le> pow2 b"
  by (simp add: pow2_powr power_int_increasing)

lemma pow2_less: "pow2 a < pow2 b \<longleftrightarrow> a < b"
proof
  show "a < b" if "pow2 a < pow2 b" using that pow2_mono [of b a] by linarith
  show "pow2 a < pow2 b" if "a < b"
    using that unfolding pow2_powr by (intro power_int_strict_increasing) simp_all
qed

lemma pow2_diff: "pow2 (a - b) = pow2 a / pow2 b"
  by (simp add: pow2_powr power_int_diff)

lemma bitlen_pow2:
  assumes "0 < n"
  shows "pow2 (bitlen n - 1) \<le> of_int n \<and> of_int n < pow2 (bitlen n)"
proof -
  have b: "2 ^ nat (bitlen n - 1) \<le> n \<and> n < 2 ^ nat (bitlen n)" "1 \<le> bitlen n"
    using bitlen_bounds [OF assms] bitlen_eq_zero_iff [of n] bitlen_nonneg [of n] assms by auto
  then have "(of_int (2 ^ nat (bitlen n - 1)) :: rat) \<le> of_int n"
    "(of_int n :: rat) < of_int (2 ^ nat (bitlen n))" by (simp_all only: of_int_le_iff of_int_less_iff)
  with b(2) show ?thesis by (simp add: pow2_def)
qed

lemma float_exp_bounds:
  assumes "0 < x"
  shows "pow2 (float_exp x) \<le> x \<and> x < pow2 (float_exp x + 1)"
proof -
  obtain n d where q: "quotient_of x = (n, d)" by force
  then have d: "0 < d" and x: "x = of_int n / of_int d"
    using quotient_of_denom_pos quotient_of_div by auto
  from assms x d have n: "0 < n" by (simp add: zero_less_divide_iff)
  note bn = bitlen_pow2 [OF n] and bd = bitlen_pow2 [OF d]
  let ?k = "bitlen n - bitlen d"
  have up: "x < pow2 (?k + 1)"
  proof -
    have "x < pow2 (bitlen n) / pow2 (bitlen d - 1)"
      unfolding x using bn bd n d by (intro frac_less) auto
    also have "\<dots> = pow2 (?k + 1)" by (simp add: pow2_diff [symmetric] algebra_simps)
    finally show ?thesis .
  qed
  have "pow2 (?k - 1) \<le> x"
  proof -
    have "pow2 (?k - 1) = pow2 (bitlen n - 1) / pow2 (bitlen d)" by (simp add: pow2_diff [symmetric] algebra_simps)
    also have "\<dots> \<le> x" unfolding x using bn bd n d by (intro frac_le) auto
    finally show ?thesis .
  qed
  with up show ?thesis by (auto simp: float_exp_def q Let_def)
qed

lemma float_exp_unique:
  assumes "pow2 e \<le> x" and "x < pow2 (e + 1)"
  shows "float_exp x = e"
proof -
  have "0 < x" using assms(1) pow2_pos(1) [of e] by linarith
  from float_exp_bounds [OF this] assms have "pow2 e < pow2 (float_exp x + 1)" "pow2 (float_exp x) < pow2 (e + 1)"
    by linarith+
  then show ?thesis by (simp add: pow2_less)
qed

lemma float_exp_mono: "0 < x \<Longrightarrow> x \<le> y \<Longrightarrow> float_exp x \<le> float_exp y"
proof -
  assume "0 < x" "x \<le> y"
  with float_exp_bounds [of x] float_exp_bounds [of y] have "pow2 (float_exp x) < pow2 (float_exp y + 1)"
    by linarith
  then show ?thesis by (simp add: pow2_less)
qed

section \<open>Rounding to the nearest integer\<close>

lemma round_half_even_int [simp]: "round_half_even (of_int n) = n"
  by (simp add: round_half_even_def Let_def)

lemma round_half_even_mono:
  assumes "p \<le> q"
  shows "round_half_even p \<le> round_half_even q"
proof (cases "\<lfloor>p\<rfloor> = \<lfloor>q\<rfloor>")
  case True
  with assms show ?thesis by (auto simp: round_half_even_def Let_def)
next
  case False
  have "\<lfloor>p\<rfloor> < \<lfloor>q\<rfloor>" using False floor_mono [OF assms] by simp
  then show ?thesis by (auto simp: round_half_even_def Let_def)
qed

section \<open>Exactness and monotonicity\<close>

lemma round53_0 [simp]: "round53 0 = 0"
  by (simp add: round53_def)

lemma round53_pos:
  assumes "0 < x"
  shows "round53 x = of_int (round_half_even (x / pow2 (float_exp x - 52))) * pow2 (float_exp x - 52)"
  using assms by (simp add: round53_def Let_def)

lemma round53_bounds:
  assumes "0 < x"
  shows "pow2 (float_exp x) \<le> round53 x \<and> round53 x \<le> pow2 (float_exp x + 1)"
proof -
  let ?e = "float_exp x - 52"
  have "pow2 (float_exp x) = of_int (2 ^ 52) * pow2 ?e" "pow2 (float_exp x + 1) = of_int (2 ^ 53) * pow2 ?e"
    using pow2_add [of "int 52" ?e] pow2_add [of "int 53" ?e]
    unfolding pow2_nat by (simp_all add: add.commute)
  with float_exp_bounds [OF assms] have "of_int (2 ^ 52) \<le> x / pow2 ?e" "x / pow2 ?e \<le> of_int (2 ^ 53)"
    by (simp_all add: field_simps)
  then have "2 ^ 52 \<le> round_half_even (x / pow2 ?e)" "round_half_even (x / pow2 ?e) \<le> 2 ^ 53"
    using round_half_even_mono round_half_even_int by metis+
  then have "of_int (2 ^ 52) \<le> (of_int (round_half_even (x / pow2 ?e)) :: rat)"
    "(of_int (round_half_even (x / pow2 ?e)) :: rat) \<le> of_int (2 ^ 53)"
    by (simp_all only: of_int_le_iff)
  then show ?thesis
    unfolding round53_pos [OF assms] \<open>pow2 (float_exp x) = _\<close> \<open>pow2 (float_exp x + 1) = _\<close>
    by (simp add: mult_right_mono)
qed

lemma round53_mono:
  assumes "0 \<le> x" and "x \<le> y"
  shows "round53 x \<le> round53 y"
proof (cases "x = 0")
  case True
  have "0 \<le> round53 y"
  proof (cases "y = 0")
    case False
    then have "pow2 (float_exp y) \<le> round53 y" using round53_bounds [of y] assms True by simp
    with pow2_pos(3) [of "float_exp y"] show ?thesis by (rule order_trans)
  qed simp
  with True show ?thesis by simp
next
  case False
  then have pos: "0 < x" "0 < y" using assms by simp_all
  consider "float_exp x = float_exp y" | "float_exp x + 1 \<le> float_exp y"
    using float_exp_mono [OF pos(1) assms(2)] by linarith
  then show ?thesis
  proof cases
    case 1
    have "x / pow2 (float_exp x - 52) \<le> y / pow2 (float_exp x - 52)"
      using assms(2) by (simp add: divide_right_mono)
    from round_half_even_mono [OF this] show ?thesis
      by (simp add: round53_pos pos 1 [symmetric] mult_right_mono)
  next
    case 2
    with round53_bounds [OF pos(1)] round53_bounds [OF pos(2)] pow2_mono [OF 2] show ?thesis by linarith
  qed
qed

lemma round53_exact:
  assumes "x = of_int m * pow2 e" and "0 \<le> m" and "m < 2 ^ 53"
  shows "round53 x = x"
proof (cases "m = 0")
  case True
  with assms show ?thesis by simp
next
  case False
  with assms have x: "0 < x" by simp
  have m: "0 < m" using False assms(2) by simp
  let ?f = "float_exp x - 52"
  have "of_int m < (of_int (2 ^ 53) :: rat)" using assms(3) by (simp only: of_int_less_iff)
  then have "x < pow2 (53 + e)" using assms(1) by (simp add: pow2_add) (simp add: pow2_def)
  with float_exp_bounds [OF x] have "pow2 (float_exp x) < pow2 (53 + e)" by linarith
  then have le: "?f \<le> e" by (simp add: pow2_less)
  have "x / pow2 ?f = of_int m * pow2 (e - ?f)" using assms(1) by (simp add: pow2_diff)
  also have "\<dots> = of_int (m * 2 ^ nat (e - ?f))" using le by (simp add: pow2_def)
  finally have "of_int (round_half_even (x / pow2 ?f)) = x / pow2 ?f"
    by (simp only: round_half_even_int)
  then show ?thesis by (simp add: round53_pos [OF x])
qed

end
