(* ===== verification/Gold_Consensus.thy ===== *)
theory Gold_Consensus
  imports Gold_Ints Gold_Float
begin

text \<open>
  The numeric core of the consensus: the constants (\<^verbatim>\<open>src/chia/consensus/constants.py\<close>,
  \<^verbatim>\<open>default_constants.py\<close>), significant bits (\<^verbatim>\<open>src/chia/util/significant_bits.py\<close>), the block
  rewards, the iterations of signage and infusion points, the quality of a proof of space and the
  parents of reward coins. The hash function of the third-party BLS library is the parameter
  \<open>std_hash\<close>.
\<close>

unbundle bit_operations_syntax

section \<open>Constants\<close>

record ConsensusConstants =
  SLOT_BLOCKS_TARGET :: int
  MIN_BLOCKS_PER_CHALLENGE_BLOCK :: int
  MAX_SUB_SLOT_BLOCKS :: int
  NUM_SPS_SUB_SLOT :: int
  SUB_SLOT_ITERS_STARTING :: int
  DIFFICULTY_CONSTANT_FACTOR :: int
  DIFFICULTY_STARTING :: int
  DIFFICULTY_CHANGE_MAX_FACTOR :: int
  SUB_EPOCH_BLOCKS :: int
  EPOCH_BLOCKS :: int
  SIGNIFICANT_BITS :: int
  DISCRIMINANT_SIZE_BITS :: int
  NUMBER_ZERO_BITS_PLOT_FILTER :: int
  MIN_PLOT_SIZE :: int
  MAX_PLOT_SIZE :: int
  SUB_SLOT_TIME_TARGET :: int
  NUM_SP_INTERVALS_EXTRA :: int
  MAX_FUTURE_TIME :: int
  NUMBER_OF_TIMESTAMPS :: int
  GENESIS_CHALLENGE :: bytes32
  AGG_SIG_ME_ADDITIONAL_DATA :: bytes
  GENESIS_PRE_FARM_POOL_PUZZLE_HASH :: bytes32
  GENESIS_PRE_FARM_FARMER_PUZZLE_HASH :: bytes32
  MAX_VDF_WITNESS_SIZE :: int
  MEMPOOL_BLOCK_BUFFER :: int
  MAX_COIN_AMOUNT :: int
  MAX_BLOCK_COST_CLVM :: int
  COST_PER_BYTE :: int
  WEIGHT_PROOF_THRESHOLD :: int
  WEIGHT_PROOF_RECENT_BLOCKS :: int
  MAX_BLOCK_COUNT_PER_REQUESTS :: int
  STAKING_ESTIMATE_BLOCK_RANGE :: int
  BLOCKS_CACHE_SIZE :: int
  NETWORK_TYPE :: int
  MAX_GENERATOR_SIZE :: int
  MAX_GENERATOR_REF_LIST_SIZE :: int
  POOL_SUB_SLOT_ITERS :: int
  HF_BLOCK_REWARD :: int
  HF_BLOCK_STAKING :: int

definition DEFAULT_CONSTANTS :: ConsensusConstants where
  "DEFAULT_CONSTANTS = \<lparr>
     SLOT_BLOCKS_TARGET = 32,
     MIN_BLOCKS_PER_CHALLENGE_BLOCK = 16,
     MAX_SUB_SLOT_BLOCKS = 128,
     NUM_SPS_SUB_SLOT = 64,
     SUB_SLOT_ITERS_STARTING = 2 ^ 27,
     DIFFICULTY_CONSTANT_FACTOR = 2 ^ 57,
     DIFFICULTY_STARTING = 7,
     DIFFICULTY_CHANGE_MAX_FACTOR = 3,
     SUB_EPOCH_BLOCKS = 384,
     EPOCH_BLOCKS = 4608,
     SIGNIFICANT_BITS = 8,
     DISCRIMINANT_SIZE_BITS = 1024,
     NUMBER_ZERO_BITS_PLOT_FILTER = 9,
     MIN_PLOT_SIZE = 31,
     MAX_PLOT_SIZE = 50,
     SUB_SLOT_TIME_TARGET = 600,
     NUM_SP_INTERVALS_EXTRA = 3,
     MAX_FUTURE_TIME = 5 * 60,
     NUMBER_OF_TIMESTAMPS = 11,
     GENESIS_CHALLENGE =
       be_bytes 32 0xa863ac9871ebeaf1fdc7ed6acd3d5c8c39441d53187a936868c87e1e233a3819,
     AGG_SIG_ME_ADDITIONAL_DATA =
       be_bytes 32 0xecbf4458b47e39c60afec66e245fccb042871417ffc5200cb0140346c2e044d0,
     GENESIS_PRE_FARM_POOL_PUZZLE_HASH =
       be_bytes 32 0x1154e73194bc5479dd029fef922b2aa1a0cc1bbc383c756f5ff8040dadcac4bb,
     GENESIS_PRE_FARM_FARMER_PUZZLE_HASH =
       be_bytes 32 0xdf62080c2648f32317da68a4dfa82b8ee09280278598366864475989d6a9a12e,
     MAX_VDF_WITNESS_SIZE = 64,
     MEMPOOL_BLOCK_BUFFER = 10,
     MAX_COIN_AMOUNT = 2 ^ 64 - 1,
     MAX_BLOCK_COST_CLVM = 11000000000,
     COST_PER_BYTE = 12000,
     WEIGHT_PROOF_THRESHOLD = 2,
     WEIGHT_PROOF_RECENT_BLOCKS = 1000,
     MAX_BLOCK_COUNT_PER_REQUESTS = 32,
     STAKING_ESTIMATE_BLOCK_RANGE = 4608 * 3,
     BLOCKS_CACHE_SIZE = 4608 * 3 + (128 * 4),
     NETWORK_TYPE = 0,
     MAX_GENERATOR_SIZE = 1000000,
     MAX_GENERATOR_REF_LIST_SIZE = 512,
     POOL_SUB_SLOT_ITERS = 37600000000,
     HF_BLOCK_REWARD = -1,
     HF_BLOCK_STAKING = -1\<rparr>"

definition constants_reward_hardfork_activated :: "ConsensusConstants \<Rightarrow> int \<Rightarrow> bool" where
  "constants_reward_hardfork_activated c height = (HF_BLOCK_REWARD c \<ge> 0 \<and> height \<ge> HF_BLOCK_REWARD c)"

definition staking_hardfork_activated :: "ConsensusConstants \<Rightarrow> int \<Rightarrow> bool" where
  "staking_hardfork_activated c height = True"

section \<open>Significant bits\<close>

definition bit_length :: "int \<Rightarrow> int" where
  "bit_length x = bitlen \<bar>x\<bar>"

definition truncate_to_significant_bits :: "int \<Rightarrow> int \<Rightarrow> int" where
  "truncate_to_significant_bits input_x num_significant_bits =
     (let x = \<bar>input_x\<bar> in
      if num_significant_bits > bit_length x then input_x
      else
        let lower = bit_length x - num_significant_bits;
            mask = push_bit (nat (bit_length x)) 1 - 1 - (push_bit (nat lower) 1 - 1)
        in if input_x < 0 then - (x AND mask) else x AND mask)"

fun count_from :: "int \<Rightarrow> int \<Rightarrow> nat list \<Rightarrow> int" where
  "count_from x len [] = 0"
| "count_from x len (i # is) = (if x AND push_bit i 1 > 0 then len - int i else count_from x len is)"

definition count_significant_bits :: "int \<Rightarrow> int" where
  "count_significant_bits input_x = count_from input_x (bit_length input_x) [0..<nat (bit_length input_x)]"

section \<open>Block rewards\<close>

definition mojo_per_chia :: int where "mojo_per_chia = 1000000000000"
definition blocks_per_year :: int where "blocks_per_year = 1681920"
definition PREFARM :: int where "PREFARM = 1000000"
definition REWARD_HARDFORK_HEIGHT :: int where "REWARD_HARDFORK_HEIGHT = 2 ^ 32 - 1"

definition reward_hardfork_activated :: "int \<Rightarrow> bool" where
  "reward_hardfork_activated height = (height \<ge> REWARD_HARDFORK_HEIGHT)"

text \<open>\<^verbatim>\<open>uint64(int(coefficient * share * _mojo_per_chia))\<close>, evaluated from the left in floats.\<close>

definition reward_amount :: "pyfloat \<Rightarrow> pyfloat \<Rightarrow> int res" where
  "reward_amount coefficient share =
     uint64 (int_of_float (float_mul (float_mul coefficient share) (float_of_int mojo_per_chia)))"

definition reward_share :: "int \<Rightarrow> pyfloat" where
  "reward_share height =
     (if height = 0 then float_of_int PREFARM
      else if height < 3 * blocks_per_year then 1
      else if height < 6 * blocks_per_year then 1 / 2
      else if height < 9 * blocks_per_year then 1 / 4
      else 1 / 8)"

definition calculate_pool_reward :: "int \<Rightarrow> int res" where
  "calculate_pool_reward height =
     (if reward_hardfork_activated height then Inr 0
      else rbind (true_div 7 8) (\<lambda>c. reward_amount c (reward_share height)))"

definition calculate_base_farmer_reward :: "int \<Rightarrow> int res" where
  "calculate_base_farmer_reward height =
     rbind (if reward_hardfork_activated height then Inr 1 else true_div 1 8)
       (\<lambda>coefficient. reward_amount coefficient (reward_share height))"

section \<open>Iterations\<close>

definition is_overflow_block :: "ConsensusConstants \<Rightarrow> int \<Rightarrow> bool res" where
  "is_overflow_block c signage_point_index =
     (if signage_point_index \<ge> NUM_SPS_SUB_SLOT c then Inl ValueError
      else Inr (signage_point_index \<ge> NUM_SPS_SUB_SLOT c - NUM_SP_INTERVALS_EXTRA c))"

definition calculate_sp_interval_iters :: "ConsensusConstants \<Rightarrow> int \<Rightarrow> int res" where
  "calculate_sp_interval_iters c sub_slot_iters =
     rbind (py_mod sub_slot_iters (NUM_SPS_SUB_SLOT c)) (\<lambda>m.
     rbind (py_assert (m = 0)) (\<lambda>_.
     rbind (floor_div sub_slot_iters (NUM_SPS_SUB_SLOT c)) uint64))"

definition calculate_sp_iters :: "ConsensusConstants \<Rightarrow> int \<Rightarrow> int \<Rightarrow> int res" where
  "calculate_sp_iters c sub_slot_iters signage_point_index =
     (if signage_point_index \<ge> NUM_SPS_SUB_SLOT c then Inl ValueError
      else rbind (calculate_sp_interval_iters c sub_slot_iters) (\<lambda>i. uint64 (i * signage_point_index)))"

definition calculate_ip_iters :: "ConsensusConstants \<Rightarrow> int \<Rightarrow> int \<Rightarrow> int \<Rightarrow> int res" where
  "calculate_ip_iters c sub_slot_iters signage_point_index required_iters =
     rbind (calculate_sp_iters c sub_slot_iters signage_point_index) (\<lambda>sp_iters.
     rbind (calculate_sp_interval_iters c sub_slot_iters) (\<lambda>sp_interval_iters.
     rbind (py_mod sp_iters sp_interval_iters) (\<lambda>m.
     if m \<noteq> 0 \<or> sp_iters \<ge> sub_slot_iters then Inl ValueError
     else if required_iters \<ge> sp_interval_iters \<or> required_iters = 0 then Inl ValueError
     else rbind (py_mod (sp_iters + NUM_SP_INTERVALS_EXTRA c * sp_interval_iters + required_iters)
                   sub_slot_iters) uint64)))"

text \<open>
  The plot size is an exact product; for \<open>k = 0\<close> the power is the float one half. The difficulty
  may be a decimal number, which \<^verbatim>\<open>int\<close> truncates.
\<close>

definition expected_plot_size :: "int \<Rightarrow> rat" where
  "expected_plot_size k = of_int (2 * k + 1) * pow2 (k - 1)"

definition calculate_iterations_quality ::
    "(bytes \<Rightarrow> bytes) \<Rightarrow> int \<Rightarrow> bytes \<Rightarrow> int \<Rightarrow> rat \<Rightarrow> bytes \<Rightarrow> int res" where
  "calculate_iterations_quality std_hash difficulty_constant_factor quality_string size_k difficulty
     cc_sp_output_hash =
     (let sp_quality_string = std_hash (quality_string @ cc_sp_output_hash) in
      rbind (floor_div
               (int_of_float difficulty * difficulty_constant_factor * be_int sp_quality_string)
               (2 ^ 256 * int_of_float (expected_plot_size size_k))) (\<lambda>q.
      rbind (uint64 q) (\<lambda>iters. Inr (max iters 1))))"

section \<open>The parents of reward coins\<close>

definition sized_bytes :: "nat \<Rightarrow> bytes \<Rightarrow> bytes res" where
  "sized_bytes n v = (if length v \<noteq> n then Inl ValueError else Inr v)"

definition pool_parent_id :: "int \<Rightarrow> bytes32 \<Rightarrow> bytes32 res" where
  "pool_parent_id block_height genesis_challenge =
     rbind (to_bytes 16 False block_height) (\<lambda>h. sized_bytes 32 (take 16 genesis_challenge @ h))"

definition farmer_parent_id :: "int \<Rightarrow> bytes32 \<Rightarrow> bytes32 res" where
  "farmer_parent_id block_height genesis_challenge =
     rbind (to_bytes 16 False block_height) (\<lambda>h. sized_bytes 32 (drop 16 genesis_challenge @ h))"

end
