(* ===== verification/Gold_Consensus_Correct.thy ===== *)
theory Gold_Consensus_Correct
  imports Gold_Consensus
begin

text \<open>
  Properties of the numeric core: the rewards of a block, the significant bits of a difficulty,
  the position of infusion points, the iterations of a proof of space, and the uniqueness of the
  parents of reward coins.
\<close>

unbundle bit_operations_syntax

lemma int_of_float_of_int [simp]: "int_of_float (of_int n) = n"
  by (simp add: int_of_float_def)

section \<open>Block rewards\<close>

definition block_reward :: "int \<Rightarrow> int" where
  "block_reward height =
     (if height = 0 then 1000000 * mojo_per_chia
      else if height < 3 * blocks_per_year then mojo_per_chia
      else if height < 6 * blocks_per_year then mojo_per_chia div 2
      else if height < 9 * blocks_per_year then mojo_per_chia div 4
      else mojo_per_chia div 8)"

lemma reward_exact:
  assumes "c * s = of_int m1 * pow2 e1" and "0 \<le> m1" and "m1 < 2 ^ 53"
    and "c * s * 1000000000000 = of_int m2 * pow2 e2" and "0 \<le> m2" and "m2 < 2 ^ 53"
    and "c * s * 1000000000000 = of_int v" and "0 \<le> v" and "v < 2 ^ 64"
  shows "reward_amount c s = Inr v"
proof -
  have "round53 1000000000000 = 1000000000000"
    by (rule round53_exact [of _ 1000000000000 0]) (simp_all add: pow2_def)
  moreover have "round53 (c * s) = c * s" by (rule round53_exact [OF assms(1-3)])
  moreover have "round53 (c * s * 1000000000000) = c * s * 1000000000000"
    by (rule round53_exact [OF assms(4-6)])
  ultimately have "reward_amount c s = uint64 (int_of_float (of_int v))"
    using assms(7) by (simp add: reward_amount_def float_mul_def float_of_int_def mojo_per_chia_def)
  then show ?thesis using assms(8,9) by (simp add: uint64_value)
qed

lemma float_PREFARM: "float_of_int PREFARM = 1000000"
  unfolding float_of_int_def PREFARM_def
  by (simp, rule round53_exact [of _ 1000000 0]) (simp_all add: pow2_def)

lemma reward_amounts:
  "reward_amount (7 / 8) (float_of_int PREFARM) = Inr 875000000000000000"
  "reward_amount (7 / 8) 1 = Inr 875000000000"
  "reward_amount (7 / 8) (1 / 2) = Inr 437500000000"
  "reward_amount (7 / 8) (1 / 4) = Inr 218750000000"
  "reward_amount (7 / 8) (1 / 8) = Inr 109375000000"
  "reward_amount (1 / 8) (float_of_int PREFARM) = Inr 125000000000000000"
  "reward_amount (1 / 8) 1 = Inr 125000000000"
  "reward_amount (1 / 8) (1 / 2) = Inr 62500000000"
  "reward_amount (1 / 8) (1 / 4) = Inr 31250000000"
  "reward_amount (1 / 8) (1 / 8) = Inr 15625000000"
  "reward_amount 1 (1 / 8) = Inr 125000000000"
  subgoal by (rule reward_exact [of _ _ 109375 3 26702880859375 15]) (simp_all add: pow2_def float_PREFARM)
  subgoal by (rule reward_exact [of _ _ 7 "-3" 1708984375 9]) (simp_all add: pow2_def float_PREFARM)
  subgoal by (rule reward_exact [of _ _ 7 "-4" 1708984375 8]) (simp_all add: pow2_def float_PREFARM)
  subgoal by (rule reward_exact [of _ _ 7 "-5" 1708984375 7]) (simp_all add: pow2_def float_PREFARM)
  subgoal by (rule reward_exact [of _ _ 7 "-6" 1708984375 6]) (simp_all add: pow2_def float_PREFARM)
  subgoal by (rule reward_exact [of _ _ 15625 3 3814697265625 15]) (simp_all add: pow2_def float_PREFARM)
  subgoal by (rule reward_exact [of _ _ 1 "-3" 244140625 9]) (simp_all add: pow2_def float_PREFARM)
  subgoal by (rule reward_exact [of _ _ 1 "-4" 244140625 8]) (simp_all add: pow2_def float_PREFARM)
  subgoal by (rule reward_exact [of _ _ 1 "-5" 244140625 7]) (simp_all add: pow2_def float_PREFARM)
  subgoal by (rule reward_exact [of _ _ 1 "-6" 244140625 6]) (simp_all add: pow2_def float_PREFARM)
  subgoal by (rule reward_exact [of _ _ 1 "-3" 244140625 9]) (simp_all add: pow2_def float_PREFARM)
  done

lemma eighths: "true_div 7 8 = Inr (7 / 8)" "true_div 1 8 = Inr (1 / 8)"
  unfolding true_div_def
  using round53_exact [of "7 / 8" 7 "-3"] round53_exact [of "1 / 8" 1 "-3"] by (simp_all add: pow2_def)

lemmas reward_defs = calculate_pool_reward_def calculate_base_farmer_reward_def reward_share_def
  reward_hardfork_activated_def REWARD_HARDFORK_HEIGHT_def blocks_per_year_def

text \<open>
  C26. At every height the pool and the farmer reward are defined and add up to the reward of the
  schedule; the pool gets seven eighths of it, or nothing after the reward fork.
\<close>

theorem rewards_add_up:
  "\<exists>p f. calculate_pool_reward h = Inr p \<and> calculate_base_farmer_reward h = Inr f \<and>
     p + f = block_reward h \<and> (if reward_hardfork_activated h then p = 0 else p = 7 * f)"
  unfolding reward_defs block_reward_def
  by (simp add: eighths reward_amounts mojo_per_chia_def blocks_per_year_def)

section \<open>Significant bits\<close>

lemma bit_length_bounds:
  assumes "x \<noteq> 0"
  shows "2 ^ nat (bit_length x - 1) \<le> \<bar>x\<bar> \<and> \<bar>x\<bar> < 2 ^ nat (bit_length x)" and "1 \<le> bit_length x"
  using assms bitlen_bounds [of "\<bar>x\<bar>"] bitlen_eq_zero_iff [of "\<bar>x\<bar>"] bitlen_nonneg [of "\<bar>x\<bar>"]
  by (auto simp: bit_length_def)

lemma bit_length_nonneg: "0 \<le> bit_length x"
  by (simp add: bit_length_def bitlen_nonneg)

lemma abs_less_bit_length: "\<bar>x\<bar> < 2 ^ nat (bit_length x)"
  using bit_length_bounds(1) [of x] by (cases "x = 0") auto

lemma and_high_mask:
  fixes x :: int
  assumes "0 \<le> x" and "x < 2 ^ n" and "k \<le> n"
  shows "x AND (push_bit n 1 - 1 - (push_bit k 1 - 1)) = x div 2 ^ k * 2 ^ k"
proof -
  have "push_bit n 1 - 1 - (push_bit k 1 - 1) = push_bit k (mask (n - k) :: int)"
    using assms(3) by (simp add: push_bit_eq_mult mask_eq_exp_minus_1 algebra_simps flip: power_add)
  also have "x AND \<dots> = push_bit k (take_bit (n - k) (drop_bit k x))"
    by (rule bit_eqI) (auto simp: bit_simps)
  also have "take_bit (n - k) (drop_bit k x) = drop_bit k x"
  proof -
    have "x < 2 ^ (n - k) * 2 ^ k" using assms(2,3) by (simp flip: power_add)
    moreover have "x div 2 ^ k * 2 ^ k \<le> x" by (simp add: minus_mod_eq_div_mult [symmetric])
    ultimately have "x div 2 ^ k * 2 ^ k < 2 ^ (n - k) * 2 ^ k" by linarith
    then have "drop_bit k x < 2 ^ (n - k)" by (simp add: drop_bit_eq_div)
    then show ?thesis using assms(1) by (simp add: take_bit_int_eq_self)
  qed
  finally show ?thesis by (simp add: push_bit_eq_mult drop_bit_eq_div)
qed

lemma truncate_value:
  assumes "0 \<le> n"
  shows "\<bar>truncate_to_significant_bits x n\<bar> =
    \<bar>x\<bar> div 2 ^ nat (bit_length x - n) * 2 ^ nat (bit_length x - n)"
proof (cases "n > bit_length x")
  case True
  then show ?thesis by (simp add: truncate_to_significant_bits_def bit_length_def)
next
  case False
  let ?v = "\<bar>x\<bar> div 2 ^ nat (bit_length x - n) * 2 ^ nat (bit_length x - n)"
  have v: "\<bar>x\<bar> AND (push_bit (nat (bit_length x)) 1 - 1 - (push_bit (nat (bit_length x - n)) 1 - 1)) = ?v"
    using assms False abs_less_bit_length [of x] by (intro and_high_mask) auto
  have len: "bit_length \<bar>x\<bar> = bit_length x" by (simp add: bit_length_def)
  have "truncate_to_significant_bits x n = (if x < 0 then - ?v else ?v)"
    unfolding truncate_to_significant_bits_def Let_def len v using False by simp
  moreover have "0 \<le> ?v" by (simp add: pos_imp_zdiv_nonneg_iff)
  ultimately show ?thesis by (metis abs_minus_cancel abs_of_nonneg)
qed

lemma count_from_le:
  assumes "\<And>i. i \<in> set is \<Longrightarrow> i < k \<Longrightarrow> \<not> bit x i" and "int k \<le> len"
  shows "count_from x len is \<le> len - int k"
  using assms
proof (induction "is")
  case (Cons i js)
  have "x AND push_bit i 1 > 0 \<Longrightarrow> bit x i"
    by (metis and_exp_eq_0_iff_not_bit less_irrefl push_bit_of_1)
  with Cons show ?case by (cases "i < k") auto
qed simp

lemma not_bit_below:
  assumes "(2 :: int) ^ k dvd z" and "i < k"
  shows "\<not> bit z i"
proof -
  have "take_bit k z = 0" using assms(1) by (simp add: take_bit_eq_0_iff)
  then have "\<not> bit (take_bit k z) i" by simp
  with assms(2) show ?thesis by (simp add: bit_take_bit_iff)
qed

lemma bit_length_mono: "\<bar>x\<bar> \<le> \<bar>y\<bar> \<Longrightarrow> bit_length x \<le> bit_length y"
proof -
  assume le: "\<bar>x\<bar> \<le> \<bar>y\<bar>"
  show ?thesis
  proof (cases "x = 0")
    case True
    then show ?thesis using bit_length_nonneg [of y] by (simp add: bit_length_def)
  next
    case False
    then have "(2 :: int) ^ nat (bit_length x - 1) < 2 ^ nat (bit_length y)"
      using bit_length_bounds(1) [OF False] abs_less_bit_length [of y] le by linarith
    then have "nat (bit_length x - 1) < nat (bit_length y)" by simp
    then show ?thesis by linarith
  qed
qed



section \<open>Signage and infusion points\<close>

definition sane_constants :: "ConsensusConstants \<Rightarrow> bool" where
  "sane_constants c \<longleftrightarrow>
     0 < NUM_SPS_SUB_SLOT c \<and> 0 \<le> NUM_SP_INTERVALS_EXTRA c \<and> NUM_SP_INTERVALS_EXTRA c < NUM_SPS_SUB_SLOT c"

lemma sp_interval_value:
  assumes "sane_constants c" and "ssi = i * NUM_SPS_SUB_SLOT c" and "0 \<le> i" and "ssi < 2 ^ 64"
  shows "calculate_sp_interval_iters c ssi = Inr i"
proof -
  have "i * 1 \<le> i * NUM_SPS_SUB_SLOT c" using assms(1,3) by (intro mult_left_mono) (auto simp: sane_constants_def)
  then have "i < 2 ^ 64" using assms(2,4) by simp
  with assms show ?thesis
    by (simp add: calculate_sp_interval_iters_def sane_constants_def uint64_value)
qed

lemma sp_interval_Inr:
  assumes "sane_constants c" and "calculate_sp_interval_iters c ssi = Inr i"
  shows "ssi = i * NUM_SPS_SUB_SLOT c" and "0 \<le> i"
  using assms by (auto simp: calculate_sp_interval_iters_def sane_constants_def uint64_value res_simps
      py_mod_def floor_div_def split: if_splits)

lemma ip_iters_parts:
  assumes "sane_constants c" and "calculate_ip_iters c ssi idx req = Inr ip" and "0 \<le> idx"
  obtains i where "ssi = i * NUM_SPS_SUB_SLOT c" and "0 < i" and "idx < NUM_SPS_SUB_SLOT c"
    and "calculate_sp_iters c ssi idx = Inr (i * idx)" and "req < i" and "req \<noteq> 0"
    and "ip = (i * idx + NUM_SP_INTERVALS_EXTRA c * i + req) mod ssi"
proof -
  from assms(2) obtain i where i: "calculate_sp_interval_iters c ssi = Inr i"
      "calculate_sp_iters c ssi idx = Inr (i * idx)" "idx < NUM_SPS_SUB_SLOT c" "i \<noteq> 0" "req < i" "req \<noteq> 0"
      "ip = (i * idx + NUM_SP_INTERVALS_EXTRA c * i + req) mod ssi"
    by (auto simp: calculate_ip_iters_def calculate_sp_iters_def res_simps py_mod_def uint64_value
        split: if_splits)
  have "0 < i" using sp_interval_Inr(2) [OF assms(1) i(1)] i(4) by simp
  with sp_interval_Inr(1) [OF assms(1) i(1)] i(2,3,5-7) show thesis by (intro that)
qed

text \<open>
  C28. The infusion point of a valid block lies strictly inside the sub-slot, and the block is an
  overflow block exactly when its infusion point comes before its signage point, that is, in the
  next sub-slot.
\<close>

theorem ip_iters_overflow:
  assumes "sane_constants c" and "0 \<le> idx" and "0 \<le> req"
    and "calculate_ip_iters c ssi idx req = Inr ip"
  shows "\<exists>sp. calculate_sp_iters c ssi idx = Inr sp \<and> 0 < ip \<and> ip < ssi \<and>
    is_overflow_block c idx = Inr (ip < sp) \<and>
    ip = (if ip < sp then sp + NUM_SP_INTERVALS_EXTRA c * (ssi div NUM_SPS_SUB_SLOT c) + req - ssi
          else sp + NUM_SP_INTERVALS_EXTRA c * (ssi div NUM_SPS_SUB_SLOT c) + req)"
proof -
  obtain i where i: "ssi = i * NUM_SPS_SUB_SLOT c" "0 < i" "idx < NUM_SPS_SUB_SLOT c"
    "calculate_sp_iters c ssi idx = Inr (i * idx)" "req < i" "req \<noteq> 0"
    "ip = (i * idx + NUM_SP_INTERVALS_EXTRA c * i + req) mod ssi"
    by (rule ip_iters_parts [OF assms(1,4,2)])
  let ?N = "NUM_SPS_SUB_SLOT c" and ?E = "NUM_SP_INTERVALS_EXTRA c"
  from assms(1) have c: "0 < ?N" "0 \<le> ?E" "?E < ?N" by (auto simp: sane_constants_def)
  have sum: "i * idx + ?E * i + req = i * (idx + ?E) + req" by (simp add: algebra_simps)
  have div: "ssi div ?N = i" using i(1) c(1) by simp
  show ?thesis
  proof (cases "idx < ?N - ?E")
    case True
    then have "i * (idx + ?E) \<le> i * (?N - 1)" using i(2) by (intro mult_left_mono) auto
    then have "i * (idx + ?E) + req < ssi" using i(1,5) by (simp add: algebra_simps)
    moreover have "0 \<le> i * (idx + ?E)" using i(2) c(2) assms(2) by simp
    ultimately have ip: "ip = i * (idx + ?E) + req" using i(7) assms(3) by (simp add: sum)
    have "0 \<le> i * ?E" using c(2) i(2) by simp
    then have "\<not> ip < i * idx" unfolding ip distrib_left using assms(3) by linarith
    moreover have "0 < ip" using ip i(2,6) assms(3) \<open>0 \<le> i * (idx + ?E)\<close> by linarith
    moreover have "is_overflow_block c idx = Inr False" using True i(3) by (simp add: is_overflow_block_def)
    ultimately show ?thesis
      using i(4) ip \<open>i * (idx + ?E) + req < ssi\<close> by (auto simp: div algebra_simps)
  next
    case False
    let ?r = "i * (idx + ?E - ?N) + req"
    have "0 \<le> i * (idx + ?E - ?N)" using False i(2) by simp
    have "i * (idx + ?E - ?N) \<le> i * (idx - 1)" using i(2) c(3) by (intro mult_left_mono) auto
    then have r: "?r < i * idx" using i(5) by (simp add: algebra_simps)
    have "i * idx \<le> ssi" using i(1-3) by (simp add: mult_left_mono)
    then have "?r < ssi" using r by linarith
    have "i * (idx + ?E) + req = ?r + ssi" using i(1) by (simp add: algebra_simps)
    then have "ip = (?r + ssi) mod ssi" using i(7) by (simp only: sum)
    then have ip: "ip = ?r"
      using \<open>?r < ssi\<close> \<open>0 \<le> i * (idx + ?E - ?N)\<close> assms(3) by simp
    have "is_overflow_block c idx = Inr True" using False i(3) by (simp add: is_overflow_block_def)
    moreover have "0 < ip" using ip i(6) assms(3) \<open>0 \<le> i * (idx + ?E - ?N)\<close> by linarith
    ultimately show ?thesis
      using i(1,4) ip r \<open>?r < ssi\<close> by (auto simp: div algebra_simps)
  qed
qed

theorem ip_iters_overflow_witness:
  "\<exists>sp. calculate_sp_iters DEFAULT_CONSTANTS (2 ^ 27) 62 = Inr sp \<and> 0 < (2097157 :: int) \<and>
    (2097157 :: int) < 2 ^ 27 \<and> is_overflow_block DEFAULT_CONSTANTS 62 = Inr (2097157 < sp) \<and>
    2097157 = (if 2097157 < sp
       then sp + NUM_SP_INTERVALS_EXTRA DEFAULT_CONSTANTS * (2 ^ 27 div NUM_SPS_SUB_SLOT DEFAULT_CONSTANTS) + 5 - 2 ^ 27
       else sp + NUM_SP_INTERVALS_EXTRA DEFAULT_CONSTANTS * (2 ^ 27 div NUM_SPS_SUB_SLOT DEFAULT_CONSTANTS) + 5)"
  by (rule ip_iters_overflow)
    (simp_all add: sane_constants_def calculate_ip_iters_def calculate_sp_iters_def
      calculate_sp_interval_iters_def uint64_value DEFAULT_CONSTANTS_def)

section \<open>Iterations of a proof of space\<close>

lemma iterations_quality_bounds:
  assumes "calculate_iterations_quality std_hash f q k d sp = Inr iters"
  shows "1 \<le> iters \<and> iters < 2 ^ 64"
  using assms by (auto simp: calculate_iterations_quality_def Let_def res_simps uint64_value split: if_splits)

lemma plot_size_pos:
  assumes "1 \<le> k"
  shows "int_of_float (expected_plot_size k) = (2 * k + 1) * 2 ^ nat (k - 1)"
proof -
  have "expected_plot_size k = of_int ((2 * k + 1) * 2 ^ nat (k - 1))"
    using assms by (simp add: expected_plot_size_def pow2_def)
  then show ?thesis by (simp only: int_of_float_of_int)
qed

text \<open>
  C33. The iterations of a proof of space are at least one, fit into 64 bits and never decrease when
  the difficulty grows.
\<close>

theorem iterations_quality_mono:
  assumes "0 \<le> f" and "1 \<le> k" and "0 \<le> d" and "d \<le> d'"
    and "calculate_iterations_quality std_hash f q k d sp = Inr iters"
    and "calculate_iterations_quality std_hash f q k d' sp = Inr iters'"
  shows "1 \<le> iters \<and> iters \<le> iters' \<and> iters' < 2 ^ 64"
proof -
  let ?h = "be_int (std_hash (q @ sp))" and ?m = "2 ^ 256 * ((2 * k + 1) * 2 ^ nat (k - 1))"
  have m: "0 < ?m" using assms(2) by simp
  have "int_of_float d \<le> int_of_float d'" using assms(3,4) by (simp add: int_of_float_def floor_mono)
  then have "int_of_float d * f * ?h div ?m \<le> int_of_float d' * f * ?h div ?m"
    using assms(1) be_int_nonneg m by (intro zdiv_mono1 mult_right_mono) auto
  with assms(2,5,6) m have "iters \<le> iters'"
    by (auto simp: calculate_iterations_quality_def plot_size_pos Let_def res_simps uint64_value floor_div_def
        split: if_splits)
  with iterations_quality_bounds [OF assms(5)] iterations_quality_bounds [OF assms(6)] show ?thesis
    by simp
qed

theorem iterations_quality_mono_witness:
  "1 \<le> (1 :: int) \<and> (1 :: int) \<le> 28230 \<and> (28230 :: int) < 2 ^ 64"
  by (rule iterations_quality_mono [where f = "2 ^ 57" and k = 32 and d = "of_int 0" and d' = "of_int 7"
        and q = "[]" and sp = "[]" and std_hash = "\<lambda>m. be_bytes 32 (2 ^ 248)"])
    (simp_all add: calculate_iterations_quality_def plot_size_pos uint64_value be_int_be_bytes Let_def
      del: of_int_numeral of_int_0)

section \<open>Reward coins\<close>

lemma be_bytes_inject:
  assumes "0 \<le> v" and "v < 256 ^ k" and "0 \<le> w" and "w < 256 ^ k"
  shows "be_bytes k v = be_bytes k w \<longleftrightarrow> v = w"
  using assms be_int_be_bytes [of k v] be_int_be_bytes [of k w] by (metis mod_pos_pos_trivial)

lemma parent_id_values:
  assumes "length g = 32" and "0 \<le> h" and "h < 2 ^ 128"
  shows "pool_parent_id h g = Inr (take 16 g @ be_bytes 16 h)"
    and "farmer_parent_id h g = Inr (drop 16 g @ be_bytes 16 h)"
  using assms by (simp_all add: pool_parent_id_def farmer_parent_id_def to_bytes_def int_range_def sized_bytes_def)

text \<open>
  C35. Reward coins of different blocks have different parents, and a pool reward never shares its
  parent with a farmer reward, provided the halves of the genesis challenge differ.
\<close>

theorem reward_parents_distinct:
  assumes "length g = 32" and "take 16 g \<noteq> drop 16 g"
    and "0 \<le> h" and "h < 2 ^ 128" and "0 \<le> h'" and "h' < 2 ^ 128"
  shows "\<exists>p f p' f'. pool_parent_id h g = Inr p \<and> farmer_parent_id h g = Inr f \<and>
    pool_parent_id h' g = Inr p' \<and> farmer_parent_id h' g = Inr f' \<and>
    (p = p' \<longleftrightarrow> h = h') \<and> (f = f' \<longleftrightarrow> h = h') \<and> p \<noteq> f'"
proof -
  have "be_bytes 16 h = be_bytes 16 h' \<longleftrightarrow> h = h'"
    using assms by (intro be_bytes_inject) simp_all
  with assms show ?thesis by (simp add: parent_id_values)
qed

theorem reward_parents_distinct_witness:
  "\<exists>p f p' f'. pool_parent_id 5 (replicate 16 3 @ replicate 16 4) = Inr p \<and>
    farmer_parent_id 5 (replicate 16 3 @ replicate 16 4) = Inr f \<and>
    pool_parent_id 6 (replicate 16 3 @ replicate 16 4) = Inr p' \<and>
    farmer_parent_id 6 (replicate 16 3 @ replicate 16 4) = Inr f' \<and>
    (p = p' \<longleftrightarrow> (5 :: int) = 6) \<and> (f = f' \<longleftrightarrow> (5 :: int) = 6) \<and> p \<noteq> f'"
  by (rule reward_parents_distinct) simp_all

end
