(* ===== verification/Gold_Streamable.thy ===== *)
theory Gold_Streamable
  imports Gold_Ints
begin

text \<open>
  The serialisation format of \<^verbatim>\<open>src/chia/util/streamable.py\<close>. The annotations of the fields of a
  streamable class are values of the datatype \<open>stype\<close>; the objects are values of \<open>sval\<close>. A class is
  the tuple of its fields: both are written and read field by field.

  A \<^verbatim>\<open>str\<close> is represented by its UTF-8 encoding, so decoding is a check. Whether the bytes of a
  BLS key or signature are a point of the curve is decided by the third-party BLS library: it is
  the parameter \<open>ok\<close>, applied to the size hint and the bytes.
\<close>

section \<open>Types and values\<close>

datatype stype =
    TInt pack
  | TUint128
  | TInt512
  | TBool
  | TSized nat
  | TBytes
  | TStr
  | TPoint nat
  | TOptional stype
  | TList stype
  | TTuple "stype list"

datatype sval =
    VInt int
  | VBool bool
  | VBytes bytes
  | VNone
  | VSome sval
  | VList "sval list"
  | VTuple "sval list"

text \<open>The well formed UTF-8 sequences (shortest form, no surrogates, at most U+10FFFF).\<close>

definition cont_byte :: "byte \<Rightarrow> bool" where
  "cont_byte b = (0x80 \<le> b \<and> b \<le> 0xBF)"

fun utf8_valid :: "bytes \<Rightarrow> bool" where
  "utf8_valid [] = True"
| "utf8_valid (a # r) =
     (if a \<le> 0x7F then utf8_valid r
      else if 0xC2 \<le> a \<and> a \<le> 0xDF then
        (case r of b # r' \<Rightarrow> cont_byte b \<and> utf8_valid r' | [] \<Rightarrow> False)
      else if 0xE0 \<le> a \<and> a \<le> 0xEF then
        (case r of b # c # r' \<Rightarrow>
           cont_byte b \<and> cont_byte c \<and> (a = 0xE0 \<longrightarrow> 0xA0 \<le> b) \<and> (a = 0xED \<longrightarrow> b \<le> 0x9F) \<and> utf8_valid r'
         | _ \<Rightarrow> False)
      else if 0xF0 \<le> a \<and> a \<le> 0xF4 then
        (case r of b # c # d # r' \<Rightarrow>
           cont_byte b \<and> cont_byte c \<and> cont_byte d \<and> (a = 0xF0 \<longrightarrow> 0x90 \<le> b) \<and>
           (a = 0xF4 \<longrightarrow> b \<le> 0x8F) \<and> utf8_valid r'
         | _ \<Rightarrow> False)
      else False)"

section \<open>Reading\<close>

definition parse_bool :: "bytes \<Rightarrow> (bool \<times> bytes) res" where
  "parse_bool f =
     (let bool_byte = take 1 f in
      rbind (py_assert (length bool_byte = 1)) (\<lambda>_.
      if bool_byte = [0] then Inr (False, drop 1 f)
      else if bool_byte = [1] then Inr (True, drop 1 f)
      else Inl ValueError))"

definition parse_uint32 :: "bytes \<Rightarrow> (int \<times> bytes) res" where
  "parse_uint32 f =
     (let size_bytes = take 4 f in
      rbind (py_assert (length size_bytes = 4)) (\<lambda>_.
      rbind (uint32 (int_of_be False size_bytes)) (\<lambda>v. Inr (v, drop 4 f))))"

definition parse_optional :: "(bytes \<Rightarrow> (sval \<times> bytes) res) \<Rightarrow> bytes \<Rightarrow> (sval \<times> bytes) res" where
  "parse_optional parse_inner f =
     (let is_present_bytes = take 1 f in
      rbind (py_assert (length is_present_bytes = 1)) (\<lambda>_.
      if is_present_bytes = [0] then Inr (VNone, drop 1 f)
      else if is_present_bytes = [1] then
        rbind (parse_inner (drop 1 f)) (\<lambda>(v, r). Inr (VSome v, r))
      else Inl ValueError))"

definition parse_sized :: "nat \<Rightarrow> bytes \<Rightarrow> (bytes \<times> bytes) res" where
  "parse_sized n f =
     (let b = take n f in rbind (py_assert (length b = n)) (\<lambda>_. Inr (b, drop n f)))"

definition parse_bytes :: "bytes \<Rightarrow> (bytes \<times> bytes) res" where
  "parse_bytes f = rbind (parse_uint32 f) (\<lambda>(n, r). parse_sized (nat n) r)"

definition parse_str :: "bytes \<Rightarrow> (bytes \<times> bytes) res" where
  "parse_str f =
     rbind (parse_uint32 f) (\<lambda>(n, r).
     rbind (parse_sized (nat n) r) (\<lambda>(s, r').
     if utf8_valid s then Inr (s, r') else Inl ValueError))"

definition parse_size_hints :: "(nat \<Rightarrow> bytes \<Rightarrow> bool) \<Rightarrow> nat \<Rightarrow> bytes \<Rightarrow> (bytes \<times> bytes) res" where
  "parse_size_hints ok n f =
     rbind (parse_sized n f) (\<lambda>(b, r). if ok n b then Inr (b, r) else Inl ValueError)"

fun parse_n :: "(bytes \<Rightarrow> ('a \<times> bytes) res) \<Rightarrow> nat \<Rightarrow> bytes \<Rightarrow> ('a list \<times> bytes) res" where
  "parse_n p 0 f = Inr ([], f)"
| "parse_n p (Suc n) f =
     rbind (p f) (\<lambda>(v, r). rbind (parse_n p n r) (\<lambda>(vs, r'). Inr (v # vs, r')))"

definition parse_list :: "(bytes \<Rightarrow> (sval \<times> bytes) res) \<Rightarrow> bytes \<Rightarrow> (sval \<times> bytes) res" where
  "parse_list parse_inner f =
     rbind (parse_uint32 f) (\<lambda>(n, r).
     rbind (parse_n parse_inner (nat n) r) (\<lambda>(vs, r'). Inr (VList vs, r')))"

definition rwrap :: "('a \<Rightarrow> sval) \<Rightarrow> ('a \<times> bytes) res \<Rightarrow> (sval \<times> bytes) res" where
  "rwrap c m = rbind m (\<lambda>(v, r). Inr (c v, r))"

fun parse_one_item :: "(nat \<Rightarrow> bytes \<Rightarrow> bool) \<Rightarrow> stype \<Rightarrow> bytes \<Rightarrow> (sval \<times> bytes) res"
and parse_tuple :: "(nat \<Rightarrow> bytes \<Rightarrow> bool) \<Rightarrow> stype list \<Rightarrow> bytes \<Rightarrow> (sval list \<times> bytes) res" where
  "parse_one_item ok TBool f = rwrap VBool (parse_bool f)"
| "parse_one_item ok (TOptional t) f = parse_optional (\<lambda>g. parse_one_item ok t g) f"
| "parse_one_item ok (TInt p) f = rwrap VInt (struct_parse p f)"
| "parse_one_item ok TUint128 f = rwrap VInt (uint128_parse f)"
| "parse_one_item ok TInt512 f = rwrap VInt (int512_parse f)"
| "parse_one_item ok (TSized n) f = rwrap VBytes (parse_sized n f)"
| "parse_one_item ok TBytes f = rwrap VBytes (parse_bytes f)"
| "parse_one_item ok (TList t) f = parse_list (\<lambda>g. parse_one_item ok t g) f"
| "parse_one_item ok (TTuple ts) f = rwrap VTuple (parse_tuple ok ts f)"
| "parse_one_item ok (TPoint n) f = rwrap VBytes (parse_size_hints ok n f)"
| "parse_one_item ok TStr f = rwrap VBytes (parse_str f)"
| "parse_tuple ok [] f = Inr ([], f)"
| "parse_tuple ok (t # ts) f =
     rbind (parse_one_item ok t f) (\<lambda>(v, r). rbind (parse_tuple ok ts r) (\<lambda>(vs, r'). Inr (v # vs, r')))"

definition streamable_from_bytes :: "(nat \<Rightarrow> bytes \<Rightarrow> bool) \<Rightarrow> stype \<Rightarrow> bytes \<Rightarrow> sval res" where
  "streamable_from_bytes ok t blob =
     rbind (parse_one_item ok t blob) (\<lambda>(v, r). rbind (py_assert (r = [])) (\<lambda>_. Inr v))"

section \<open>Writing\<close>

definition write_uint32 :: "int \<Rightarrow> bytes res" where
  "write_uint32 v = rbind (uint32 v) (to_bytes 4 False)"

text \<open>A value of the wrong shape for its annotation has no attribute the code looks for.\<close>

fun stream_all :: "(sval \<Rightarrow> bytes res) \<Rightarrow> sval list \<Rightarrow> bytes res" where
  "stream_all s [] = Inr []"
| "stream_all s (v # vs) = rbind (s v) (\<lambda>b. rbind (stream_all s vs) (\<lambda>bs. Inr (b @ bs)))"

definition stream_prefixed :: "bytes \<Rightarrow> bytes res" where
  "stream_prefixed b = rbind (write_uint32 (int (length b))) (\<lambda>n. Inr (n @ b))"

fun stream_one_item :: "stype \<Rightarrow> sval \<Rightarrow> bytes res"
and stream_fields :: "stype list \<Rightarrow> sval list \<Rightarrow> bytes res" where
  "stream_one_item (TOptional t) v =
     (case v of
        VNone \<Rightarrow> Inr [0]
      | VSome w \<Rightarrow> rbind (stream_one_item t w) (\<lambda>b. Inr ([1] @ b))
      | _ \<Rightarrow> Inl TypeError)"
| "stream_one_item TBytes v = (case v of VBytes b \<Rightarrow> stream_prefixed b | _ \<Rightarrow> Inl TypeError)"
| "stream_one_item (TInt p) v = (case v of VInt n \<Rightarrow> struct_stream p n | _ \<Rightarrow> Inl TypeError)"
| "stream_one_item TUint128 v = (case v of VInt n \<Rightarrow> uint128_stream n | _ \<Rightarrow> Inl TypeError)"
| "stream_one_item TInt512 v = (case v of VInt n \<Rightarrow> int512_stream n | _ \<Rightarrow> Inl TypeError)"
| "stream_one_item (TSized n) v = (case v of VBytes b \<Rightarrow> Inr b | _ \<Rightarrow> Inl TypeError)"
| "stream_one_item (TPoint n) v = (case v of VBytes b \<Rightarrow> Inr b | _ \<Rightarrow> Inl TypeError)"
| "stream_one_item (TList t) v =
     (case v of
        VList vs \<Rightarrow> rbind (write_uint32 (int (length vs))) (\<lambda>n.
          rbind (stream_all (\<lambda>w. stream_one_item t w) vs) (\<lambda>b. Inr (n @ b)))
      | _ \<Rightarrow> Inl AssertionError)"
| "stream_one_item (TTuple ts) v =
     (case v of
        VTuple vs \<Rightarrow> rbind (py_assert (length vs = length ts)) (\<lambda>_. stream_fields ts vs)
      | _ \<Rightarrow> Inl TypeError)"
| "stream_one_item TStr v = (case v of VBytes b \<Rightarrow> stream_prefixed b | _ \<Rightarrow> Inl TypeError)"
| "stream_one_item TBool v = (case v of VBool b \<Rightarrow> Inr [if b then 1 else 0] | _ \<Rightarrow> Inl TypeError)"
| "stream_fields [] vs = Inr []"
| "stream_fields (t # ts) vs =
     (case vs of
        [] \<Rightarrow> Inr []
      | w # ws \<Rightarrow> rbind (stream_one_item t w) (\<lambda>b. rbind (stream_fields ts ws) (\<lambda>bs. Inr (b @ bs))))"

text \<open>The hash that identifies an object.\<close>

definition streamable_hash :: "(bytes \<Rightarrow> bytes) \<Rightarrow> stype \<Rightarrow> sval \<Rightarrow> bytes res" where
  "streamable_hash std_hash t v = rbind (stream_one_item t v) (\<lambda>b. Inr (std_hash b))"

end
