(* ===== verification/Gold_Streamable_Correct.thy ===== *)
theory Gold_Streamable_Correct
  imports Gold_Streamable
begin

text \<open>
  Reading inverts writing, for every annotation: a value of the type is written to bytes that are
  read back with any continuation, and whatever is read is a value of the type whose bytes are the
  ones that were consumed. So the encoding is canonical and prefix free, which is what makes the
  hash of the bytes an identity of the object.
\<close>

section \<open>Codecs\<close>

locale codec =
  fixes parse :: "bytes \<Rightarrow> ('v \<times> bytes) res"
    and stream :: "'v \<Rightarrow> bytes res"
    and dom :: "'v \<Rightarrow> bool"
  assumes complete: "dom v \<Longrightarrow> \<exists>bs. stream v = Inr bs \<and> (\<forall>rest. parse (bs @ rest) = Inr (v, rest))"
    and sound: "parse f = Inr (v, rest) \<Longrightarrow> dom v \<and> (\<exists>bs. stream v = Inr bs \<and> f = bs @ rest)"
begin

lemma parse_iff:
  "parse f = Inr (v, rest) \<longleftrightarrow> dom v \<and> (\<exists>bs. stream v = Inr bs \<and> f = bs @ rest)"
proof
  assume "dom v \<and> (\<exists>bs. stream v = Inr bs \<and> f = bs @ rest)"
  then show "parse f = Inr (v, rest)" using complete [of v] by auto
qed (rule sound)

lemma stream_prefix_free:
  assumes "dom v" and "dom w" and "stream v = Inr a" and "stream w = Inr b" and "a @ x = b @ y"
  shows "v = w \<and> x = y"
proof -
  from assms have "parse (a @ x) = Inr (v, x)" "parse (b @ y) = Inr (w, y)" using parse_iff by blast+
  with assms(5) show ?thesis by simp
qed

lemma stream_inject:
  assumes "dom v" and "dom w" and "stream v = stream w"
  shows "v = w"
proof -
  obtain bs where "stream v = Inr bs" using complete [OF assms(1)] by blast
  moreover from this assms(3) have "stream w = Inr bs" by simp
  ultimately show ?thesis using stream_prefix_free [OF assms(1,2)] by blast
qed

end

lemma codecI:
  assumes "\<And>v. D v \<Longrightarrow> \<exists>bs. S v = Inr bs \<and> (\<forall>rest. P (bs @ rest) = Inr (v, rest))"
    and "\<And>f v rest. P f = Inr (v, rest) \<Longrightarrow> D v \<and> (\<exists>bs. S v = Inr bs \<and> f = bs @ rest)"
  shows "codec P S D"
  by (rule codec.intro) (fact assms)+

lemmas codecD = codec.complete codec.sound

section \<open>The primitives\<close>

lemma codec_struct: "codec (struct_parse p) (struct_stream p) (\<lambda>v. int_range (pack_signed p) (calcsize p) v)"
proof (rule codecI)
  fix v assume r: "int_range (pack_signed p) (calcsize p) v"
  then have "struct_stream p v = Inr (be_bytes (calcsize p) v)"
    by (simp add: struct_stream_def struct_pack_def)
  then show "\<exists>bs. struct_stream p v = Inr bs \<and> (\<forall>rest. struct_parse p (bs @ rest) = Inr (v, rest))"
    using struct_parse_stream by blast
next
  fix f v rest assume "struct_parse p f = Inr (v, rest)"
  then obtain bs where "struct_stream p v = Inr bs" "f = bs @ rest" using struct_stream_parse by blast
  then show "int_range (pack_signed p) (calcsize p) v \<and> (\<exists>bs. struct_stream p v = Inr bs \<and> f = bs @ rest)"
    by (auto simp: struct_stream_def struct_pack_def simp del: pack_signed.simps split: if_splits)
qed

lemma codec_uint128: "codec uint128_parse uint128_stream (\<lambda>v. 0 \<le> v \<and> v < 2 ^ 128)"
proof (rule codecI)
  fix v :: int assume "0 \<le> v \<and> v < 2 ^ 128"
  then have "uint128_stream v = Inr (be_bytes 16 v)"
    by (simp add: uint128_stream_def to_bytes_def int_range_def)
  then show "\<exists>bs. uint128_stream v = Inr bs \<and> (\<forall>rest. uint128_parse (bs @ rest) = Inr (v, rest))"
    using uint128_parse_stream by blast
next
  fix f v rest assume "uint128_parse f = Inr (v, rest)"
  then obtain bs where "uint128_stream v = Inr bs" "f = bs @ rest" using uint128_stream_parse by blast
  then show "(0 \<le> v \<and> v < 2 ^ 128) \<and> (\<exists>bs. uint128_stream v = Inr bs \<and> f = bs @ rest)"
    by (auto simp: uint128_stream_def res_simps)
qed

lemma int512_stream_parse:
  assumes "int512_parse f = Inr (v, rest)"
  shows "\<exists>bs. int512_stream v = Inr bs \<and> f = bs @ rest"
proof -
  let ?r = "take 65 f"
  from assms have len: "length ?r = 65" and v: "v = int_of_be True ?r" "rest = drop 65 f"
    and range: "v < 2 ^ 512" "v > - (2 ^ 512)"
    by (auto simp: int512_parse_def int512_def res_simps Let_def split: if_splits)
  have "?r \<noteq> []" using len by force
  then have r: "int_range True 65 v" using int_range_int_of_be [of ?r True] len v(1) by simp
  have "be_bytes 65 v = ?r" using be_bytes_int_of_be [of ?r True] len v(1) by simp
  then have "int512_stream v = Inr ?r"
    using r range by (simp add: int512_stream_def to_bytes_def)
  with v(2) show ?thesis by (metis append_take_drop_id)
qed

lemma codec_int512: "codec int512_parse int512_stream (\<lambda>v. - (2 ^ 512) < v \<and> v < 2 ^ 512)"
proof (rule codecI)
  fix v :: int assume "- (2 ^ 512) < v \<and> v < 2 ^ 512"
  then have "int512 v = Inr v" by (simp add: int512_def)
  then show "\<exists>bs. int512_stream v = Inr bs \<and> (\<forall>rest. int512_parse (bs @ rest) = Inr (v, rest))"
    using int512_stream_total int512_parse_stream by blast
next
  fix f v rest assume "int512_parse f = Inr (v, rest)"
  then obtain bs where "int512_stream v = Inr bs" "f = bs @ rest" using int512_stream_parse by blast
  then show "(- (2 ^ 512) < v \<and> v < 2 ^ 512) \<and> (\<exists>bs. int512_stream v = Inr bs \<and> f = bs @ rest)"
    by (auto simp: int512_stream_def res_simps)
qed

lemma take1_cases: "length (take 1 f) = 1 \<Longrightarrow> \<exists>b r. f = b # r"
  by (cases f) auto

lemma codec_bool: "codec parse_bool (\<lambda>b. Inr [if b then 1 else 0]) (\<lambda>b. True)"
proof (rule codecI)
  fix f v rest assume p: "parse_bool f = Inr (v, rest)"
  then obtain b r where f: "f = b # r" by (cases f) (auto simp: parse_bool_def)
  with p show "True \<and> (\<exists>bs. Inr [if v then 1 else 0] = Inr bs \<and> f = bs @ rest)"
    by (auto simp: parse_bool_def split: if_splits)
qed (simp add: parse_bool_def)

lemma write_uint32_ok: "0 \<le> n \<Longrightarrow> n < 2 ^ 32 \<Longrightarrow> write_uint32 n = Inr (be_bytes 4 n)"
  by (simp add: write_uint32_def uint32_value to_bytes_def int_range_def)

lemma codec_uint32: "codec parse_uint32 write_uint32 (\<lambda>n. 0 \<le> n \<and> n < 2 ^ 32)"
proof (rule codecI)
  fix v :: int assume v: "0 \<le> v \<and> v < 2 ^ 32"
  then have "int_of_be False (be_bytes 4 v) = v" by (intro int_of_be_be_bytes) (simp_all add: int_range_def)
  with v show "\<exists>bs. write_uint32 v = Inr bs \<and> (\<forall>rest. parse_uint32 (bs @ rest) = Inr (v, rest))"
    by (simp add: write_uint32_ok parse_uint32_def uint32_value Let_def)
next
  fix f v rest assume p: "parse_uint32 f = Inr (v, rest)"
  let ?r = "take 4 f"
  from p have len: "length ?r = 4" and v: "v = int_of_be False ?r" "rest = drop 4 f" "0 \<le> v" "v < 2 ^ 32"
    by (auto simp: parse_uint32_def uint32_value res_simps Let_def split: if_splits)
  have "be_bytes 4 v = ?r" using be_bytes_int_of_be [of ?r False] len v(1) by simp
  with v show "(0 \<le> v \<and> v < 2 ^ 32) \<and> (\<exists>bs. write_uint32 v = Inr bs \<and> f = bs @ rest)"
    by (simp add: write_uint32_ok)
qed

lemma codec_sized: "codec (parse_sized n) (\<lambda>b. Inr b) (\<lambda>b. length b = n)"
  by (rule codecI) (auto simp: parse_sized_def Let_def res_simps)

lemma codec_point: "codec (parse_size_hints ok n) (\<lambda>b. Inr b) (\<lambda>b. length b = n \<and> ok n b)"
  by (rule codecI) (auto simp: parse_size_hints_def parse_sized_def Let_def res_simps split: if_splits)

lemma codec_prefixed:
  "codec parse_bytes stream_prefixed (\<lambda>b. int (length b) < 2 ^ 32)"
proof (rule codecI)
  fix b :: bytes assume len: "int (length b) < 2 ^ 32"
  then obtain n where n: "write_uint32 (int (length b)) = Inr n"
    "\<And>rest. parse_uint32 (n @ rest) = Inr (int (length b), rest)"
    using codec.complete [OF codec_uint32, of "int (length b)"] by auto
  then show "\<exists>bs. stream_prefixed b = Inr bs \<and> (\<forall>rest. parse_bytes (bs @ rest) = Inr (b, rest))"
    by (simp add: stream_prefixed_def parse_bytes_def parse_sized_def Let_def)
next
  fix f b rest assume p: "parse_bytes f = Inr (b, rest)"
  then obtain n r where n: "parse_uint32 f = Inr (n, r)" and b: "parse_sized (nat n) r = Inr (b, rest)"
    by (auto simp: parse_bytes_def res_simps)
  from codec.sound [OF codec_uint32 n] obtain h where h: "0 \<le> n" "n < 2 ^ 32" "write_uint32 n = Inr h" "f = h @ r"
    by blast
  from codec.sound [OF codec_sized b] have "length b = nat n" "r = b @ rest" by auto
  with h show "int (length b) < 2 ^ 32 \<and> (\<exists>bs. stream_prefixed b = Inr bs \<and> f = bs @ rest)"
    by (simp add: stream_prefixed_def)
qed

lemma parse_str_alt:
  "parse_str f = rbind (parse_bytes f) (\<lambda>(s, r). if utf8_valid s then Inr (s, r) else Inl ValueError)"
  by (simp add: parse_str_def parse_bytes_def rbind_assoc split_def)

lemma codec_str: "codec parse_str stream_prefixed (\<lambda>b. int (length b) < 2 ^ 32 \<and> utf8_valid b)"
proof (rule codecI)
  fix b assume "int (length b) < 2 ^ 32 \<and> utf8_valid b"
  with codec.complete [OF codec_prefixed, of b]
  show "\<exists>bs. stream_prefixed b = Inr bs \<and> (\<forall>rest. parse_str (bs @ rest) = Inr (b, rest))"
    by (auto simp: parse_str_alt)
next
  fix f b rest assume "parse_str f = Inr (b, rest)"
  then have "parse_bytes f = Inr (b, rest)" "utf8_valid b"
    by (auto simp: parse_str_alt res_simps split: if_splits)
  with codec.sound [OF codec_prefixed] show "(int (length b) < 2 ^ 32 \<and> utf8_valid b) \<and>
      (\<exists>bs. stream_prefixed b = Inr bs \<and> f = bs @ rest)" by blast
qed

section \<open>Composites\<close>

lemma codec_optional:
  assumes "codec P S D"
  shows "codec (parse_optional P)
    (\<lambda>v. case v of VNone \<Rightarrow> Inr [0] | VSome w \<Rightarrow> rbind (S w) (\<lambda>b. Inr ([1] @ b)) | _ \<Rightarrow> Inl TypeError)
    (\<lambda>v. case v of VNone \<Rightarrow> True | VSome w \<Rightarrow> D w | _ \<Rightarrow> False)"
    (is "codec ?P ?S ?D")
proof (rule codecI)
  fix v assume "?D v"
  with codec.complete [OF assms] show "\<exists>bs. ?S v = Inr bs \<and> (\<forall>rest. ?P (bs @ rest) = Inr (v, rest))"
    by (cases v) (fastforce simp: parse_optional_def)+
next
  fix f v rest assume p: "?P f = Inr (v, rest)"
  then obtain b r where "f = b # r" by (cases f) (auto simp: parse_optional_def)
  with p consider "f = 0 # rest" "v = VNone" | w where "f = 1 # r" "P r = Inr (w, rest)" "v = VSome w"
    by (auto simp: parse_optional_def res_simps split: if_splits)
  then show "?D v \<and> (\<exists>bs. ?S v = Inr bs \<and> f = bs @ rest)"
    by cases (use codec.sound [OF assms] in fastforce)+
qed

lemma codec_n:
  assumes "codec P S D"
  shows "codec (parse_n P n) (stream_all S) (\<lambda>vs. length vs = n \<and> (\<forall>v \<in> set vs. D v))"
proof (induction n)
  case 0
  show ?case by (rule codecI) auto
next
  case (Suc n)
  show ?case
  proof (rule codecI)
    fix vs assume "length vs = Suc n \<and> (\<forall>v \<in> set vs. D v)"
    then obtain w ws where vs: "vs = w # ws" "D w" "length ws = n" "\<forall>v \<in> set ws. D v"
      by (cases vs) auto
    obtain a where "S w = Inr a" "\<And>rest. P (a @ rest) = Inr (w, rest)"
      using codec.complete [OF assms vs(2)] by blast
    moreover obtain b where "stream_all S ws = Inr b" "\<And>rest. parse_n P n (b @ rest) = Inr (ws, rest)"
      using codec.complete [OF Suc.IH, of ws] vs(3,4) by blast
    ultimately show "\<exists>bs. stream_all S vs = Inr bs \<and> (\<forall>rest. parse_n P (Suc n) (bs @ rest) = Inr (vs, rest))"
      by (simp add: vs(1))
  next
    fix f vs rest assume "parse_n P (Suc n) f = Inr (vs, rest)"
    then obtain w r ws where w: "P f = Inr (w, r)" and ws: "parse_n P n r = Inr (ws, rest)" and vs: "vs = w # ws"
      by (auto simp: res_simps)
    from codec.sound [OF assms w] codec.sound [OF Suc.IH ws] vs
    show "(length vs = Suc n \<and> (\<forall>v \<in> set vs. D v)) \<and> (\<exists>bs. stream_all S vs = Inr bs \<and> f = bs @ rest)"
      by auto
  qed
qed

lemma codec_list:
  assumes "codec P S D"
  shows "codec (parse_list P)
    (\<lambda>v. case v of VList vs \<Rightarrow> rbind (write_uint32 (int (length vs))) (\<lambda>n.
        rbind (stream_all S vs) (\<lambda>b. Inr (n @ b))) | _ \<Rightarrow> Inl AssertionError)
    (\<lambda>v. case v of VList vs \<Rightarrow> int (length vs) < 2 ^ 32 \<and> (\<forall>w \<in> set vs. D w) | _ \<Rightarrow> False)"
    (is "codec ?P ?S ?D")
proof (rule codecI)
  fix v assume "?D v"
  then obtain vs where v: "v = VList vs" "int (length vs) < 2 ^ 32" "\<forall>w \<in> set vs. D w" by (cases v) auto
  obtain h where "write_uint32 (int (length vs)) = Inr h"
    "\<And>rest. parse_uint32 (h @ rest) = Inr (int (length vs), rest)"
    using codec.complete [OF codec_uint32, of "int (length vs)"] v(2) by auto
  moreover obtain b where "stream_all S vs = Inr b"
    "\<And>rest. parse_n P (length vs) (b @ rest) = Inr (vs, rest)"
    using codec.complete [OF codec_n [OF assms], of vs "length vs"] v(3) by auto
  ultimately show "\<exists>bs. ?S v = Inr bs \<and> (\<forall>rest. ?P (bs @ rest) = Inr (v, rest))"
    by (simp add: v(1) parse_list_def)
next
  fix f v rest assume "?P f = Inr (v, rest)"
  then obtain n r vs where n: "parse_uint32 f = Inr (n, r)" and vs: "parse_n P (nat n) r = Inr (vs, rest)"
    and v: "v = VList vs" by (auto simp: parse_list_def res_simps)
  from codec.sound [OF codec_uint32 n] obtain h where h: "0 \<le> n" "n < 2 ^ 32" "write_uint32 n = Inr h" "f = h @ r"
    by blast
  from codec.sound [OF codec_n [OF assms] vs] h v
  show "?D v \<and> (\<exists>bs. ?S v = Inr bs \<and> f = bs @ rest)" by auto
qed

lemma codec_wrap:
  assumes "codec P S D" and "\<And>x y. c x = c y \<Longrightarrow> x = y"
    and "\<And>x. S' (c x) = S x" and "\<And>x. D' (c x) = D x" and "\<And>v. D' v \<Longrightarrow> \<exists>x. v = c x"
  shows "codec (\<lambda>f. rwrap c (P f)) S' D'"
proof (rule codecI)
  fix v assume d: "D' v"
  then obtain x where x: "v = c x" using assms(5) by blast
  with d codec.complete [OF assms(1), of x] assms(3,4)
  show "\<exists>bs. S' v = Inr bs \<and> (\<forall>rest. rwrap c (P (bs @ rest)) = Inr (v, rest))"
    by (auto simp: rwrap_def)
next
  fix f v rest assume "rwrap c (P f) = Inr (v, rest)"
  then obtain x where "P f = Inr (x, rest)" "v = c x" by (auto simp: rwrap_def res_simps)
  with codec.sound [OF assms(1)] assms(3,4)
  show "D' v \<and> (\<exists>bs. S' v = Inr bs \<and> f = bs @ rest)" by auto
qed

section \<open>Every annotation is a codec\<close>

fun has_type :: "(nat \<Rightarrow> bytes \<Rightarrow> bool) \<Rightarrow> stype \<Rightarrow> sval \<Rightarrow> bool"
and have_types :: "(nat \<Rightarrow> bytes \<Rightarrow> bool) \<Rightarrow> stype list \<Rightarrow> sval list \<Rightarrow> bool" where
  "has_type ok (TInt p) v = (case v of VInt n \<Rightarrow> int_range (pack_signed p) (calcsize p) n | _ \<Rightarrow> False)"
| "has_type ok TUint128 v = (case v of VInt n \<Rightarrow> 0 \<le> n \<and> n < 2 ^ 128 | _ \<Rightarrow> False)"
| "has_type ok TInt512 v = (case v of VInt n \<Rightarrow> - (2 ^ 512) < n \<and> n < 2 ^ 512 | _ \<Rightarrow> False)"
| "has_type ok TBool v = (case v of VBool b \<Rightarrow> True | _ \<Rightarrow> False)"
| "has_type ok (TSized n) v = (case v of VBytes b \<Rightarrow> length b = n | _ \<Rightarrow> False)"
| "has_type ok TBytes v = (case v of VBytes b \<Rightarrow> int (length b) < 2 ^ 32 | _ \<Rightarrow> False)"
| "has_type ok TStr v = (case v of VBytes b \<Rightarrow> int (length b) < 2 ^ 32 \<and> utf8_valid b | _ \<Rightarrow> False)"
| "has_type ok (TPoint n) v = (case v of VBytes b \<Rightarrow> length b = n \<and> ok n b | _ \<Rightarrow> False)"
| "has_type ok (TOptional t) v = (case v of VNone \<Rightarrow> True | VSome w \<Rightarrow> has_type ok t w | _ \<Rightarrow> False)"
| "has_type ok (TList t) v =
     (case v of VList vs \<Rightarrow> int (length vs) < 2 ^ 32 \<and> (\<forall>w \<in> set vs. has_type ok t w) | _ \<Rightarrow> False)"
| "has_type ok (TTuple ts) v = (case v of VTuple vs \<Rightarrow> have_types ok ts vs | _ \<Rightarrow> False)"
| "have_types ok [] vs = (vs = [])"
| "have_types ok (t # ts) vs = (case vs of [] \<Rightarrow> False | w # ws \<Rightarrow> has_type ok t w \<and> have_types ok ts ws)"

lemma have_types_length: "have_types ok ts vs \<Longrightarrow> length vs = length ts"
  by (induction ts arbitrary: vs) (auto split: list.splits)

lemma codec_fields_step:
  assumes "codec (parse_one_item ok t) (stream_one_item t) (has_type ok t)"
    and "codec (parse_tuple ok ts) (stream_fields ts) (have_types ok ts)"
  shows "codec (parse_tuple ok (t # ts)) (stream_fields (t # ts)) (have_types ok (t # ts))"
proof (rule codecI)
  fix vs assume "have_types ok (t # ts) vs"
  then obtain w ws where vs: "vs = w # ws" "has_type ok t w" "have_types ok ts ws" by (cases vs) auto
  with codec.complete [OF assms(1) vs(2)] codec.complete [OF assms(2) vs(3)]
  show "\<exists>bs. stream_fields (t # ts) vs = Inr bs \<and> (\<forall>rest. parse_tuple ok (t # ts) (bs @ rest) = Inr (vs, rest))"
    by auto
next
  fix f vs rest assume "parse_tuple ok (t # ts) f = Inr (vs, rest)"
  then obtain w r ws where "parse_one_item ok t f = Inr (w, r)" "parse_tuple ok ts r = Inr (ws, rest)" "vs = w # ws"
    by (auto simp: res_simps)
  with codec.sound [OF assms(1)] codec.sound [OF assms(2)]
  show "have_types ok (t # ts) vs \<and> (\<exists>bs. stream_fields (t # ts) vs = Inr bs \<and> f = bs @ rest)"
    by fastforce
qed

lemma codec_fields:
  assumes "\<And>t. t \<in> set ts \<Longrightarrow> codec (parse_one_item ok t) (stream_one_item t) (has_type ok t)"
  shows "codec (parse_tuple ok ts) (stream_fields ts) (have_types ok ts)"
  using assms
proof (induction ts)
  case Nil
  show ?case by (rule codecI) auto
next
  case (Cons t ts)
  then show ?case by (intro codec_fields_step) simp_all
qed

lemma codec_eqI:
  assumes "codec P S D" and "\<And>f. P' f = P f" and "\<And>v. S' v = S v" and "\<And>v. D' v = D v"
  shows "codec P' S' D'"
proof -
  have "P' = P" "S' = S" "D' = D" using assms(2-) by auto
  with assms(1) show ?thesis by simp
qed

lemma codec_tuple:
  assumes "codec (parse_tuple ok ts) (stream_fields ts) (have_types ok ts)"
  shows "codec (parse_one_item ok (TTuple ts)) (stream_one_item (TTuple ts)) (has_type ok (TTuple ts))"
proof (rule codecI)
  fix v assume "has_type ok (TTuple ts) v"
  then obtain vs where v: "v = VTuple vs" "have_types ok ts vs" by (cases v) auto
  with codec.complete [OF assms v(2)] have_types_length [OF v(2)]
  show "\<exists>bs. stream_one_item (TTuple ts) v = Inr bs \<and>
      (\<forall>rest. parse_one_item ok (TTuple ts) (bs @ rest) = Inr (v, rest))"
    by (auto simp: rwrap_def)
next
  fix f v rest assume "parse_one_item ok (TTuple ts) f = Inr (v, rest)"
  then obtain vs where p: "parse_tuple ok ts f = Inr (vs, rest)" "v = VTuple vs"
    by (auto simp: rwrap_def res_simps)
  with codec.sound [OF assms p(1)] have_types_length [of ok ts vs]
  show "has_type ok (TTuple ts) v \<and> (\<exists>bs. stream_one_item (TTuple ts) v = Inr bs \<and> f = bs @ rest)"
    by auto
qed

lemma codec_leaf:
  assumes "codec P S D" and "\<And>f. parse_one_item ok t f = rwrap c (P f)" and "\<And>x y. c x = c y \<Longrightarrow> x = y"
    and "\<And>x. stream_one_item t (c x) = S x" and "\<And>x. has_type ok t (c x) = D x"
    and "\<And>v. has_type ok t v \<Longrightarrow> \<exists>x. v = c x"
  shows "codec (parse_one_item ok t) (stream_one_item t) (has_type ok t)"
  by (rule codec_eqI [OF codec_wrap [OF assms(1,3-6)]]) (simp_all add: assms(2))

lemma codec_stype: "codec (parse_one_item ok t) (stream_one_item t) (has_type ok t)"
proof (induction t)
  case (TInt p)
  show ?case
    by (rule codec_leaf [OF codec_struct, where c = VInt]) (auto split: sval.splits)
next
  case TUint128
  show ?case
    by (rule codec_leaf [OF codec_uint128, where c = VInt]) (auto split: sval.splits)
next
  case TInt512
  show ?case
    by (rule codec_leaf [OF codec_int512, where c = VInt]) (auto split: sval.splits)
next
  case TBool
  show ?case
    by (rule codec_leaf [OF codec_bool, where c = VBool]) (auto split: sval.splits)
next
  case (TSized n)
  show ?case
    by (rule codec_leaf [OF codec_sized, where c = VBytes]) (auto split: sval.splits)
next
  case TBytes
  show ?case
    by (rule codec_leaf [OF codec_prefixed, where c = VBytes]) (auto split: sval.splits)
next
  case TStr
  show ?case
    by (rule codec_leaf [OF codec_str, where c = VBytes]) (auto split: sval.splits)
next
  case (TPoint n)
  show ?case
    by (rule codec_leaf [OF codec_point, where c = VBytes]) (auto split: sval.splits)
next
  case (TOptional t)
  show ?case by (rule codec_eqI [OF codec_optional [OF TOptional]]) simp_all
next
  case (TList t)
  show ?case by (rule codec_eqI [OF codec_list [OF TList]]) simp_all
next
  case (TTuple ts)
  then show ?case by (intro codec_tuple codec_fields)
qed

interpretation streamable: codec "parse_one_item ok t" "stream_one_item t" "has_type ok t" for ok t
  by (rule codec_stype)

section \<open>Properties\<close>

text \<open>
  C7. For every annotation, a blob is read to a value and a rest exactly when the value belongs to
  the type and the blob is the serialisation of the value followed by the rest.
\<close>

theorem streamable_parse_iff:
  "parse_one_item ok t f = Inr (v, rest) \<longleftrightarrow>
    has_type ok t v \<and> (\<exists>bs. stream_one_item t v = Inr bs \<and> f = bs @ rest)"
  by (rule streamable.parse_iff)

text \<open>
  C29. The hash of an object identifies it: two objects of a type with the same hash are equal
  unless the hash function collides on their serialisations.
\<close>

theorem streamable_hash_identifies:
  assumes "has_type ok t v" and "has_type ok t w"
    and "streamable_hash std_hash t v = streamable_hash std_hash t w"
    and "\<And>a b. stream_one_item t v = Inr a \<Longrightarrow> stream_one_item t w = Inr b \<Longrightarrow> std_hash a = std_hash b \<Longrightarrow> a = b"
  shows "v = w"
proof -
  obtain a where a: "stream_one_item t v = Inr a" using streamable.complete [OF assms(1)] by blast
  obtain b where b: "stream_one_item t w = Inr b" using streamable.complete [OF assms(2)] by blast
  have "std_hash a = std_hash b" using assms(3) by (simp add: streamable_hash_def a b)
  from assms(4) [OF a b this] a b have "stream_one_item t v = stream_one_item t w" by simp
  with assms(1,2) show ?thesis by (rule streamable.stream_inject)
qed

theorem streamable_hash_identifies_witness:
  "has_type (\<lambda>_ _. True) (TTuple [TInt Pack_L, TOptional (TSized 32)]) (VTuple [VInt 5, VNone]) \<and>
   streamable_hash (\<lambda>b. b) (TTuple [TInt Pack_L, TOptional (TSized 32)]) (VTuple [VInt 5, VNone])
     = Inr [0, 0, 0, 5, 0] \<and>
   VTuple [VInt 5, VNone] = VTuple [VInt 5, VNone]"
proof (intro conjI)
  show t: "has_type (\<lambda>_ _. True) (TTuple [TInt Pack_L, TOptional (TSized 32)]) (VTuple [VInt 5, VNone])"
    by (simp add: int_range_def)
  show "streamable_hash (\<lambda>b. b) (TTuple [TInt Pack_L, TOptional (TSized 32)]) (VTuple [VInt 5, VNone])
      = Inr [0, 0, 0, 5, 0]"
    by code_simp
  show "VTuple [VInt 5, VNone] = VTuple [VInt 5, VNone]"
    by (rule streamable_hash_identifies [OF t t, where std_hash = "\<lambda>b. b"]) auto
qed

end
