(* ===== verification/Gold_Types.thy ===== *)
theory Gold_Types
  imports Gold_Streamable
begin

text \<open>
  The data of the chain: the classes of \<^verbatim>\<open>src/chia/types/blockchain_format/\<close> and of
  \<^verbatim>\<open>src/chia/types/\<close> as records with the fields of the source, prefixed by an abbreviation of
  the class. A class that is hashed comes with its annotation (\<open>_type\<close>), its value in the
  serialisation format (\<open>_val\<close>) and its \<^verbatim>\<open>get_hash\<close> (\<open>_hash\<close>). BLS keys and signatures are
  represented by their serialisation, a serialised program by its buffer.
\<close>

type_synonym G1Element = bytes
type_synonym G2Element = bytes
type_synonym SerializedProgram = bytes

definition opt_val :: "('a \<Rightarrow> sval) \<Rightarrow> 'a option \<Rightarrow> sval" where
  "opt_val enc x = (case x of None \<Rightarrow> VNone | Some v \<Rightarrow> VSome (enc v))"

definition list_val :: "('a \<Rightarrow> sval) \<Rightarrow> 'a list \<Rightarrow> sval" where
  "list_val enc xs = VList (map enc xs)"

text \<open>
  The bytes of an object. Fields are type checked when an object is constructed, so streaming an
  object does not raise; the other branch is not reached by objects of the program.
\<close>

definition object_bytes :: "stype \<Rightarrow> sval \<Rightarrow> bytes" where
  "object_bytes t v = (case stream_one_item t v of Inl e \<Rightarrow> [] | Inr b \<Rightarrow> b)"

definition object_hash :: "(bytes \<Rightarrow> bytes) \<Rightarrow> stype \<Rightarrow> sval \<Rightarrow> bytes32" where
  "object_hash std_hash t v = std_hash (object_bytes t v)"

record ClassgroupElement =
  cg_data :: bytes

definition ClassgroupElement_type :: stype where
  "ClassgroupElement_type = TTuple [
     TSized 100]"

definition ClassgroupElement_val :: "ClassgroupElement \<Rightarrow> sval" where
  "ClassgroupElement_val x = VTuple [
     VBytes (cg_data x)]"

definition ClassgroupElement_hash :: "(bytes \<Rightarrow> bytes) \<Rightarrow> ClassgroupElement \<Rightarrow> bytes32" where
  "ClassgroupElement_hash std_hash x = object_hash std_hash ClassgroupElement_type (ClassgroupElement_val x)"

record VDFInfo =
  vi_challenge :: bytes32
  vi_number_of_iterations :: int
  vi_output :: ClassgroupElement

definition VDFInfo_type :: stype where
  "VDFInfo_type = TTuple [
     TSized 32, TInt Pack_Q, ClassgroupElement_type]"

definition VDFInfo_val :: "VDFInfo \<Rightarrow> sval" where
  "VDFInfo_val x = VTuple [
     VBytes (vi_challenge x), VInt (vi_number_of_iterations x), ClassgroupElement_val (vi_output x)]"

definition VDFInfo_hash :: "(bytes \<Rightarrow> bytes) \<Rightarrow> VDFInfo \<Rightarrow> bytes32" where
  "VDFInfo_hash std_hash x = object_hash std_hash VDFInfo_type (VDFInfo_val x)"

record VDFProof =
  vp_witness_type :: int
  vp_witness :: bytes
  vp_normalized_to_identity :: bool

record ProofOfSpace =
  pos_challenge :: bytes32
  pos_pool_public_key :: "G1Element option"
  pos_pool_contract_puzzle_hash :: "bytes32 option"
  pos_local_public_key :: G1Element
  pos_size :: int
  pos_proof :: bytes
  pos_farmer_public_key :: G1Element

definition ProofOfSpace_type :: stype where
  "ProofOfSpace_type = TTuple [
     TSized 32, TOptional (TPoint 48), TOptional (TSized 32), TPoint 48, TInt Pack_B, TBytes,
     TPoint 48]"

definition ProofOfSpace_val :: "ProofOfSpace \<Rightarrow> sval" where
  "ProofOfSpace_val x = VTuple [
     VBytes (pos_challenge x), opt_val VBytes (pos_pool_public_key x),
     opt_val VBytes (pos_pool_contract_puzzle_hash x), VBytes (pos_local_public_key x),
     VInt (pos_size x), VBytes (pos_proof x), VBytes (pos_farmer_public_key x)]"

definition ProofOfSpace_hash :: "(bytes \<Rightarrow> bytes) \<Rightarrow> ProofOfSpace \<Rightarrow> bytes32" where
  "ProofOfSpace_hash std_hash x = object_hash std_hash ProofOfSpace_type (ProofOfSpace_val x)"

record ChallengeBlockInfo =
  cbi_proof_of_space :: ProofOfSpace
  cbi_challenge_chain_sp_vdf :: "VDFInfo option"
  cbi_challenge_chain_sp_signature :: G2Element
  cbi_challenge_chain_ip_vdf :: VDFInfo

definition ChallengeBlockInfo_type :: stype where
  "ChallengeBlockInfo_type = TTuple [
     ProofOfSpace_type, TOptional (VDFInfo_type), TPoint 96, VDFInfo_type]"

definition ChallengeBlockInfo_val :: "ChallengeBlockInfo \<Rightarrow> sval" where
  "ChallengeBlockInfo_val x = VTuple [
     ProofOfSpace_val (cbi_proof_of_space x), opt_val VDFInfo_val (cbi_challenge_chain_sp_vdf x),
     VBytes (cbi_challenge_chain_sp_signature x), VDFInfo_val (cbi_challenge_chain_ip_vdf x)]"

definition ChallengeBlockInfo_hash :: "(bytes \<Rightarrow> bytes) \<Rightarrow> ChallengeBlockInfo \<Rightarrow> bytes32" where
  "ChallengeBlockInfo_hash std_hash x = object_hash std_hash ChallengeBlockInfo_type (ChallengeBlockInfo_val x)"

record ChallengeChainSubSlot =
  cc_challenge_chain_end_of_slot_vdf :: VDFInfo
  cc_infused_challenge_chain_sub_slot_hash :: "bytes32 option"
  cc_subepoch_summary_hash :: "bytes32 option"
  cc_new_sub_slot_iters :: "int option"
  cc_new_difficulty :: "int option"

definition ChallengeChainSubSlot_type :: stype where
  "ChallengeChainSubSlot_type = TTuple [
     VDFInfo_type, TOptional (TSized 32), TOptional (TSized 32), TOptional (TInt Pack_Q),
     TOptional (TInt Pack_Q)]"

definition ChallengeChainSubSlot_val :: "ChallengeChainSubSlot \<Rightarrow> sval" where
  "ChallengeChainSubSlot_val x = VTuple [
     VDFInfo_val (cc_challenge_chain_end_of_slot_vdf x),
     opt_val VBytes (cc_infused_challenge_chain_sub_slot_hash x),
     opt_val VBytes (cc_subepoch_summary_hash x), opt_val VInt (cc_new_sub_slot_iters x),
     opt_val VInt (cc_new_difficulty x)]"

definition ChallengeChainSubSlot_hash :: "(bytes \<Rightarrow> bytes) \<Rightarrow> ChallengeChainSubSlot \<Rightarrow> bytes32" where
  "ChallengeChainSubSlot_hash std_hash x = object_hash std_hash ChallengeChainSubSlot_type (ChallengeChainSubSlot_val x)"

record InfusedChallengeChainSubSlot =
  icc_infused_challenge_chain_end_of_slot_vdf :: VDFInfo

definition InfusedChallengeChainSubSlot_type :: stype where
  "InfusedChallengeChainSubSlot_type = TTuple [
     VDFInfo_type]"

definition InfusedChallengeChainSubSlot_val :: "InfusedChallengeChainSubSlot \<Rightarrow> sval" where
  "InfusedChallengeChainSubSlot_val x = VTuple [
     VDFInfo_val (icc_infused_challenge_chain_end_of_slot_vdf x)]"

definition InfusedChallengeChainSubSlot_hash :: "(bytes \<Rightarrow> bytes) \<Rightarrow> InfusedChallengeChainSubSlot \<Rightarrow> bytes32" where
  "InfusedChallengeChainSubSlot_hash std_hash x = object_hash std_hash InfusedChallengeChainSubSlot_type (InfusedChallengeChainSubSlot_val x)"

record RewardChainSubSlot =
  rc_end_of_slot_vdf :: VDFInfo
  rc_challenge_chain_sub_slot_hash :: bytes32
  rc_infused_challenge_chain_sub_slot_hash :: "bytes32 option"
  rc_deficit :: int

definition RewardChainSubSlot_type :: stype where
  "RewardChainSubSlot_type = TTuple [
     VDFInfo_type, TSized 32, TOptional (TSized 32), TInt Pack_B]"

definition RewardChainSubSlot_val :: "RewardChainSubSlot \<Rightarrow> sval" where
  "RewardChainSubSlot_val x = VTuple [
     VDFInfo_val (rc_end_of_slot_vdf x), VBytes (rc_challenge_chain_sub_slot_hash x),
     opt_val VBytes (rc_infused_challenge_chain_sub_slot_hash x), VInt (rc_deficit x)]"

definition RewardChainSubSlot_hash :: "(bytes \<Rightarrow> bytes) \<Rightarrow> RewardChainSubSlot \<Rightarrow> bytes32" where
  "RewardChainSubSlot_hash std_hash x = object_hash std_hash RewardChainSubSlot_type (RewardChainSubSlot_val x)"

record SubSlotProofs =
  ssp_challenge_chain_slot_proof :: VDFProof
  ssp_infused_challenge_chain_slot_proof :: "VDFProof option"
  ssp_reward_chain_slot_proof :: VDFProof

record EndOfSubSlotBundle =
  eos_challenge_chain :: ChallengeChainSubSlot
  eos_infused_challenge_chain :: "InfusedChallengeChainSubSlot option"
  eos_reward_chain :: RewardChainSubSlot
  eos_proofs :: SubSlotProofs

record RewardChainBlockUnfinished =
  rcbu_total_iters :: int
  rcbu_signage_point_index :: int
  rcbu_pos_ss_cc_challenge_hash :: bytes32
  rcbu_proof_of_space :: ProofOfSpace
  rcbu_challenge_chain_sp_vdf :: "VDFInfo option"
  rcbu_challenge_chain_sp_signature :: G2Element
  rcbu_reward_chain_sp_vdf :: "VDFInfo option"
  rcbu_reward_chain_sp_signature :: G2Element

definition RewardChainBlockUnfinished_type :: stype where
  "RewardChainBlockUnfinished_type = TTuple [
     TUint128, TInt Pack_B, TSized 32, ProofOfSpace_type, TOptional (VDFInfo_type), TPoint 96,
     TOptional (VDFInfo_type), TPoint 96]"

definition RewardChainBlockUnfinished_val :: "RewardChainBlockUnfinished \<Rightarrow> sval" where
  "RewardChainBlockUnfinished_val x = VTuple [
     VInt (rcbu_total_iters x), VInt (rcbu_signage_point_index x),
     VBytes (rcbu_pos_ss_cc_challenge_hash x), ProofOfSpace_val (rcbu_proof_of_space x),
     opt_val VDFInfo_val (rcbu_challenge_chain_sp_vdf x),
     VBytes (rcbu_challenge_chain_sp_signature x),
     opt_val VDFInfo_val (rcbu_reward_chain_sp_vdf x), VBytes (rcbu_reward_chain_sp_signature x)]"

definition RewardChainBlockUnfinished_hash :: "(bytes \<Rightarrow> bytes) \<Rightarrow> RewardChainBlockUnfinished \<Rightarrow> bytes32" where
  "RewardChainBlockUnfinished_hash std_hash x = object_hash std_hash RewardChainBlockUnfinished_type (RewardChainBlockUnfinished_val x)"

record RewardChainBlock =
  rcb_weight :: int
  rcb_height :: int
  rcb_total_iters :: int
  rcb_signage_point_index :: int
  rcb_pos_ss_cc_challenge_hash :: bytes32
  rcb_proof_of_space :: ProofOfSpace
  rcb_challenge_chain_sp_vdf :: "VDFInfo option"
  rcb_challenge_chain_sp_signature :: G2Element
  rcb_challenge_chain_ip_vdf :: VDFInfo
  rcb_reward_chain_sp_vdf :: "VDFInfo option"
  rcb_reward_chain_sp_signature :: G2Element
  rcb_reward_chain_ip_vdf :: VDFInfo
  rcb_infused_challenge_chain_ip_vdf :: "VDFInfo option"
  rcb_is_transaction_block :: bool

definition RewardChainBlock_type :: stype where
  "RewardChainBlock_type = TTuple [
     TUint128, TInt Pack_L, TUint128, TInt Pack_B, TSized 32, ProofOfSpace_type,
     TOptional (VDFInfo_type), TPoint 96, VDFInfo_type, TOptional (VDFInfo_type), TPoint 96,
     VDFInfo_type, TOptional (VDFInfo_type), TBool]"

definition RewardChainBlock_val :: "RewardChainBlock \<Rightarrow> sval" where
  "RewardChainBlock_val x = VTuple [
     VInt (rcb_weight x), VInt (rcb_height x), VInt (rcb_total_iters x),
     VInt (rcb_signage_point_index x), VBytes (rcb_pos_ss_cc_challenge_hash x),
     ProofOfSpace_val (rcb_proof_of_space x), opt_val VDFInfo_val (rcb_challenge_chain_sp_vdf x),
     VBytes (rcb_challenge_chain_sp_signature x), VDFInfo_val (rcb_challenge_chain_ip_vdf x),
     opt_val VDFInfo_val (rcb_reward_chain_sp_vdf x), VBytes (rcb_reward_chain_sp_signature x),
     VDFInfo_val (rcb_reward_chain_ip_vdf x),
     opt_val VDFInfo_val (rcb_infused_challenge_chain_ip_vdf x), VBool (rcb_is_transaction_block x)]"

definition RewardChainBlock_hash :: "(bytes \<Rightarrow> bytes) \<Rightarrow> RewardChainBlock \<Rightarrow> bytes32" where
  "RewardChainBlock_hash std_hash x = object_hash std_hash RewardChainBlock_type (RewardChainBlock_val x)"

record PoolTarget =
  pt_puzzle_hash :: bytes32
  pt_max_height :: int

definition PoolTarget_type :: stype where
  "PoolTarget_type = TTuple [
     TSized 32, TInt Pack_L]"

definition PoolTarget_val :: "PoolTarget \<Rightarrow> sval" where
  "PoolTarget_val x = VTuple [
     VBytes (pt_puzzle_hash x), VInt (pt_max_height x)]"

definition PoolTarget_hash :: "(bytes \<Rightarrow> bytes) \<Rightarrow> PoolTarget \<Rightarrow> bytes32" where
  "PoolTarget_hash std_hash x = object_hash std_hash PoolTarget_type (PoolTarget_val x)"

record Coin =
  coin_parent_coin_info :: bytes32
  coin_puzzle_hash :: bytes32
  coin_amount :: int

definition Coin_type :: stype where
  "Coin_type = TTuple [
     TSized 32, TSized 32, TInt Pack_Q]"

definition Coin_val :: "Coin \<Rightarrow> sval" where
  "Coin_val x = VTuple [
     VBytes (coin_parent_coin_info x), VBytes (coin_puzzle_hash x), VInt (coin_amount x)]"

record TransactionsInfo =
  ti_generator_root :: bytes32
  ti_generator_refs_root :: bytes32
  ti_aggregated_signature :: G2Element
  ti_fees :: int
  ti_cost :: int
  ti_reward_claims_incorporated :: "Coin list"

definition TransactionsInfo_type :: stype where
  "TransactionsInfo_type = TTuple [
     TSized 32, TSized 32, TPoint 96, TInt Pack_Q, TInt Pack_Q, TList (Coin_type)]"

definition TransactionsInfo_val :: "TransactionsInfo \<Rightarrow> sval" where
  "TransactionsInfo_val x = VTuple [
     VBytes (ti_generator_root x), VBytes (ti_generator_refs_root x),
     VBytes (ti_aggregated_signature x), VInt (ti_fees x), VInt (ti_cost x),
     list_val Coin_val (ti_reward_claims_incorporated x)]"

definition TransactionsInfo_hash :: "(bytes \<Rightarrow> bytes) \<Rightarrow> TransactionsInfo \<Rightarrow> bytes32" where
  "TransactionsInfo_hash std_hash x = object_hash std_hash TransactionsInfo_type (TransactionsInfo_val x)"

record FoliageTransactionBlock =
  ftb_prev_transaction_block_hash :: bytes32
  ftb_timestamp :: int
  ftb_filter_hash :: bytes32
  ftb_additions_root :: bytes32
  ftb_removals_root :: bytes32
  ftb_transactions_info_hash :: bytes32

definition FoliageTransactionBlock_type :: stype where
  "FoliageTransactionBlock_type = TTuple [
     TSized 32, TInt Pack_Q, TSized 32, TSized 32, TSized 32, TSized 32]"

definition FoliageTransactionBlock_val :: "FoliageTransactionBlock \<Rightarrow> sval" where
  "FoliageTransactionBlock_val x = VTuple [
     VBytes (ftb_prev_transaction_block_hash x), VInt (ftb_timestamp x),
     VBytes (ftb_filter_hash x), VBytes (ftb_additions_root x), VBytes (ftb_removals_root x),
     VBytes (ftb_transactions_info_hash x)]"

definition FoliageTransactionBlock_hash :: "(bytes \<Rightarrow> bytes) \<Rightarrow> FoliageTransactionBlock \<Rightarrow> bytes32" where
  "FoliageTransactionBlock_hash std_hash x = object_hash std_hash FoliageTransactionBlock_type (FoliageTransactionBlock_val x)"

record FoliageBlockData =
  fbd_unfinished_reward_block_hash :: bytes32
  fbd_pool_target :: PoolTarget
  fbd_pool_signature :: "G2Element option"
  fbd_farmer_reward_puzzle_hash :: bytes32
  fbd_extension_data :: bytes32

definition FoliageBlockData_type :: stype where
  "FoliageBlockData_type = TTuple [
     TSized 32, PoolTarget_type, TOptional (TPoint 96), TSized 32, TSized 32]"

definition FoliageBlockData_val :: "FoliageBlockData \<Rightarrow> sval" where
  "FoliageBlockData_val x = VTuple [
     VBytes (fbd_unfinished_reward_block_hash x), PoolTarget_val (fbd_pool_target x),
     opt_val VBytes (fbd_pool_signature x), VBytes (fbd_farmer_reward_puzzle_hash x),
     VBytes (fbd_extension_data x)]"

definition FoliageBlockData_hash :: "(bytes \<Rightarrow> bytes) \<Rightarrow> FoliageBlockData \<Rightarrow> bytes32" where
  "FoliageBlockData_hash std_hash x = object_hash std_hash FoliageBlockData_type (FoliageBlockData_val x)"

record Foliage =
  fol_prev_block_hash :: bytes32
  fol_reward_block_hash :: bytes32
  fol_foliage_block_data :: FoliageBlockData
  fol_foliage_block_data_signature :: G2Element
  fol_foliage_transaction_block_hash :: "bytes32 option"
  fol_foliage_transaction_block_signature :: "G2Element option"

definition Foliage_type :: stype where
  "Foliage_type = TTuple [
     TSized 32, TSized 32, FoliageBlockData_type, TPoint 96, TOptional (TSized 32),
     TOptional (TPoint 96)]"

definition Foliage_val :: "Foliage \<Rightarrow> sval" where
  "Foliage_val x = VTuple [
     VBytes (fol_prev_block_hash x), VBytes (fol_reward_block_hash x),
     FoliageBlockData_val (fol_foliage_block_data x), VBytes (fol_foliage_block_data_signature x),
     opt_val VBytes (fol_foliage_transaction_block_hash x),
     opt_val VBytes (fol_foliage_transaction_block_signature x)]"

definition Foliage_hash :: "(bytes \<Rightarrow> bytes) \<Rightarrow> Foliage \<Rightarrow> bytes32" where
  "Foliage_hash std_hash x = object_hash std_hash Foliage_type (Foliage_val x)"

record FullBlock =
  fb_finished_sub_slots :: "EndOfSubSlotBundle list"
  fb_reward_chain_block :: RewardChainBlock
  fb_challenge_chain_sp_proof :: "VDFProof option"
  fb_challenge_chain_ip_proof :: VDFProof
  fb_reward_chain_sp_proof :: "VDFProof option"
  fb_reward_chain_ip_proof :: VDFProof
  fb_infused_challenge_chain_ip_proof :: "VDFProof option"
  fb_foliage :: Foliage
  fb_foliage_transaction_block :: "FoliageTransactionBlock option"
  fb_transactions_info :: "TransactionsInfo option"
  fb_transactions_generator :: "SerializedProgram option"
  fb_transactions_generator_ref_list :: "int list"

record HeaderBlock =
  hb_finished_sub_slots :: "EndOfSubSlotBundle list"
  hb_reward_chain_block :: RewardChainBlock
  hb_challenge_chain_sp_proof :: "VDFProof option"
  hb_challenge_chain_ip_proof :: VDFProof
  hb_reward_chain_sp_proof :: "VDFProof option"
  hb_reward_chain_ip_proof :: VDFProof
  hb_infused_challenge_chain_ip_proof :: "VDFProof option"
  hb_foliage :: Foliage
  hb_foliage_transaction_block :: "FoliageTransactionBlock option"
  hb_transactions_filter :: bytes
  hb_transactions_info :: "TransactionsInfo option"

record UnfinishedBlock =
  ub_finished_sub_slots :: "EndOfSubSlotBundle list"
  ub_reward_chain_block :: RewardChainBlockUnfinished
  ub_challenge_chain_sp_proof :: "VDFProof option"
  ub_reward_chain_sp_proof :: "VDFProof option"
  ub_foliage :: Foliage
  ub_foliage_transaction_block :: "FoliageTransactionBlock option"
  ub_transactions_info :: "TransactionsInfo option"
  ub_transactions_generator :: "SerializedProgram option"
  ub_transactions_generator_ref_list :: "int list"

record UnfinishedHeaderBlock =
  uhb_finished_sub_slots :: "EndOfSubSlotBundle list"
  uhb_reward_chain_block :: RewardChainBlockUnfinished
  uhb_challenge_chain_sp_proof :: "VDFProof option"
  uhb_reward_chain_sp_proof :: "VDFProof option"
  uhb_foliage :: Foliage
  uhb_foliage_transaction_block :: "FoliageTransactionBlock option"
  uhb_transactions_filter :: bytes

record SubEpochSummary =
  ses_prev_subepoch_summary_hash :: bytes32
  ses_reward_chain_hash :: bytes32
  ses_num_blocks_overflow :: int
  ses_new_difficulty :: "int option"
  ses_new_sub_slot_iters :: "int option"

definition SubEpochSummary_type :: stype where
  "SubEpochSummary_type = TTuple [
     TSized 32, TSized 32, TInt Pack_B, TOptional (TInt Pack_Q), TOptional (TInt Pack_Q)]"

definition SubEpochSummary_val :: "SubEpochSummary \<Rightarrow> sval" where
  "SubEpochSummary_val x = VTuple [
     VBytes (ses_prev_subepoch_summary_hash x), VBytes (ses_reward_chain_hash x),
     VInt (ses_num_blocks_overflow x), opt_val VInt (ses_new_difficulty x),
     opt_val VInt (ses_new_sub_slot_iters x)]"

definition SubEpochSummary_hash :: "(bytes \<Rightarrow> bytes) \<Rightarrow> SubEpochSummary \<Rightarrow> bytes32" where
  "SubEpochSummary_hash std_hash x = object_hash std_hash SubEpochSummary_type (SubEpochSummary_val x)"

section \<open>Methods\<close>

text \<open>
  The default element of the class group: short data is padded with zero bytes.
\<close>

definition ClassgroupElement_from_bytes :: "bytes \<Rightarrow> ClassgroupElement res" where
  "ClassgroupElement_from_bytes d =
     (let d' = (if length d < 100 then d @ replicate (100 - length d) 0 else d)
      in if length d' \<noteq> 100 then Inl ValueError else Inr \<lparr>cg_data = d'\<rparr>)"

definition get_default_element :: ClassgroupElement where
  "get_default_element = \<lparr>cg_data = [8] @ replicate 99 0\<rparr>"

lemma get_default_element_from_bytes: "ClassgroupElement_from_bytes [8] = Inr get_default_element"
  by (simp add: ClassgroupElement_from_bytes_def get_default_element_def)

definition get_unfinished :: "RewardChainBlock \<Rightarrow> RewardChainBlockUnfinished" where
  "get_unfinished b = \<lparr>
     rcbu_total_iters = rcb_total_iters b,
     rcbu_signage_point_index = rcb_signage_point_index b,
     rcbu_pos_ss_cc_challenge_hash = rcb_pos_ss_cc_challenge_hash b,
     rcbu_proof_of_space = rcb_proof_of_space b,
     rcbu_challenge_chain_sp_vdf = rcb_challenge_chain_sp_vdf b,
     rcbu_challenge_chain_sp_signature = rcb_challenge_chain_sp_signature b,
     rcbu_reward_chain_sp_vdf = rcb_reward_chain_sp_vdf b,
     rcbu_reward_chain_sp_signature = rcb_reward_chain_sp_signature b\<rparr>"

end
