(* ===== verification/Gold_Block_Record.thy ===== *)
theory Gold_Block_Record
  imports Gold_Types Gold_Consensus
begin

text \<open>
  Block records (\<^verbatim>\<open>src/chia/consensus/block_record.py\<close>), the deficit of a block
  (\<^verbatim>\<open>src/chia/consensus/deficit.py\<close>), proofs of space
  (\<^verbatim>\<open>src/chia/types/blockchain_format/proof_of_space.py\<close>) and the check of a VDF proof
  (\<^verbatim>\<open>src/chia/types/blockchain_format/vdf.py\<close>).
\<close>

section \<open>Block records\<close>

record BlockRecord =
  br_header_hash :: bytes32
  br_prev_hash :: bytes32
  br_height :: int
  br_weight :: int
  br_total_iters :: int
  br_signage_point_index :: int
  br_challenge_vdf_output :: ClassgroupElement
  br_infused_challenge_vdf_output :: "ClassgroupElement option"
  br_reward_infusion_new_challenge :: bytes32
  br_challenge_block_info_hash :: bytes32
  br_sub_slot_iters :: int
  br_pool_puzzle_hash :: bytes32
  br_farmer_puzzle_hash :: bytes32
  br_required_iters :: int
  br_deficit :: int
  br_overflow :: bool
  br_prev_transaction_block_height :: int
  br_timestamp :: "int option"
  br_prev_transaction_block_hash :: "bytes32 option"
  br_fees :: "int option"
  br_reward_claims_incorporated :: "Coin list option"
  br_finished_challenge_slot_hashes :: "bytes32 list option"
  br_finished_infused_challenge_slot_hashes :: "bytes32 list option"
  br_finished_reward_slot_hashes :: "bytes32 list option"
  br_sub_epoch_summary_included :: "SubEpochSummary option"
  br_farmer_public_key :: G1Element

definition br_is_transaction_block :: "BlockRecord \<Rightarrow> bool" where
  "br_is_transaction_block b = (br_timestamp b \<noteq> None)"

definition br_first_in_sub_slot :: "BlockRecord \<Rightarrow> bool" where
  "br_first_in_sub_slot b = (br_finished_challenge_slot_hashes b \<noteq> None)"

definition is_challenge_block :: "ConsensusConstants \<Rightarrow> BlockRecord \<Rightarrow> bool" where
  "is_challenge_block c b = (br_deficit b = MIN_BLOCKS_PER_CHALLENGE_BLOCK c - 1)"

definition br_sp_iters :: "ConsensusConstants \<Rightarrow> BlockRecord \<Rightarrow> int res" where
  "br_sp_iters c b = calculate_sp_iters c (br_sub_slot_iters b) (br_signage_point_index b)"

definition br_ip_iters :: "ConsensusConstants \<Rightarrow> BlockRecord \<Rightarrow> int res" where
  "br_ip_iters c b =
     calculate_ip_iters c (br_sub_slot_iters b) (br_signage_point_index b) (br_required_iters b)"

definition br_sp_sub_slot_total_iters :: "ConsensusConstants \<Rightarrow> BlockRecord \<Rightarrow> int res" where
  "br_sp_sub_slot_total_iters c b =
     rbind (br_ip_iters c b) (\<lambda>ip.
     if br_overflow b then uint128 (br_total_iters b - ip - br_sub_slot_iters b)
     else uint128 (br_total_iters b - ip))"

definition br_ip_sub_slot_total_iters :: "ConsensusConstants \<Rightarrow> BlockRecord \<Rightarrow> int res" where
  "br_ip_sub_slot_total_iters c b =
     rbind (br_ip_iters c b) (\<lambda>ip. uint128 (br_total_iters b - ip))"

definition br_sp_total_iters :: "ConsensusConstants \<Rightarrow> BlockRecord \<Rightarrow> int res" where
  "br_sp_total_iters c b =
     rbind (br_sp_sub_slot_total_iters c b) (\<lambda>s. rbind (br_sp_iters c b) (\<lambda>i. Inr (s + i)))"

section \<open>The deficit\<close>

definition calculate_deficit ::
    "ConsensusConstants \<Rightarrow> int \<Rightarrow> BlockRecord option \<Rightarrow> bool \<Rightarrow> int \<Rightarrow> int res" where
  "calculate_deficit c height prev_b overflow num_finished_sub_slots =
     (if height = 0 then uint8 (MIN_BLOCKS_PER_CHALLENGE_BLOCK c - 1)
      else
        rbind (not_none prev_b) (\<lambda>prev_b.
        let prev_deficit = br_deficit prev_b in
        if prev_deficit = MIN_BLOCKS_PER_CHALLENGE_BLOCK c then
          (if overflow then
             if num_finished_sub_slots > 0 then uint8 (prev_deficit - 1) else uint8 prev_deficit
           else uint8 (prev_deficit - 1))
        else if prev_deficit = 0 then
          (if num_finished_sub_slots = 0 then uint8 0
           else if num_finished_sub_slots = 1 then
             (if overflow then uint8 (MIN_BLOCKS_PER_CHALLENGE_BLOCK c)
              else uint8 (MIN_BLOCKS_PER_CHALLENGE_BLOCK c - 1))
           else uint8 (MIN_BLOCKS_PER_CHALLENGE_BLOCK c - 1))
        else uint8 (prev_deficit - 1)))"

section \<open>Proofs of space\<close>

text \<open>
  What the code takes from third-party packages: the sum of two public keys, key generation from a
  seed and the public key of a secret key (BLS), the number in the first bits of a byte string
  (bit arrays) and the validation of a proof from plot id, size, challenge and proof (plot
  verifier), which gives an empty quality when the proof is invalid.
\<close>

type_synonym PrivateKey = bytes

record pos_lib =
  g1_add :: "G1Element \<Rightarrow> G1Element \<Rightarrow> G1Element"
  key_gen :: "bytes32 \<Rightarrow> PrivateKey"
  get_g1 :: "PrivateKey \<Rightarrow> G1Element"
  leading_bits_uint :: "bytes \<Rightarrow> int \<Rightarrow> int res"
  validate_proof :: "bytes32 \<Rightarrow> int \<Rightarrow> bytes32 \<Rightarrow> bytes \<Rightarrow> bytes"

definition generate_taproot_sk ::
    "(bytes \<Rightarrow> bytes) \<Rightarrow> pos_lib \<Rightarrow> G1Element \<Rightarrow> G1Element \<Rightarrow> PrivateKey" where
  "generate_taproot_sk std_hash lib local_pk farmer_pk =
     (let taproot_message = g1_add lib local_pk farmer_pk @ local_pk @ farmer_pk;
          taproot_hash = std_hash taproot_message
      in key_gen lib taproot_hash)"

definition generate_plot_public_key ::
    "(bytes \<Rightarrow> bytes) \<Rightarrow> pos_lib \<Rightarrow> G1Element \<Rightarrow> G1Element \<Rightarrow> bool \<Rightarrow> G1Element" where
  "generate_plot_public_key std_hash lib local_pk farmer_pk include_taproot =
     (if include_taproot then
        let taproot_sk = generate_taproot_sk std_hash lib local_pk farmer_pk
        in g1_add lib (g1_add lib local_pk farmer_pk) (get_g1 lib taproot_sk)
      else g1_add lib local_pk farmer_pk)"

definition plot_public_key :: "(bytes \<Rightarrow> bytes) \<Rightarrow> pos_lib \<Rightarrow> ProofOfSpace \<Rightarrow> G1Element" where
  "plot_public_key std_hash lib p =
     generate_plot_public_key std_hash lib (pos_local_public_key p) (pos_farmer_public_key p)
       (pos_pool_contract_puzzle_hash p \<noteq> None)"

text \<open>
  \<^verbatim>\<open>to_legacy\<close> builds the class of seven fields from six arguments; the farmer key is a field
  that is always present, so the call always raises.
\<close>

definition to_legacy :: "ProofOfSpace \<Rightarrow> ProofOfSpace res" where
  "to_legacy p = Inl TypeError"

definition calculate_plot_id_pk :: "(bytes \<Rightarrow> bytes) \<Rightarrow> G1Element \<Rightarrow> G1Element \<Rightarrow> bytes32" where
  "calculate_plot_id_pk std_hash pool_pk plot_pk = std_hash (pool_pk @ plot_pk)"

definition calculate_plot_id_ph :: "(bytes \<Rightarrow> bytes) \<Rightarrow> bytes32 \<Rightarrow> G1Element \<Rightarrow> bytes32" where
  "calculate_plot_id_ph std_hash contract_ph plot_pk = std_hash (contract_ph @ plot_pk)"

text \<open>With neither a pool key nor a contract, \<^verbatim>\<open>bytes(None)\<close> raises a type error.\<close>

definition get_plot_id :: "(bytes \<Rightarrow> bytes) \<Rightarrow> pos_lib \<Rightarrow> ProofOfSpace \<Rightarrow> bytes32 res" where
  "get_plot_id std_hash lib p =
     rbind (py_assert (pos_pool_public_key p = None \<or> pos_pool_contract_puzzle_hash p = None)) (\<lambda>_.
     case pos_pool_public_key p of
       None \<Rightarrow> (case pos_pool_contract_puzzle_hash p of
           None \<Rightarrow> Inl TypeError
         | Some ph \<Rightarrow> Inr (calculate_plot_id_ph std_hash ph (plot_public_key std_hash lib p)))
     | Some pk \<Rightarrow> Inr (calculate_plot_id_pk std_hash pk (plot_public_key std_hash lib p)))"

definition calculate_plot_filter_input :: "(bytes \<Rightarrow> bytes) \<Rightarrow> bytes32 \<Rightarrow> bytes32 \<Rightarrow> bytes32 \<Rightarrow> bytes32" where
  "calculate_plot_filter_input std_hash plot_id challenge_hash signage_point =
     std_hash (plot_id @ challenge_hash @ signage_point)"

definition calculate_pos_challenge :: "(bytes \<Rightarrow> bytes) \<Rightarrow> bytes32 \<Rightarrow> bytes32 \<Rightarrow> bytes32 \<Rightarrow> bytes32" where
  "calculate_pos_challenge std_hash plot_id challenge_hash signage_point =
     std_hash (calculate_plot_filter_input std_hash plot_id challenge_hash signage_point)"

definition passes_plot_filter ::
    "(bytes \<Rightarrow> bytes) \<Rightarrow> pos_lib \<Rightarrow> ConsensusConstants \<Rightarrow> bytes32 \<Rightarrow> bytes32 \<Rightarrow> bytes32 \<Rightarrow> bool res" where
  "passes_plot_filter std_hash lib c plot_id challenge_hash signage_point =
     rbind (leading_bits_uint lib (calculate_plot_filter_input std_hash plot_id challenge_hash signage_point)
              (NUMBER_ZERO_BITS_PLOT_FILTER c)) (\<lambda>u. Inr (u = 0))"

definition get_quality_string :: "pos_lib \<Rightarrow> ProofOfSpace \<Rightarrow> bytes32 \<Rightarrow> bytes32 option res" where
  "get_quality_string lib p plot_id =
     (let quality_str = validate_proof lib plot_id (pos_size p) (pos_challenge p) (pos_proof p)
      in if quality_str = [] then Inr None else rbind (sized_bytes 32 quality_str) (\<lambda>q. Inr (Some q)))"

definition verify_and_get_quality_string ::
    "(bytes \<Rightarrow> bytes) \<Rightarrow> pos_lib \<Rightarrow> ConsensusConstants \<Rightarrow> ProofOfSpace \<Rightarrow> bytes32 \<Rightarrow> bytes32 \<Rightarrow>
     bytes32 option res" where
  "verify_and_get_quality_string std_hash lib c p original_challenge_hash signage_point =
     (if pos_pool_public_key p = None \<and> pos_pool_contract_puzzle_hash p = None then Inr None
      else if pos_pool_public_key p \<noteq> None \<and> pos_pool_contract_puzzle_hash p \<noteq> None then Inr None
      else if pos_size p < MIN_PLOT_SIZE c then Inr None
      else if pos_size p > MAX_PLOT_SIZE c then Inr None
      else
        rbind (get_plot_id std_hash lib p) (\<lambda>plot_id.
        if calculate_pos_challenge std_hash plot_id original_challenge_hash signage_point \<noteq> pos_challenge p
        then Inr None
        else
          rbind (passes_plot_filter std_hash lib c plot_id original_challenge_hash signage_point) (\<lambda>pass.
          if \<not> pass then Inr None else get_quality_string lib p plot_id)))"

section \<open>VDF proofs\<close>

text \<open>
  The VDF library gives the discriminant of a challenge and size (here already read from its
  hexadecimal digits) and verifies a proof; both may raise, and \<^verbatim>\<open>is_valid\<close> catches it.
\<close>

record vdf_lib =
  create_discriminant :: "bytes32 \<Rightarrow> int \<Rightarrow> int res"
  verify_n_wesolowski :: "int \<Rightarrow> bytes \<Rightarrow> bytes \<Rightarrow> int \<Rightarrow> int \<Rightarrow> int \<Rightarrow> bool res"

definition get_discriminant :: "vdf_lib \<Rightarrow> bytes32 \<Rightarrow> int \<Rightarrow> int res" where
  "get_discriminant lib challenge size_bites = create_discriminant lib challenge size_bites"

definition verify_vdf ::
    "vdf_lib \<Rightarrow> int \<Rightarrow> bytes \<Rightarrow> bytes \<Rightarrow> int \<Rightarrow> int \<Rightarrow> int \<Rightarrow> bool res" where
  "verify_vdf lib disc input_el output number_of_iterations discriminant_size witness_type =
     verify_n_wesolowski lib disc input_el output number_of_iterations discriminant_size witness_type"

definition vdf_is_valid ::
    "vdf_lib \<Rightarrow> ConsensusConstants \<Rightarrow> VDFProof \<Rightarrow> ClassgroupElement \<Rightarrow> VDFInfo \<Rightarrow>
     VDFInfo option \<Rightarrow> bool" where
  "vdf_is_valid lib c p input_el info target_vdf_info =
     (if target_vdf_info \<noteq> None \<and> Some info \<noteq> target_vdf_info then False
      else if vp_witness_type p + 1 > MAX_VDF_WITNESS_SIZE c then False
      else
        (case rbind (get_discriminant lib (vi_challenge info) (DISCRIMINANT_SIZE_BITS c)) (\<lambda>disc.
                verify_vdf lib disc (cg_data input_el) (cg_data (vi_output info) @ vp_witness p)
                  (vi_number_of_iterations info) (DISCRIMINANT_SIZE_BITS c) (vp_witness_type p)) of
           Inl e \<Rightarrow> False
         | Inr valid \<Rightarrow> valid))"

end
