(* ===== verification/Gold_Block_Record_Correct.thy ===== *)
theory Gold_Block_Record_Correct
  imports Gold_Block_Record Gold_Consensus_Correct
begin

text \<open>
  The range of the deficit and what an accepted proof of space guarantees.
\<close>

definition deficit_ok :: "ConsensusConstants \<Rightarrow> int \<Rightarrow> bool" where
  "deficit_ok c d = (0 \<le> d \<and> d \<le> MIN_BLOCKS_PER_CHALLENGE_BLOCK c)"

text \<open>
  C21. The deficit never leaves its range: from a block whose deficit is in range the next deficit
  is defined, is in range, drops by at most one, and is the full deficit only for an overflow
  block.
\<close>

theorem deficit_in_range:
  assumes "1 \<le> MIN_BLOCKS_PER_CHALLENGE_BLOCK c" and "MIN_BLOCKS_PER_CHALLENGE_BLOCK c \<le> 255"
    and "deficit_ok c (br_deficit prev)" and "0 \<le> n"
  shows "\<exists>d. calculate_deficit c h (Some prev) overflow n = Inr d \<and> deficit_ok c d \<and>
    (h \<noteq> 0 \<longrightarrow> br_deficit prev - 1 \<le> d \<and>
       (d = MIN_BLOCKS_PER_CHALLENGE_BLOCK c \<longrightarrow> overflow) \<and>
       (br_deficit prev < d \<longrightarrow> br_deficit prev = 0 \<and> 0 < n))"
  using assms by (auto simp: calculate_deficit_def deficit_ok_def Let_def uint_values)

definition sample_record :: "int \<Rightarrow> BlockRecord" where
  "sample_record d = \<lparr>
     br_header_hash = [], br_prev_hash = [], br_height = 1, br_weight = 1, br_total_iters = 1,
     br_signage_point_index = 0, br_challenge_vdf_output = get_default_element,
     br_infused_challenge_vdf_output = None, br_reward_infusion_new_challenge = [],
     br_challenge_block_info_hash = [], br_sub_slot_iters = 64, br_pool_puzzle_hash = [],
     br_farmer_puzzle_hash = [], br_required_iters = 1, br_deficit = d, br_overflow = False,
     br_prev_transaction_block_height = 0, br_timestamp = None, br_prev_transaction_block_hash = None,
     br_fees = None, br_reward_claims_incorporated = None, br_finished_challenge_slot_hashes = None,
     br_finished_infused_challenge_slot_hashes = None, br_finished_reward_slot_hashes = None,
     br_sub_epoch_summary_included = None, br_farmer_public_key = []\<rparr>"

theorem deficit_in_range_witness:
  "deficit_ok DEFAULT_CONSTANTS (br_deficit (sample_record 0)) \<and>
   (\<exists>d. calculate_deficit DEFAULT_CONSTANTS 2 (Some (sample_record 0)) True 1 = Inr d \<and>
     deficit_ok DEFAULT_CONSTANTS d)"
  using deficit_in_range [of DEFAULT_CONSTANTS "sample_record 0" 1 2 True]
  by (auto simp: deficit_ok_def sample_record_def DEFAULT_CONSTANTS_def)

text \<open>
  C20. A proof of space with a quality is bound to one pool, has a plot size in range, answers the
  challenge of its plot and signage point, and the hash of the plot with them starts with the
  zero bits of the plot filter.
\<close>

theorem quality_string_sound:
  assumes "verify_and_get_quality_string std_hash lib c p ch sp = Inr (Some q)"
    and "\<And>h n. 0 < n \<Longrightarrow> n \<le> 8 * int (length h) \<Longrightarrow>
      leading_bits_uint lib h n = Inr (be_int h div 2 ^ nat (8 * int (length h) - n))"
    and "\<And>b. length (std_hash b) = 32"
    and "0 < NUMBER_ZERO_BITS_PLOT_FILTER c" and "NUMBER_ZERO_BITS_PLOT_FILTER c \<le> 256"
  shows "(pos_pool_public_key p = None) \<noteq> (pos_pool_contract_puzzle_hash p = None) \<and>
    MIN_PLOT_SIZE c \<le> pos_size p \<and> pos_size p \<le> MAX_PLOT_SIZE c \<and> length q = 32 \<and>
    (\<exists>plot_id. get_plot_id std_hash lib p = Inr plot_id \<and>
       pos_challenge p = std_hash (std_hash (plot_id @ ch @ sp)) \<and>
       be_int (std_hash (plot_id @ ch @ sp)) < 2 ^ nat (256 - NUMBER_ZERO_BITS_PLOT_FILTER c) \<and>
       validate_proof lib plot_id (pos_size p) (pos_challenge p) (pos_proof p) = q)"
proof -
  obtain plot_id where id: "get_plot_id std_hash lib p = Inr plot_id"
    and ch: "pos_challenge p = std_hash (std_hash (plot_id @ ch @ sp))"
    and filter: "leading_bits_uint lib (std_hash (plot_id @ ch @ sp)) (NUMBER_ZERO_BITS_PLOT_FILTER c) = Inr 0"
    and q: "get_quality_string lib p plot_id = Inr (Some q)"
    using assms(1)
    by (auto simp: verify_and_get_quality_string_def calculate_pos_challenge_def passes_plot_filter_def
        calculate_plot_filter_input_def rbind_eq_Inr split: if_splits)
  have "be_int (std_hash (plot_id @ ch @ sp)) div 2 ^ nat (256 - NUMBER_ZERO_BITS_PLOT_FILTER c) = 0"
    using filter assms(2) [of "NUMBER_ZERO_BITS_PLOT_FILTER c" "std_hash (plot_id @ ch @ sp)"] assms(3-5) by simp
  then have "be_int (std_hash (plot_id @ ch @ sp)) < 2 ^ nat (256 - NUMBER_ZERO_BITS_PLOT_FILTER c)"
    using be_int_nonneg [of "std_hash (plot_id @ ch @ sp)"]
    by (auto simp: zdiv_eq_0_iff)
  moreover have "validate_proof lib plot_id (pos_size p) (pos_challenge p) (pos_proof p) = q \<and> length q = 32"
    using q by (auto simp: get_quality_string_def sized_bytes_def Let_def rbind_eq_Inr split: if_splits)
  moreover have "(pos_pool_public_key p = None) \<noteq> (pos_pool_contract_puzzle_hash p = None) \<and>
    MIN_PLOT_SIZE c \<le> pos_size p \<and> pos_size p \<le> MAX_PLOT_SIZE c"
    using assms(1) by (auto simp: verify_and_get_quality_string_def split: if_splits)
  ultimately show ?thesis using id ch by (intro conjI exI [of _ plot_id]) simp_all
qed

definition sample_lib :: pos_lib where
  "sample_lib = \<lparr>g1_add = (\<lambda>a b. a), key_gen = (\<lambda>s. s), get_g1 = (\<lambda>k. k),
     leading_bits_uint = (\<lambda>h n. Inr (be_int h div 2 ^ nat (8 * int (length h) - n))),
     validate_proof = (\<lambda>_ _ _ _. replicate 32 7)\<rparr>"

definition sample_proof :: ProofOfSpace where
  "sample_proof = \<lparr>pos_challenge = replicate 32 0, pos_pool_public_key = Some [1],
     pos_pool_contract_puzzle_hash = None, pos_local_public_key = [2], pos_size = 32, pos_proof = [3],
     pos_farmer_public_key = [4]\<rparr>"

lemma sample_proof_accepted:
  "verify_and_get_quality_string (\<lambda>_. replicate 32 0) sample_lib DEFAULT_CONSTANTS sample_proof [] [] =
   Inr (Some (replicate 32 7))"
  by code_simp

theorem quality_string_sound_witness:
  "verify_and_get_quality_string (\<lambda>_. replicate 32 0) sample_lib DEFAULT_CONSTANTS sample_proof [] [] =
     Inr (Some (replicate 32 7)) \<and>
   MIN_PLOT_SIZE DEFAULT_CONSTANTS \<le> pos_size sample_proof \<and>
   pos_size sample_proof \<le> MAX_PLOT_SIZE DEFAULT_CONSTANTS"
  using quality_string_sound [OF sample_proof_accepted] sample_proof_accepted
  by (simp add: sample_lib_def DEFAULT_CONSTANTS_def)

end
