(* ===== verification/Gold_Coins.thy ===== *)
theory Gold_Coins
  imports Gold_Types Gold_Streamable_Correct Gold_Consensus
begin

text \<open>
  Coins and coin records (\<^verbatim>\<open>src/chia/types/blockchain_format/coin.py\<close>,
  \<^verbatim>\<open>src/chia/types/coin_record.py\<close>), the reward coins (\<^verbatim>\<open>src/chia/consensus/coinbase.py\<close>) and
  the methods of the block classes (\<^verbatim>\<open>src/chia/types/full_block.py\<close> and its siblings).
  \<open>int_to_bytes\<close> is the integer encoding of the CLVM package.
\<close>

section \<open>Serialised objects\<close>

text \<open>The bytes of a well typed object are those that streaming it writes.\<close>

lemma object_bytes_stream:
  assumes "has_type ok t v"
  shows "stream_one_item t v = Inr (object_bytes t v)"
  using streamable.complete [OF assms] by (auto simp: object_bytes_def)

lemma object_bytes_inject:
  assumes "has_type ok t v" and "has_type ok t w" and "object_bytes t v = object_bytes t w"
  shows "v = w"
  using assms streamable.stream_inject [of ok t v w] by (simp add: object_bytes_stream)

section \<open>Coins\<close>

definition coin_get_hash :: "(bytes \<Rightarrow> bytes) \<Rightarrow> (int \<Rightarrow> bytes) \<Rightarrow> Coin \<Rightarrow> bytes32" where
  "coin_get_hash std_hash int_to_bytes c =
     std_hash (coin_parent_coin_info c @ coin_puzzle_hash c @ int_to_bytes (coin_amount c))"

definition coin_name :: "(bytes \<Rightarrow> bytes) \<Rightarrow> (int \<Rightarrow> bytes) \<Rightarrow> Coin \<Rightarrow> bytes32" where
  "coin_name std_hash int_to_bytes c = coin_get_hash std_hash int_to_bytes c"

text \<open>The hexadecimal digits of bytes; their order as text is the order of the digits.\<close>

definition hex :: "bytes \<Rightarrow> int list" where
  "hex bs = concat (map (\<lambda>b. [uint b div 16, uint b mod 16]) bs)"

definition name_str :: "(bytes \<Rightarrow> bytes) \<Rightarrow> (int \<Rightarrow> bytes) \<Rightarrow> Coin \<Rightarrow> int list" where
  "name_str std_hash int_to_bytes c = hex (coin_name std_hash int_to_bytes c)"

text \<open>
  \<^verbatim>\<open>sort\<close> with \<^verbatim>\<open>reverse=True\<close> is stable. The list is sorted in place, so the sorted list is
  returned next to the hash.
\<close>

definition hash_coin_list ::
    "(bytes \<Rightarrow> bytes) \<Rightarrow> (int \<Rightarrow> bytes) \<Rightarrow> Coin list \<Rightarrow> bytes32 \<times> Coin list" where
  "hash_coin_list std_hash int_to_bytes coin_list =
     (let sorted_list = rev (sort_key (name_str std_hash int_to_bytes) (rev coin_list));
          buffer = concat (map (coin_name std_hash int_to_bytes) sorted_list)
      in (std_hash buffer, sorted_list))"

definition create_pool_coin :: "int \<Rightarrow> bytes32 \<Rightarrow> int \<Rightarrow> bytes32 \<Rightarrow> Coin res" where
  "create_pool_coin block_height puzzle_hash reward genesis_challenge =
     rbind (pool_parent_id block_height genesis_challenge) (\<lambda>parent_id.
     Inr \<lparr>coin_parent_coin_info = parent_id, coin_puzzle_hash = puzzle_hash, coin_amount = reward\<rparr>)"

definition create_farmer_coin :: "int \<Rightarrow> bytes32 \<Rightarrow> int \<Rightarrow> bytes32 \<Rightarrow> Coin res" where
  "create_farmer_coin block_height puzzle_hash reward genesis_challenge =
     rbind (farmer_parent_id block_height genesis_challenge) (\<lambda>parent_id.
     Inr \<lparr>coin_parent_coin_info = parent_id, coin_puzzle_hash = puzzle_hash, coin_amount = reward\<rparr>)"

record CoinRecord =
  cr_coin :: Coin
  cr_confirmed_block_index :: int
  cr_spent_block_index :: int
  cr_spent :: bool
  cr_coinbase :: bool
  cr_timestamp :: int

definition cr_name :: "(bytes \<Rightarrow> bytes) \<Rightarrow> (int \<Rightarrow> bytes) \<Rightarrow> CoinRecord \<Rightarrow> bytes32" where
  "cr_name std_hash int_to_bytes r = coin_name std_hash int_to_bytes (cr_coin r)"

record CoinState =
  cs_coin :: Coin
  cs_spent_height :: "int option"
  cs_created_height :: "int option"

definition coin_state :: "CoinRecord \<Rightarrow> CoinState" where
  "coin_state r =
     \<lparr>cs_coin = cr_coin r,
      cs_spent_height = (if cr_spent r then Some (cr_spent_block_index r) else None),
      cs_created_height =
        (if cr_confirmed_block_index r = 0 \<and> cr_timestamp r = 0 then None
         else Some (cr_confirmed_block_index r))\<rparr>"

section \<open>The methods of the block classes\<close>

definition fb_prev_header_hash :: "FullBlock \<Rightarrow> bytes32" where
  "fb_prev_header_hash b = fol_prev_block_hash (fb_foliage b)"

definition fb_height :: "FullBlock \<Rightarrow> int" where
  "fb_height b = rcb_height (fb_reward_chain_block b)"

definition fb_weight :: "FullBlock \<Rightarrow> int" where
  "fb_weight b = rcb_weight (fb_reward_chain_block b)"

definition fb_total_iters :: "FullBlock \<Rightarrow> int" where
  "fb_total_iters b = rcb_total_iters (fb_reward_chain_block b)"

definition fb_header_hash :: "(bytes \<Rightarrow> bytes) \<Rightarrow> FullBlock \<Rightarrow> bytes32" where
  "fb_header_hash std_hash b = Foliage_hash std_hash (fb_foliage b)"

definition fb_is_transaction_block :: "FullBlock \<Rightarrow> bool" where
  "fb_is_transaction_block b = (fb_foliage_transaction_block b \<noteq> None)"

definition get_included_reward_coins :: "FullBlock \<Rightarrow> Coin set res" where
  "get_included_reward_coins b =
     (if \<not> fb_is_transaction_block b then Inr {}
      else rbind (not_none (fb_transactions_info b)) (\<lambda>info.
           Inr (set (ti_reward_claims_incorporated info))))"

definition compact_proof :: "VDFProof \<Rightarrow> bool" where
  "compact_proof p = (\<not> (vp_witness_type p \<noteq> 0 \<or> \<not> vp_normalized_to_identity p))"

definition is_fully_compactified :: "FullBlock \<Rightarrow> bool" where
  "is_fully_compactified b =
     ((\<forall>s \<in> set (fb_finished_sub_slots b).
         compact_proof (ssp_challenge_chain_slot_proof (eos_proofs s)) \<and>
         pred_option compact_proof (ssp_infused_challenge_chain_slot_proof (eos_proofs s))) \<and>
      pred_option compact_proof (fb_challenge_chain_sp_proof b) \<and>
      compact_proof (fb_challenge_chain_ip_proof b))"

definition hb_prev_header_hash :: "HeaderBlock \<Rightarrow> bytes32" where
  "hb_prev_header_hash b = fol_prev_block_hash (hb_foliage b)"

definition hb_prev_hash :: "HeaderBlock \<Rightarrow> bytes32" where
  "hb_prev_hash b = fol_prev_block_hash (hb_foliage b)"

definition hb_height :: "HeaderBlock \<Rightarrow> int" where
  "hb_height b = rcb_height (hb_reward_chain_block b)"

definition hb_weight :: "HeaderBlock \<Rightarrow> int" where
  "hb_weight b = rcb_weight (hb_reward_chain_block b)"

definition hb_header_hash :: "(bytes \<Rightarrow> bytes) \<Rightarrow> HeaderBlock \<Rightarrow> bytes32" where
  "hb_header_hash std_hash b = Foliage_hash std_hash (hb_foliage b)"

definition hb_total_iters :: "HeaderBlock \<Rightarrow> int" where
  "hb_total_iters b = rcb_total_iters (hb_reward_chain_block b)"

definition hb_is_transaction_block :: "HeaderBlock \<Rightarrow> bool" where
  "hb_is_transaction_block b = rcb_is_transaction_block (hb_reward_chain_block b)"

definition hb_first_in_sub_slot :: "HeaderBlock \<Rightarrow> bool" where
  "hb_first_in_sub_slot b = (length (hb_finished_sub_slots b) > 0)"

definition ub_prev_header_hash :: "UnfinishedBlock \<Rightarrow> bytes32" where
  "ub_prev_header_hash b = fol_prev_block_hash (ub_foliage b)"

definition ub_partial_hash :: "(bytes \<Rightarrow> bytes) \<Rightarrow> UnfinishedBlock \<Rightarrow> bytes32" where
  "ub_partial_hash std_hash b = RewardChainBlockUnfinished_hash std_hash (ub_reward_chain_block b)"

definition ub_is_transaction_block :: "UnfinishedBlock \<Rightarrow> bool" where
  "ub_is_transaction_block b = (fol_foliage_transaction_block_hash (ub_foliage b) \<noteq> None)"

definition ub_total_iters :: "UnfinishedBlock \<Rightarrow> int" where
  "ub_total_iters b = rcbu_total_iters (ub_reward_chain_block b)"

definition uhb_prev_header_hash :: "UnfinishedHeaderBlock \<Rightarrow> bytes32" where
  "uhb_prev_header_hash b = fol_prev_block_hash (uhb_foliage b)"

definition uhb_header_hash :: "(bytes \<Rightarrow> bytes) \<Rightarrow> UnfinishedHeaderBlock \<Rightarrow> bytes32" where
  "uhb_header_hash std_hash b = Foliage_hash std_hash (uhb_foliage b)"

definition uhb_total_iters :: "UnfinishedHeaderBlock \<Rightarrow> int" where
  "uhb_total_iters b = rcbu_total_iters (uhb_reward_chain_block b)"

end
