(* ===== verification/Gold_Chain.thy ===== *)
theory Gold_Chain
  imports Gold_Block_Record Gold_Coins
begin

text \<open>
  Access to the chain of block records. The interface the consensus functions read
  (\<^verbatim>\<open>src/chia/consensus/blockchain_interface.py\<close>) is a record of functions; the in-memory
  provider is \<^verbatim>\<open>src/chia/util/block_cache.py\<close>. On it: the fork point of two blocks
  (\<^verbatim>\<open>src/chia/consensus/find_fork_point.py\<close>) and the adjustment of difficulty and sub-slot
  iterations (\<^verbatim>\<open>src/chia/consensus/difficulty_adjustment.py\<close>). Loops that follow the previous
  hash are \<^const>\<open>cwhile\<close> loops, which are \<^term>\<open>None\<close> when they do not end.
\<close>

section \<open>The interface\<close>

record blockchain_view =
  contains_block :: "bytes32 \<Rightarrow> bool"
  block_record :: "bytes32 \<Rightarrow> BlockRecord res"
  contains_height :: "int \<Rightarrow> bool"
  height_to_hash :: "int \<Rightarrow> bytes32 option"
  height_to_block_record :: "int \<Rightarrow> BlockRecord res"

definition try_block_record :: "blockchain_view \<Rightarrow> bytes32 \<Rightarrow> BlockRecord option res" where
  "try_block_record blocks header_hash =
     (if contains_block blocks header_hash
      then rbind (block_record blocks header_hash) (\<lambda>b. Inr (Some b)) else Inr None)"

section \<open>The block cache\<close>

record BlockCache =
  bc_block_records :: "(bytes32, BlockRecord) dict"
  bc_headers :: "(bytes32, HeaderBlock) dict"
  bc_height_to_hash :: "(int, bytes32) dict"
  bc_sub_epoch_summaries :: "(int, SubEpochSummary) dict"

definition bc_block_record :: "BlockCache \<Rightarrow> bytes32 \<Rightarrow> BlockRecord res" where
  "bc_block_record s header_hash = from_key (dget (bc_block_records s) header_hash)"

definition bc_get_height_to_hash :: "BlockCache \<Rightarrow> int \<Rightarrow> bytes32 option" where
  "bc_get_height_to_hash s height =
     (if \<not> dmem height (bc_height_to_hash s) then None else dget (bc_height_to_hash s) height)"

text \<open>An absent height gives the hash \<^verbatim>\<open>None\<close>, which is no key of the records.\<close>

definition bc_height_to_block_record :: "BlockCache \<Rightarrow> int \<Rightarrow> BlockRecord res" where
  "bc_height_to_block_record s height =
     (case bc_get_height_to_hash s height of
        None \<Rightarrow> Inl KeyError
      | Some header_hash \<Rightarrow> bc_block_record s header_hash)"

definition bc_get_ses_heights :: "BlockCache \<Rightarrow> int list" where
  "bc_get_ses_heights s = sort (dkeys (bc_sub_epoch_summaries s))"

definition bc_get_ses :: "BlockCache \<Rightarrow> int \<Rightarrow> SubEpochSummary res" where
  "bc_get_ses s height = from_key (dget (bc_sub_epoch_summaries s) height)"

definition bc_contains_block :: "BlockCache \<Rightarrow> bytes32 \<Rightarrow> bool" where
  "bc_contains_block s header_hash = dmem header_hash (bc_block_records s)"

definition bc_contains_height :: "BlockCache \<Rightarrow> int \<Rightarrow> bool" where
  "bc_contains_height s height = dmem height (bc_height_to_hash s)"

definition bc_get_block_records_at :: "BlockCache \<Rightarrow> int list \<Rightarrow> BlockRecord list res" where
  "bc_get_block_records_at s heights = rmap (bc_height_to_block_record s) heights"

definition bc_remove_block_record :: "BlockCache \<Rightarrow> bytes32 \<Rightarrow> BlockCache res" where
  "bc_remove_block_record s header_hash =
     rbind (ddel_res header_hash (bc_block_records s)) (\<lambda>d. Inr (s\<lparr>bc_block_records := d\<rparr>))"

definition bc_add_block_record :: "BlockCache \<Rightarrow> BlockRecord \<Rightarrow> BlockCache" where
  "bc_add_block_record s block =
     s\<lparr>bc_block_records := dput (br_header_hash block) block (bc_block_records s)\<rparr>"

definition block_cache_view :: "BlockCache \<Rightarrow> blockchain_view" where
  "block_cache_view s = \<lparr>
     contains_block = bc_contains_block s,
     block_record = bc_block_record s,
     contains_height = bc_contains_height s,
     height_to_hash = bc_get_height_to_hash s,
     height_to_block_record = bc_height_to_block_record s\<rparr>"

section \<open>The fork point\<close>

text \<open>The function takes block records and header blocks; blocks of different classes differ.\<close>

datatype chain_block = Rec BlockRecord | Hdr HeaderBlock

fun cb_height :: "chain_block \<Rightarrow> int" where
  "cb_height (Rec b) = br_height b"
| "cb_height (Hdr b) = hb_height b"

fun cb_prev_hash :: "chain_block \<Rightarrow> bytes32" where
  "cb_prev_hash (Rec b) = br_prev_hash b"
| "cb_prev_hash (Hdr b) = hb_prev_hash b"

fun cb_header_hash :: "(bytes \<Rightarrow> bytes) \<Rightarrow> chain_block \<Rightarrow> bytes32" where
  "cb_header_hash std_hash (Rec b) = br_header_hash b"
| "cb_header_hash std_hash (Hdr b) = hb_header_hash std_hash b"

definition cb_parent :: "blockchain_view \<Rightarrow> chain_block \<Rightarrow> chain_block res" where
  "cb_parent blocks b = rbind (block_record blocks (cb_prev_hash b)) (\<lambda>r. Inr (Rec r))"

text \<open>The state of the loop: the two blocks, and the height once the loop has returned it.\<close>

type_synonym fork_state = "chain_block \<times> chain_block \<times> int option"

definition fork_cond :: "fork_state \<Rightarrow> bool" where
  "fork_cond = (\<lambda>(block_1, block_2, found).
     found = None \<and> (cb_height block_2 > 0 \<or> cb_height block_1 > 0))"

definition fork_body :: "(bytes \<Rightarrow> bytes) \<Rightarrow> blockchain_view \<Rightarrow> fork_state \<Rightarrow> fork_state res" where
  "fork_body std_hash blocks = (\<lambda>(block_1, block_2, found).
     if cb_height block_2 > cb_height block_1 then
       rbind (cb_parent blocks block_2) (\<lambda>b2. Inr (block_1, b2, None))
     else if cb_height block_1 > cb_height block_2 then
       rbind (cb_parent blocks block_1) (\<lambda>b1. Inr (b1, block_2, None))
     else if cb_header_hash std_hash block_2 = cb_header_hash std_hash block_1 then
       Inr (block_1, block_2, Some (cb_height block_2))
     else
       rbind (cb_parent blocks block_2) (\<lambda>b2.
       rbind (cb_parent blocks block_1) (\<lambda>b1. Inr (b1, b2, None))))"

definition find_fork_point_in_chain ::
    "(bytes \<Rightarrow> bytes) \<Rightarrow> blockchain_view \<Rightarrow> chain_block \<Rightarrow> chain_block \<Rightarrow> int comp" where
  "find_fork_point_in_chain std_hash blocks block_1 block_2 =
     cbind (cwhile fork_cond (fork_body std_hash blocks) (block_1, block_2, None)) (\<lambda>(b1, b2, found).
     case found of
       Some h \<Rightarrow> cret h
     | None \<Rightarrow> if b2 \<noteq> b1 then cret (-1) else cret 0)"

end
