(* ===== verification/Gold_Difficulty.thy ===== *)
theory Gold_Difficulty
  imports Gold_Chain
begin

text \<open>
  The adjustment of difficulty and sub-slot iterations at the end of an epoch,
  \<^verbatim>\<open>src/chia/consensus/difficulty_adjustment.py\<close>.
\<close>

section \<open>Fetching ancestors\<close>

text \<open>The state of the slow search: the block, the blocks taken, and whether genesis ended it.\<close>

definition slow_cond :: "int \<Rightarrow> BlockRecord \<times> BlockRecord list \<times> bool \<Rightarrow> bool" where
  "slow_cond target_height = (\<lambda>(curr_b, target_blocks, stop).
     \<not> stop \<and> br_height curr_b \<ge> target_height)"

definition slow_body :: "blockchain_view \<Rightarrow> int \<Rightarrow> int \<Rightarrow> BlockRecord \<times> BlockRecord list \<times> bool \<Rightarrow>
    (BlockRecord \<times> BlockRecord list \<times> bool) res" where
  "slow_body blocks target_height max_num_blocks = (\<lambda>(curr_b, target_blocks, stop).
     let target_blocks =
       (if br_height curr_b < target_height + max_num_blocks then target_blocks @ [curr_b]
        else target_blocks)
     in if br_height curr_b = 0 then Inr (curr_b, target_blocks, True)
        else rbind (block_record blocks (br_prev_hash curr_b)) (\<lambda>b. Inr (b, target_blocks, False)))"

definition get_blocks_at_height ::
    "blockchain_view \<Rightarrow> BlockRecord \<Rightarrow> int \<Rightarrow> int \<Rightarrow> BlockRecord list comp" where
  "get_blocks_at_height blocks prev_b target_height max_num_blocks =
     (if contains_height blocks (br_height prev_b) \<and>
         height_to_hash blocks (br_height prev_b) = Some (br_header_hash prev_b)
      then
        Some (rmap (\<lambda>h. rbind (uint32 h) (\<lambda>h.
                         rbind (py_assert (contains_height blocks h)) (\<lambda>_.
                         height_to_block_record blocks h)))
                [target_height..target_height + max_num_blocks - 1])
      else
        cbind (cwhile (slow_cond target_height) (slow_body blocks target_height max_num_blocks)
                 (prev_b, [], False)) (\<lambda>(curr_b, target_blocks, stop).
        cret (rev target_blocks)))"

text \<open>Waiting for the summary, and walking back over transaction blocks.\<close>

definition ses_cond :: "BlockRecord \<times> BlockRecord \<times> int \<Rightarrow> bool" where
  "ses_cond = (\<lambda>(curr_b, next_b, i). br_sub_epoch_summary_included next_b = None)"

definition ses_body :: "BlockRecord list \<Rightarrow> BlockRecord \<times> BlockRecord \<times> int \<Rightarrow>
    (BlockRecord \<times> BlockRecord \<times> int) res" where
  "ses_body fetched_blocks = (\<lambda>(curr_b, next_b, i).
     rbind (py_nth fetched_blocks i) (\<lambda>b. Inr (next_b, b, i + 1)))"

definition tx_body :: "blockchain_view \<Rightarrow> BlockRecord \<times> int \<Rightarrow> (BlockRecord \<times> int) res" where
  "tx_body blocks = (\<lambda>(curr_b, found_tx_block).
     rbind (block_record blocks (br_prev_hash curr_b)) (\<lambda>b.
     Inr (b, if br_is_transaction_block b then found_tx_block + 1 else found_tx_block)))"

definition get_second_to_last_transaction_block_in_previous_epoch ::
    "ConsensusConstants \<Rightarrow> blockchain_view \<Rightarrow> BlockRecord \<Rightarrow> BlockRecord comp" where
  "get_second_to_last_transaction_block_in_previous_epoch c blocks last_b =
     (let height_in_next_epoch =
            br_height last_b + 2 * MAX_SUB_SLOT_BLOCKS c + MIN_BLOCKS_PER_CHALLENGE_BLOCK c + 5 in
      cbind (Some (py_mod height_in_next_epoch (EPOCH_BLOCKS c))) (\<lambda>r.
      cbind (Some (uint32 (height_in_next_epoch - r))) (\<lambda>height_epoch_surpass.
      cbind (Some (uint32 (height_epoch_surpass - EPOCH_BLOCKS c))) (\<lambda>height_prev_epoch_surpass.
      cbind (Some (py_assert (height_prev_epoch_surpass mod EPOCH_BLOCKS c = 0))) (\<lambda>_.
      cbind (Some (py_assert
               (height_in_next_epoch - height_epoch_surpass < 5 * MAX_SUB_SLOT_BLOCKS c))) (\<lambda>_.
      if height_prev_epoch_surpass = 0 then
        cbind (get_blocks_at_height blocks last_b 0 1) (\<lambda>l. Some (py_nth l 0))
      else
        cbind (Some (uint32 (height_prev_epoch_surpass - MAX_SUB_SLOT_BLOCKS c - 1))) (\<lambda>start.
        cbind (Some (uint32 (3 * MAX_SUB_SLOT_BLOCKS c + MIN_BLOCKS_PER_CHALLENGE_BLOCK c + 3))) (\<lambda>num.
        cbind (get_blocks_at_height blocks last_b start num) (\<lambda>fetched_blocks.
        cbind (Some (py_nth fetched_blocks (MAX_SUB_SLOT_BLOCKS c))) (\<lambda>curr_b.
        cbind (Some (py_assert (br_height curr_b = height_prev_epoch_surpass - 1))) (\<lambda>_.
        cbind (Some (py_nth fetched_blocks (MAX_SUB_SLOT_BLOCKS c + 1))) (\<lambda>next_b.
        cbind (Some (py_assert (br_height next_b = height_prev_epoch_surpass))) (\<lambda>_.
        cbind (cwhile ses_cond (ses_body fetched_blocks) (curr_b, next_b, MAX_SUB_SLOT_BLOCKS c + 1))
          (\<lambda>(curr_b, next_b, i).
        cbind (cwhile (\<lambda>(b, found_tx_block). found_tx_block < 2) (tx_body blocks)
                 (curr_b, if br_is_transaction_block curr_b then 1 else 0)) (\<lambda>(b, n).
        cret b)))))))))))))))"

section \<open>The ends of sub-epochs and epochs\<close>

definition height_can_be_first_in_epoch :: "ConsensusConstants \<Rightarrow> int \<Rightarrow> bool res" where
  "height_can_be_first_in_epoch c height =
     rbind (py_mod height (SUB_EPOCH_BLOCKS c)) (\<lambda>r.
     rbind (py_mod (height - r) (EPOCH_BLOCKS c)) (\<lambda>s. Inr (s = 0)))"

text \<open>
  The search for an earlier summary: the flag is set when the loop returns early. The modulus is
  not zero when the loop is reached.
\<close>

definition summary_cond :: "ConsensusConstants \<Rightarrow> BlockRecord \<times> bool \<Rightarrow> bool" where
  "summary_cond c = (\<lambda>(curr, early). \<not> early \<and> br_height curr mod SUB_EPOCH_BLOCKS c > 0)"

definition summary_body :: "blockchain_view \<Rightarrow> BlockRecord \<times> bool \<Rightarrow> (BlockRecord \<times> bool) res" where
  "summary_body blocks = (\<lambda>(curr, early).
     if br_sub_epoch_summary_included curr \<noteq> None then Inr (curr, True)
     else rbind (block_record blocks (br_prev_hash curr)) (\<lambda>b. Inr (b, False)))"

definition can_finish_sub_and_full_epoch ::
    "ConsensusConstants \<Rightarrow> blockchain_view \<Rightarrow> int \<Rightarrow> bytes32 option \<Rightarrow> int \<Rightarrow> bool \<Rightarrow> (bool \<times> bool) comp" where
  "can_finish_sub_and_full_epoch c blocks height prev_header_hash deficit block_at_height_included_ses =
     (if height < SUB_EPOCH_BLOCKS c - 1 then cret (False, False)
      else
        cbind (Some (not_none prev_header_hash)) (\<lambda>prev_header_hash.
        if deficit > 0 then cret (False, False)
        else if block_at_height_included_ses then cret (False, False)
        else
          cbind (Some (py_mod (height + 1) (SUB_EPOCH_BLOCKS c))) (\<lambda>r.
          cbind (if r > 1 then
                   cbind (Some (block_record blocks prev_header_hash)) (\<lambda>curr.
                   cbind (cwhile (summary_cond c) (summary_body blocks) (curr, False)) (\<lambda>(curr, early).
                   cret (early \<or> br_sub_epoch_summary_included curr \<noteq> None)))
                 else cret False) (\<lambda>included.
          if included then cret (False, False)
          else
            cbind (Some (uint32 (height + 1))) (\<lambda>next_height.
            cbind (Some (height_can_be_first_in_epoch c next_height)) (\<lambda>first.
            cret (True, first)))))))"

section \<open>The new values\<close>

text \<open>Walking back to the last transaction block at or before the signage point.\<close>

definition last_tx_before :: "blockchain_view \<Rightarrow> int \<Rightarrow> BlockRecord \<Rightarrow> BlockRecord comp" where
  "last_tx_before blocks signage_point_total_iters prev_b =
     cwhile (\<lambda>b. br_total_iters b > signage_point_total_iters \<or> \<not> br_is_transaction_block b)
       (\<lambda>b. block_record blocks (br_prev_hash b)) prev_b"

definition adjust_ssi :: "ConsensusConstants \<Rightarrow> BlockRecord \<Rightarrow> BlockRecord \<Rightarrow> int res" where
  "adjust_ssi c last_block_curr last_block_prev =
     rbind (not_none (br_timestamp last_block_curr)) (\<lambda>t_curr.
     rbind (not_none (br_timestamp last_block_prev)) (\<lambda>t_prev.
     rbind (floor_div
              (SUB_SLOT_TIME_TARGET c * (br_total_iters last_block_curr - br_total_iters last_block_prev))
              (t_curr - t_prev)) (\<lambda>q.
     rbind (uint64 q) (\<lambda>new_ssi_precise.
     rbind (uint64 (DIFFICULTY_CHANGE_MAX_FACTOR c * br_sub_slot_iters last_block_curr)) (\<lambda>max_ssi.
     rbind (floor_div (br_sub_slot_iters last_block_curr) (DIFFICULTY_CHANGE_MAX_FACTOR c)) (\<lambda>m.
     rbind (uint64 m) (\<lambda>min_ssi.
     rbind (if new_ssi_precise \<ge> br_sub_slot_iters last_block_curr
            then uint64 (min new_ssi_precise max_ssi)
            else uint64 (max (NUM_SPS_SUB_SLOT c) (max new_ssi_precise min_ssi))) (\<lambda>new_ssi_precise.
     let new_ssi = truncate_to_significant_bits new_ssi_precise (SIGNIFICANT_BITS c) in
     rbind (py_mod new_ssi (NUM_SPS_SUB_SLOT c)) (\<lambda>r.
     rbind (uint64 (new_ssi - r)) (\<lambda>new_ssi.
     rbind (py_assert (count_significant_bits new_ssi \<le> SIGNIFICANT_BITS c)) (\<lambda>_.
     Inr new_ssi)))))))))))"

text \<open>What both functions do before they adjust: the blocks to measure between, or the old value.\<close>

definition epoch_blocks ::
    "ConsensusConstants \<Rightarrow> blockchain_view \<Rightarrow> bytes32 \<Rightarrow> int \<Rightarrow> int \<Rightarrow> bool \<Rightarrow> bool \<Rightarrow> int \<Rightarrow> bool \<Rightarrow>
     (BlockRecord \<times> BlockRecord \<times> BlockRecord) option comp" where
  "epoch_blocks c blocks prev_header_hash height deficit included_ses new_slot sp_total_iters skip_epoch_check =
     (if \<not> contains_block blocks prev_header_hash then craise ValueError
      else
        cbind (Some (block_record blocks prev_header_hash)) (\<lambda>prev_b.
        cbind (if skip_epoch_check then cret False
               else cbind (can_finish_sub_and_full_epoch c blocks height (Some prev_header_hash) deficit
                             included_ses) (\<lambda>(_, can_finish_epoch).
                    cret (\<not> new_slot \<or> \<not> can_finish_epoch))) (\<lambda>same.
        if same then cret None
        else
          cbind (get_second_to_last_transaction_block_in_previous_epoch c blocks prev_b) (\<lambda>last_block_prev.
          cbind (last_tx_before blocks sp_total_iters prev_b) (\<lambda>last_block_curr.
          cret (Some (prev_b, last_block_prev, last_block_curr)))))))"

definition get_next_sub_slot_iters ::
    "ConsensusConstants \<Rightarrow> blockchain_view \<Rightarrow> bytes32 \<Rightarrow> int \<Rightarrow> int \<Rightarrow> int \<Rightarrow> bool \<Rightarrow> bool \<Rightarrow> int \<Rightarrow> bool \<Rightarrow>
     int comp" where
  "get_next_sub_slot_iters c blocks prev_header_hash height curr_sub_slot_iters deficit included_ses
       new_slot sp_total_iters skip_epoch_check =
     cbind (Some (uint32 (height + 1))) (\<lambda>next_height.
     if next_height < EPOCH_BLOCKS c then Some (uint64 (SUB_SLOT_ITERS_STARTING c))
     else
       cbind (epoch_blocks c blocks prev_header_hash height deficit included_ses new_slot sp_total_iters
                skip_epoch_check) (\<lambda>found.
       case found of
         None \<Rightarrow> cret curr_sub_slot_iters
       | Some (prev_b, last_block_prev, last_block_curr) \<Rightarrow>
           Some (adjust_ssi c last_block_curr last_block_prev)))"

definition adjust_difficulty :: "ConsensusConstants \<Rightarrow> int \<Rightarrow> int \<Rightarrow> int \<Rightarrow> int res" where
  "adjust_difficulty c old_difficulty weight_diff actual_epoch_time =
     rbind (floor_div (weight_diff * SUB_SLOT_TIME_TARGET c) (SLOT_BLOCKS_TARGET c * actual_epoch_time)) (\<lambda>q.
     rbind (uint64 q) (\<lambda>new_difficulty_precise.
     rbind (uint64 (DIFFICULTY_CHANGE_MAX_FACTOR c * old_difficulty)) (\<lambda>max_diff.
     rbind (floor_div old_difficulty (DIFFICULTY_CHANGE_MAX_FACTOR c)) (\<lambda>m.
     rbind (uint64 m) (\<lambda>min_diff.
     rbind (if new_difficulty_precise \<ge> old_difficulty then uint64 (min new_difficulty_precise max_diff)
            else uint64 (max 1 (max new_difficulty_precise min_diff))) (\<lambda>new_difficulty_precise.
     let new_difficulty = truncate_to_significant_bits new_difficulty_precise (SIGNIFICANT_BITS c) in
     rbind (py_assert (count_significant_bits new_difficulty \<le> SIGNIFICANT_BITS c)) (\<lambda>_.
     uint64 new_difficulty)))))))"

definition get_next_difficulty ::
    "ConsensusConstants \<Rightarrow> blockchain_view \<Rightarrow> bytes32 \<Rightarrow> int \<Rightarrow> int \<Rightarrow> int \<Rightarrow> bool \<Rightarrow> bool \<Rightarrow> int \<Rightarrow> bool \<Rightarrow>
     int comp" where
  "get_next_difficulty c blocks prev_header_hash height current_difficulty deficit included_ses
       new_slot sp_total_iters skip_epoch_check =
     cbind (Some (uint32 (height + 1))) (\<lambda>next_height.
     if next_height < EPOCH_BLOCKS c - 3 * MAX_SUB_SLOT_BLOCKS c then Some (uint64 (DIFFICULTY_STARTING c))
     else
       cbind (epoch_blocks c blocks prev_header_hash height deficit included_ses new_slot sp_total_iters
                skip_epoch_check) (\<lambda>found.
       case found of
         None \<Rightarrow> cret current_difficulty
       | Some (prev_b, last_block_prev, last_block_curr) \<Rightarrow>
           Some (
             rbind (not_none (br_timestamp last_block_curr)) (\<lambda>t_curr.
             rbind (not_none (br_timestamp last_block_prev)) (\<lambda>t_prev.
             rbind (uint64 (t_curr - t_prev)) (\<lambda>actual_epoch_time.
             rbind (block_record blocks (br_prev_hash prev_b)) (\<lambda>prev_prev_b.
             rbind (uint64 (br_weight prev_b - br_weight prev_prev_b)) (\<lambda>old_difficulty.
             adjust_difficulty c old_difficulty (br_weight last_block_curr - br_weight last_block_prev)
               actual_epoch_time))))))))"

definition get_next_sub_slot_iters_and_difficulty ::
    "ConsensusConstants \<Rightarrow> bool \<Rightarrow> BlockRecord option \<Rightarrow> blockchain_view \<Rightarrow> (int \<times> int) comp" where
  "get_next_sub_slot_iters_and_difficulty c is_first_in_sub_slot prev_b blocks =
     (case prev_b of
        None \<Rightarrow> cret (SUB_SLOT_ITERS_STARTING c, DIFFICULTY_STARTING c)
      | Some prev_b \<Rightarrow>
          cbind (Some (if br_height prev_b \<noteq> 0 then
                         rbind (block_record blocks (br_prev_hash prev_b)) (\<lambda>pp.
                         uint64 (br_weight prev_b - br_weight pp))
                       else uint64 (br_weight prev_b))) (\<lambda>prev_difficulty.
          if br_sub_epoch_summary_included prev_b \<noteq> None then cret (br_sub_slot_iters prev_b, prev_difficulty)
          else
            cbind (Some (br_sp_total_iters c prev_b)) (\<lambda>sp_total_iters.
            cbind (get_next_difficulty c blocks (br_prev_hash prev_b) (br_height prev_b) prev_difficulty
                     (br_deficit prev_b) False is_first_in_sub_slot sp_total_iters False) (\<lambda>difficulty.
            cbind (get_next_sub_slot_iters c blocks (br_prev_hash prev_b) (br_height prev_b)
                     (br_sub_slot_iters prev_b) (br_deficit prev_b) False is_first_in_sub_slot
                     sp_total_iters False) (\<lambda>sub_slot_iters.
            cret (sub_slot_iters, difficulty))))))"

end
