(* ===== verification/Gold_Chain_Correct.thy ===== *)
theory Gold_Chain_Correct
  imports Gold_Chain Gold_Block_Record_Correct
begin

text \<open>
  The contract of the chain interface, the block cache as its provider, and the fork point.
\<close>

section \<open>Ancestors\<close>

inductive ancestor :: "blockchain_view \<Rightarrow> BlockRecord \<Rightarrow> BlockRecord \<Rightarrow> bool" for v where
  ancestor_refl: "ancestor v b b"
| ancestor_step: "0 < br_height b \<Longrightarrow> block_record v (br_prev_hash b) = Inr p \<Longrightarrow> ancestor v p a \<Longrightarrow> ancestor v b a"

inductive_simps ancestor_unfold: "ancestor v b a"

definition on_chain :: "blockchain_view \<Rightarrow> BlockRecord \<Rightarrow> bool" where
  "on_chain v b = (block_record v (br_header_hash b) = Inr b)"

section \<open>The contract of the chain interface\<close>

text \<open>
  What the consensus functions rely on: a record is stored under its header hash, and every block
  above genesis has a parent one below it.
\<close>

locale chain_access =
  fixes view :: "'s \<Rightarrow> blockchain_view" and inv :: "'s \<Rightarrow> bool"
  assumes key: "inv s \<Longrightarrow> block_record (view s) h = Inr b \<Longrightarrow> br_header_hash b = h"
    and height_nonneg: "inv s \<Longrightarrow> block_record (view s) h = Inr b \<Longrightarrow> 0 \<le> br_height b"
    and parent: "inv s \<Longrightarrow> block_record (view s) h = Inr b \<Longrightarrow> 0 < br_height b \<Longrightarrow>
      \<exists>p. block_record (view s) (br_prev_hash b) = Inr p \<and> br_height p = br_height b - 1"
begin

lemma on_chain_parent:
  assumes "inv s" and "on_chain (view s) b" and "0 < br_height b"
  obtains p where "block_record (view s) (br_prev_hash b) = Inr p" "on_chain (view s) p"
    "br_height p = br_height b - 1"
  using parent [OF assms(1) _ assms(3)] assms(1,2) key unfolding on_chain_def by metis

lemma on_chain_height: "inv s \<Longrightarrow> on_chain (view s) b \<Longrightarrow> 0 \<le> br_height b"
  unfolding on_chain_def by (rule height_nonneg)

lemma ancestor_height:
  assumes "ancestor (view s) b a" and "inv s" and "on_chain (view s) b"
  shows "br_height a \<le> br_height b \<and> (br_height a = br_height b \<longrightarrow> a = b)"
  using assms
proof (induction rule: ancestor.induct)
  case (ancestor_step b p a)
  obtain p' where "block_record (view s) (br_prev_hash b) = Inr p'" "on_chain (view s) p'"
      "br_height p' = br_height b - 1"
    by (rule on_chain_parent [OF ancestor_step.prems(1,2) ancestor_step.hyps(1)])
  with ancestor_step show ?case by auto
qed simp

lemma ancestor_parent:
  assumes "block_record (view s) (br_prev_hash b) = Inr p" and "0 < br_height b"
  shows "ancestor (view s) b a \<longleftrightarrow> a = b \<or> ancestor (view s) p a"
  using assms ancestor_unfold [of "view s" b a] by auto

text \<open>The common ancestors of two blocks are kept when the higher one, or both, step back.\<close>

lemma common_step:
  assumes "inv s" and "on_chain (view s) b1" and "on_chain (view s) b2"
    and "br_height b1 < br_height b2" and "block_record (view s) (br_prev_hash b2) = Inr p"
  shows "ancestor (view s) b1 a \<and> ancestor (view s) b2 a \<longleftrightarrow> ancestor (view s) b1 a \<and> ancestor (view s) p a"
  using assms ancestor_height [of s b1 b2] on_chain_height [of s b1] by (auto simp: ancestor_parent)

lemma common_step_both:
  assumes "inv s" and "on_chain (view s) b1" and "on_chain (view s) b2"
    and "br_height b1 = br_height b2" and "b1 \<noteq> b2" and "0 < br_height b2"
    and "block_record (view s) (br_prev_hash b2) = Inr p2" and "block_record (view s) (br_prev_hash b1) = Inr p1"
  shows "ancestor (view s) b1 a \<and> ancestor (view s) b2 a \<longleftrightarrow> ancestor (view s) p1 a \<and> ancestor (view s) p2 a"
proof -
  have "\<not> ancestor (view s) b1 b2" "\<not> ancestor (view s) b2 b1"
    using assms ancestor_height [of s b1 b2] ancestor_height [of s b2 b1] by auto
  with assms show ?thesis
    using ancestor_parent [OF assms(7)] ancestor_parent [OF assms(8)] by auto
qed

definition fork_inv :: "'s \<Rightarrow> BlockRecord \<Rightarrow> BlockRecord \<Rightarrow> fork_state \<Rightarrow> bool" where
  "fork_inv s c1 c2 = (\<lambda>(x1, x2, found). \<exists>b1 b2. x1 = Rec b1 \<and> x2 = Rec b2 \<and>
     on_chain (view s) b1 \<and> on_chain (view s) b2 \<and>
     (\<forall>a. ancestor (view s) b1 a \<and> ancestor (view s) b2 a \<longleftrightarrow> ancestor (view s) c1 a \<and> ancestor (view s) c2 a) \<and>
     (\<forall>h. found = Some h \<longrightarrow> b1 = b2 \<and> h = br_height b2))"

definition fork_measure :: "fork_state \<Rightarrow> nat" where
  "fork_measure = (\<lambda>(x1, x2, found). nat (cb_height x1) + nat (cb_height x2) + (if found = None then 1 else 0))"

lemma fork_body_step:
  assumes s: "inv s" and I: "fork_inv s c1 c2 st" and c: "fork_cond st"
  shows "\<exists>st'. fork_body std_hash (view s) st = Inr st' \<and> fork_inv s c1 c2 st' \<and> fork_measure st' < fork_measure st"
proof -
  from I c obtain b1 b2 where st: "st = (Rec b1, Rec b2, None)" and on: "on_chain (view s) b1" "on_chain (view s) b2"
    and com: "\<And>a. ancestor (view s) b1 a \<and> ancestor (view s) b2 a \<longleftrightarrow> ancestor (view s) c1 a \<and> ancestor (view s) c2 a"
    and pos: "0 < br_height b2 \<or> 0 < br_height b1"
    unfolding fork_inv_def fork_cond_def by (cases st) auto
  note h = on_chain_height [OF s on(1)] on_chain_height [OF s on(2)]
  consider (gt) "br_height b1 < br_height b2" | (lt) "br_height b2 < br_height b1"
    | (same) "br_height b1 = br_height b2" "b1 = b2" | (diff) "br_height b1 = br_height b2" "b1 \<noteq> b2"
    by fastforce
  then show ?thesis
  proof cases
    case gt
    then have "0 < br_height b2" using h by simp
    then obtain p where p: "block_record (view s) (br_prev_hash b2) = Inr p" "on_chain (view s) p"
      "br_height p = br_height b2 - 1" using on_chain_parent [OF s on(2)] by blast
    with gt h on com common_step [OF s on gt p(1)] show ?thesis
      by (auto simp: st fork_body_def cb_parent_def fork_inv_def fork_measure_def)
  next
    case lt
    then have "0 < br_height b1" using h by simp
    then obtain p where p: "block_record (view s) (br_prev_hash b1) = Inr p" "on_chain (view s) p"
      "br_height p = br_height b1 - 1" using on_chain_parent [OF s on(1)] by blast
    with lt h on com common_step [OF s on(2,1) lt p(1)] show ?thesis
      by (auto simp: st fork_body_def cb_parent_def fork_inv_def fork_measure_def)
  next
    case same
    with on com show ?thesis by (auto simp: st fork_body_def fork_inv_def fork_measure_def)
  next
    case diff
    with pos have pos': "0 < br_height b1" "0 < br_height b2" by auto
    obtain p1 where p1: "block_record (view s) (br_prev_hash b1) = Inr p1" "on_chain (view s) p1"
      "br_height p1 = br_height b1 - 1" using on_chain_parent [OF s on(1) pos'(1)] by blast
    obtain p2 where p2: "block_record (view s) (br_prev_hash b2) = Inr p2" "on_chain (view s) p2"
      "br_height p2 = br_height b2 - 1" using on_chain_parent [OF s on(2) pos'(2)] by blast
    have "br_header_hash b2 \<noteq> br_header_hash b1" using diff(2) on unfolding on_chain_def by force
    with diff p1 p2 pos' on com common_step_both [OF s on diff pos'(2) p2(1) p1(1)] show ?thesis
      by (auto simp: st fork_body_def cb_parent_def fork_inv_def fork_measure_def)
  qed
qed

lemma fork_point:
  assumes s: "inv s" and on: "on_chain (view s) c1" "on_chain (view s) c2"
  shows "\<exists>h. find_fork_point_in_chain std_hash (view s) (Rec c1) (Rec c2) = cret h \<and>
    (if h = -1 then \<not> (\<exists>a. ancestor (view s) c1 a \<and> ancestor (view s) c2 a)
     else \<exists>a. ancestor (view s) c1 a \<and> ancestor (view s) c2 a \<and> br_height a = h \<and>
       (\<forall>a'. ancestor (view s) c1 a' \<and> ancestor (view s) c2 a' \<longrightarrow> br_height a' \<le> h))"
proof -
  let ?b = "fork_body std_hash (view s)" and ?st = "(Rec c1, Rec c2, None)"
  have "fork_inv s c1 c2 ?st" using on by (simp add: fork_inv_def)
  from cwhile_total [where I = "fork_inv s c1 c2" and m = fork_measure and c = fork_cond and b = ?b, OF this]
  obtain st where st: "cwhile fork_cond ?b ?st = cret st" "fork_inv s c1 c2 st" "\<not> fork_cond st"
    using fork_body_step [OF s] by (metis Inl_Inr_False sum.inject(2))
  then obtain b1 b2 found where eq: "st = (Rec b1, Rec b2, found)" and b: "on_chain (view s) b1" "on_chain (view s) b2"
    and com: "\<And>a. ancestor (view s) b1 a \<and> ancestor (view s) b2 a \<longleftrightarrow> ancestor (view s) c1 a \<and> ancestor (view s) c2 a"
    and f: "\<And>h. found = Some h \<Longrightarrow> b1 = b2 \<and> h = br_height b2"
    unfolding fork_inv_def by (cases st) auto
  note h = on_chain_height [OF s b(1)] on_chain_height [OF s b(2)]
  have low: "br_height b1 = 0 \<and> br_height b2 = 0" if "found = None"
    using st(3) that h by (auto simp: eq fork_cond_def)
  have anc: "ancestor (view s) b1 a \<Longrightarrow> br_height a \<le> br_height b1 \<and> (br_height a = br_height b1 \<longrightarrow> a = b1)"
      "ancestor (view s) b2 a \<Longrightarrow> br_height a \<le> br_height b2 \<and> (br_height a = br_height b2 \<longrightarrow> a = b2)" for a
    using ancestor_height [OF _ s b(1)] ancestor_height [OF _ s b(2)] by blast+
  show ?thesis
  proof (cases "b1 = b2")
    case True
    have "find_fork_point_in_chain std_hash (view s) (Rec c1) (Rec c2) = cret (br_height b2)"
      using f low True by (cases found) (auto simp: find_fork_point_in_chain_def st(1) eq)
    moreover have "ancestor (view s) c1 b2 \<and> ancestor (view s) c2 b2"
      using com [of b2] True ancestor_refl by blast
    ultimately show ?thesis using com anc h by (intro exI [of _ "br_height b2"]) auto
  next
    case False
    then have none: "found = None" using f by (cases found) auto
    have "a = b1" if "ancestor (view s) b1 a" for a
      using that low [OF none] ancestor_unfold [of "view s" b1 a] by auto
    moreover have "a = b2" if "ancestor (view s) b2 a" for a
      using that low [OF none] ancestor_unfold [of "view s" b2 a] by auto
    ultimately have "\<not> (\<exists>a. ancestor (view s) c1 a \<and> ancestor (view s) c2 a)" using com False by blast
    moreover have "find_fork_point_in_chain std_hash (view s) (Rec c1) (Rec c2) = cret (-1)"
      using False by (simp add: find_fork_point_in_chain_def st(1) eq none)
    ultimately show ?thesis by auto
  qed
qed

end

section \<open>The block cache provides the contract\<close>

definition record_ok :: "(bytes32, BlockRecord) dict \<Rightarrow> bytes32 \<times> BlockRecord \<Rightarrow> bool" where
  "record_ok d = (\<lambda>(h, b). br_header_hash b = h \<and> 0 \<le> br_height b \<and>
     (0 < br_height b \<longrightarrow>
       (case dget d (br_prev_hash b) of None \<Rightarrow> False | Some p \<Rightarrow> br_height p = br_height b - 1)))"

definition cache_ok :: "BlockCache \<Rightarrow> bool" where
  "cache_ok s = (\<forall>x \<in> set (bc_block_records s). record_ok (bc_block_records s) x)"

lemma cache_record:
  assumes "cache_ok s" and "block_record (block_cache_view s) h = Inr b"
  shows "record_ok (bc_block_records s) (h, b)"
  using assms by (auto simp: cache_ok_def block_cache_view_def bc_block_record_def dest: dget_in_set)

lemma record_ok_mono:
  assumes "record_ok d x" and "\<And>k r. dget d k = Some r \<Longrightarrow> dget d' k = Some r"
  shows "record_ok d' x"
proof (cases x)
  case (Pair h b)
  with assms(1) have b: "br_header_hash b = h" "0 \<le> br_height b" by (simp_all add: record_ok_def)
  show ?thesis
  proof (cases "0 < br_height b")
    case True
    with assms(1) Pair obtain p where "dget d (br_prev_hash b) = Some p" "br_height p = br_height b - 1"
      by (auto simp: record_ok_def split: option.splits)
    with assms(2) b Pair show ?thesis by (simp add: record_ok_def)
  qed (use b Pair in \<open>simp add: record_ok_def\<close>)
qed

interpretation cache: chain_access block_cache_view cache_ok
proof (unfold_locales, goal_cases)
  case (1 s h b)
  from cache_record [OF this] show ?case by (simp add: record_ok_def)
next
  case (2 s h b)
  from cache_record [OF this] show ?case by (simp add: record_ok_def)
next
  case (3 s h b)
  from cache_record [OF 3(1,2)] 3(3) show ?case
    by (auto simp: record_ok_def block_cache_view_def bc_block_record_def split: option.splits)
qed

lemma add_record_ok:
  assumes "cache_ok s" and "\<not> bc_contains_block s (br_header_hash b)"
    and "br_height b = 0 \<or>
      (\<exists>p. bc_block_record s (br_prev_hash b) = Inr p \<and> 0 \<le> br_height p \<and> br_height b = br_height p + 1)"
  shows "cache_ok (bc_add_block_record s b) \<and>
    bc_block_record (bc_add_block_record s b) (br_header_hash b) = Inr b \<and>
    (\<forall>h r. bc_block_record s h = Inr r \<longrightarrow> bc_block_record (bc_add_block_record s b) h = Inr r)"
proof -
  let ?d = "bc_block_records s" and ?d' = "bc_block_records s @ [(br_header_hash b, b)]"
  have new: "\<not> dmem (br_header_hash b) ?d" using assms(2) by (simp add: bc_contains_block_def)
  then have d': "bc_block_records (bc_add_block_record s b) = ?d'"
    by (simp add: bc_add_block_record_def dput_new)
  have get: "dget ?d' k = (if k = br_header_hash b then Some b else dget ?d k)" for k
    using dget_dput [of "br_header_hash b" b ?d k] dput_new [OF new, of b] by simp
  have keep: "dget ?d' k = Some r" if "dget ?d k = Some r" for k r
    using that new unfolding get by (cases "k = br_header_hash b") (simp_all add: dget_None_iff [symmetric])
  have "record_ok ?d' x" if "x \<in> set ?d" for x
    using that assms(1) unfolding cache_ok_def by (blast intro: record_ok_mono [OF _ keep])
  moreover have "record_ok ?d' (br_header_hash b, b)"
    using assms(3)
  proof
    assume "br_height b = 0"
    then show ?thesis by (simp add: record_ok_def)
  next
    assume "\<exists>p. bc_block_record s (br_prev_hash b) = Inr p \<and> 0 \<le> br_height p \<and> br_height b = br_height p + 1"
    then obtain p where "dget ?d (br_prev_hash b) = Some p" "0 \<le> br_height p" "br_height b = br_height p + 1"
      by (auto simp: bc_block_record_def)
    then show ?thesis using keep by (simp add: record_ok_def)
  qed
  ultimately have "cache_ok (bc_add_block_record s b)" unfolding cache_ok_def d' by simp
  moreover have "bc_block_record (bc_add_block_record s b) (br_header_hash b) = Inr b"
    by (simp add: bc_block_record_def d' get)
  moreover have "bc_block_record (bc_add_block_record s b) h = Inr r" if "bc_block_record s h = Inr r" for h r
    using that keep by (simp add: bc_block_record_def d')
  ultimately show ?thesis by blast
qed

text \<open>
  C23. Adding a block keeps the cache well formed when its hash is new and it is genesis or extends
  a block of the cache by one.
\<close>

theorem add_block_record_keeps_chain:
  assumes "cache_ok s" and "\<not> bc_contains_block s (br_header_hash b)"
    and "br_height b = 0 \<or>
      (\<exists>p. bc_block_record s (br_prev_hash b) = Inr p \<and> 0 \<le> br_height p \<and> br_height b = br_height p + 1)"
  shows "cache_ok (bc_add_block_record s b) \<and>
    bc_block_record (bc_add_block_record s b) (br_header_hash b) = Inr b \<and>
    (\<forall>h r. bc_block_record s h = Inr r \<longrightarrow> bc_block_record (bc_add_block_record s b) h = Inr r)"
  by (rule add_record_ok [OF assms])

text \<open>
  C6. The search for the fork point of two blocks of a well formed cache ends. It returns the
  height of their highest common ancestor, and -1 exactly when they have none.
\<close>

theorem fork_point_correct:
  assumes "cache_ok s" and "on_chain (block_cache_view s) b1" and "on_chain (block_cache_view s) b2"
  shows "\<exists>h. find_fork_point_in_chain std_hash (block_cache_view s) (Rec b1) (Rec b2) = cret h \<and>
    (if h = -1 then \<not> (\<exists>a. ancestor (block_cache_view s) b1 a \<and> ancestor (block_cache_view s) b2 a)
     else \<exists>a. ancestor (block_cache_view s) b1 a \<and> ancestor (block_cache_view s) b2 a \<and> br_height a = h \<and>
       (\<forall>a'. ancestor (block_cache_view s) b1 a' \<and> ancestor (block_cache_view s) b2 a' \<longrightarrow> br_height a' \<le> h))"
  by (rule cache.fork_point [OF assms])

section \<open>An example chain\<close>

text \<open>Genesis, and two blocks on top of it that fork.\<close>

definition sample_block :: "bytes32 \<Rightarrow> bytes32 \<Rightarrow> int \<Rightarrow> BlockRecord" where
  "sample_block h p n = (sample_record 0)\<lparr>br_header_hash := h, br_prev_hash := p, br_height := n\<rparr>"

definition sample_cache :: BlockCache where
  "sample_cache = \<lparr>
     bc_block_records = [([1], sample_block [1] [0] 0), ([2], sample_block [2] [1] 1),
       ([3], sample_block [3] [1] 1)],
     bc_headers = [], bc_height_to_hash = [], bc_sub_epoch_summaries = []\<rparr>"

lemma sample_cache_ok: "cache_ok sample_cache"
  by (simp add: cache_ok_def record_ok_def sample_cache_def sample_block_def sample_record_def)

lemma sample_cache_on_chain:
  "on_chain (block_cache_view sample_cache) (sample_block [2] [1] 1)"
  "on_chain (block_cache_view sample_cache) (sample_block [3] [1] 1)"
  by (simp_all add: on_chain_def block_cache_view_def bc_block_record_def sample_cache_def sample_block_def)

theorem add_block_record_keeps_chain_witness:
  "cache_ok sample_cache \<and> cache_ok (bc_add_block_record sample_cache (sample_block [4] [3] 2))"
  using add_block_record_keeps_chain [OF sample_cache_ok, of "sample_block [4] [3] 2"] sample_cache_ok
  by (simp add: bc_contains_block_def bc_block_record_def sample_cache_def sample_block_def sample_record_def)

lemma sample_fork:
  "find_fork_point_in_chain (\<lambda>b. b) (block_cache_view sample_cache)
     (Rec (sample_block [2] [1] 1)) (Rec (sample_block [3] [1] 1)) = cret 0"
  by code_simp

theorem fork_point_correct_witness:
  "find_fork_point_in_chain (\<lambda>b. b) (block_cache_view sample_cache)
     (Rec (sample_block [2] [1] 1)) (Rec (sample_block [3] [1] 1)) = cret 0 \<and>
   (\<exists>a. ancestor (block_cache_view sample_cache) (sample_block [2] [1] 1) a \<and>
     ancestor (block_cache_view sample_cache) (sample_block [3] [1] 1) a \<and> br_height a = 0)"
  using fork_point_correct [OF sample_cache_ok sample_cache_on_chain, of "\<lambda>b. b"] sample_fork by auto

end
