(* ===== verification/Gold_Difficulty_Correct.thy ===== *)
theory Gold_Difficulty_Correct
  imports Gold_Difficulty Gold_Chain_Correct
begin

text \<open>
  Termination of the difficulty adjustment on a well formed chain and the bounds of the new values.
\<close>

section \<open>Computations that return\<close>

definition returns :: "'a comp \<Rightarrow> bool" where
  "returns m = (m \<noteq> None)"

named_theorems returns_intros \<open>rules that show that a computation returns\<close>

lemma returns_Some [returns_intros]: "returns (Some r)"
  by (simp add: returns_def)

lemma returns_cbind [returns_intros]:
  "returns m \<Longrightarrow> (\<And>a. m = cret a \<Longrightarrow> returns (f a)) \<Longrightarrow> returns (cbind m f)"
  by (auto simp: returns_def cbind_def split: option.splits sum.splits)

lemma returns_if [returns_intros]:
  "(b \<Longrightarrow> returns m) \<Longrightarrow> (\<not> b \<Longrightarrow> returns n) \<Longrightarrow> returns (if b then m else n)"
  by simp

lemma returns_cwhile:
  assumes "I s" and "\<And>s s'. I s \<Longrightarrow> c s \<Longrightarrow> b s = Inr s' \<Longrightarrow> I s' \<and> m s' < (m s :: nat)"
  shows "returns (cwhile c b s)"
  using cwhile_total [where I = I and m = m, OF assms] by (auto simp: returns_def)

lemma rmap_all:
  "rmap f xs = Inr ys \<Longrightarrow> (\<And>x y. f x = Inr y \<Longrightarrow> P y) \<Longrightarrow> y \<in> set ys \<Longrightarrow> P y"
  by (induction xs arbitrary: ys) (auto simp: rbind_eq_Inr)

lemma py_nth_mem: "py_nth xs i = Inr x \<Longrightarrow> x \<in> set xs"
  by (auto simp: py_nth_def split: if_splits)

section \<open>Walking back ends\<close>

text \<open>A chain with a root: the previous hash of a block at height 0 is not a block.\<close>

locale rooted_chain = chain_access +
  assumes root: "inv s \<Longrightarrow> block_record (view s) h = Inr b \<Longrightarrow> br_height b = 0 \<Longrightarrow>
      block_record (view s) (br_prev_hash b) \<noteq> Inr p"
    and by_height: "inv s \<Longrightarrow> height_to_block_record (view s) n = Inr b \<Longrightarrow>
      block_record (view s) (br_header_hash b) = Inr b"
begin

lemma on_chain_record: "inv s \<Longrightarrow> block_record (view s) h = Inr b \<Longrightarrow> on_chain (view s) b"
  using key unfolding on_chain_def by metis

lemma step_back:
  assumes "inv s" and "on_chain (view s) b" and "block_record (view s) (br_prev_hash b) = Inr p"
  shows "on_chain (view s) p \<and> nat (br_height p) < nat (br_height b)"
proof -
  have "0 < br_height b"
    using assms root on_chain_height [OF assms(1,2)] unfolding on_chain_def by fastforce
  then show ?thesis using on_chain_parent [OF assms(1,2)] assms(3) by fastforce
qed

lemma slow_inv_step:
  assumes "inv s" and "slow_body (view s) t n st = Inr st'" and "slow_cond t st"
    and "on_chain (view s) (fst st) \<and> list_all (on_chain (view s)) (fst (snd st))"
  shows "(on_chain (view s) (fst st') \<and> list_all (on_chain (view s)) (fst (snd st'))) \<and>
    nat (br_height (fst st')) + (if snd (snd st') then 0 else 1) < nat (br_height (fst st)) + (if snd (snd st) then 0 else 1)"
  using assms(2-4) step_back [OF assms(1)]
  by (cases st) (auto simp: slow_body_def slow_cond_def Let_def rbind_eq_Inr split: if_splits)

lemma blocks_at_height:
  assumes "inv s" and "on_chain (view s) b"
  shows "returns (get_blocks_at_height (view s) b t n)"
    and "get_blocks_at_height (view s) b t n = cret l \<Longrightarrow> x \<in> set l \<Longrightarrow> on_chain (view s) x"
proof -
  let ?I = "\<lambda>st. on_chain (view s) (fst st) \<and> list_all (on_chain (view s)) (fst (snd st))"
  have init: "?I (b, [], False)" using assms by simp
  have "returns (cwhile (slow_cond t) (slow_body (view s) t n) (b, [], False))"
    by (rule returns_cwhile [where I = ?I, OF init])
      (rule slow_inv_step [OF assms(1)])
  then show "returns (get_blocks_at_height (view s) b t n)"
    unfolding get_blocks_at_height_def by (auto intro!: returns_intros)
  assume l: "get_blocks_at_height (view s) b t n = cret l" "x \<in> set l"
  show "on_chain (view s) x"
  proof (cases "contains_height (view s) (br_height b) \<and> height_to_hash (view s) (br_height b) = Some (br_header_hash b)")
    case True
    with l show ?thesis unfolding get_blocks_at_height_def
      by (auto elim!: rmap_all simp: rbind_eq_Inr on_chain_def intro: by_height [OF assms(1)])
  next
    case False
    with l(1) obtain st where st: "cwhile (slow_cond t) (slow_body (view s) t n) (b, [], False) = cret st"
      and "l = rev (fst (snd st))"
      unfolding get_blocks_at_height_def by (auto simp: cbind_eq_Inr)
    moreover have "?I st"
      using cwhile_Inr [where I = ?I, OF st init] slow_inv_step [OF assms(1)] by blast
    ultimately show ?thesis using l(2) by (auto simp: list_all_iff)
  qed
qed

lemma ses_loop:
  assumes "0 \<le> i"
  shows "returns (cwhile ses_cond (ses_body l) (c, n, i))"
  by (rule returns_cwhile [where I = "\<lambda>(c, n, i). 0 \<le> i" and m = "\<lambda>(c, n, i). nat (int (length l) - i)"])
    (use assms in \<open>auto simp: ses_body_def rbind_eq_Inr py_nth_def split: if_splits\<close>)

lemma ses_loop_mem:
  assumes "cwhile ses_cond (ses_body l) (c, n, i) = cret (c', n', i')" and "c \<in> set l" and "n \<in> set l"
  shows "c' \<in> set l"
proof -
  have "(\<lambda>(c, n, i). c \<in> set l \<and> n \<in> set l) (c', n', i') \<and> \<not> ses_cond (c', n', i')"
  proof (rule cwhile_Inr [OF assms(1)])
    fix st st' :: "BlockRecord \<times> BlockRecord \<times> int"
    assume "(\<lambda>(c, n, i). c \<in> set l \<and> n \<in> set l) st" and "ses_body l st = Inr st'"
    then show "(\<lambda>(c, n, i). c \<in> set l \<and> n \<in> set l) st'"
      by (cases st) (auto simp: ses_body_def rbind_eq_Inr dest: py_nth_mem)
  qed (use assms(2,3) in simp)
  then show ?thesis by simp
qed

lemma tx_loop:
  assumes "inv s" and "on_chain (view s) b"
  shows "returns (cwhile (\<lambda>(b, k). k < 2) (tx_body (view s)) (b, k))"
  by (rule returns_cwhile [where I = "\<lambda>(b, k). on_chain (view s) b" and m = "\<lambda>(b, k). nat (br_height b)"])
    (use assms step_back [OF assms(1)] in \<open>auto simp: tx_body_def rbind_eq_Inr\<close>)

lemma second_to_last_returns:
  assumes "inv s" and "on_chain (view s) b" and "0 \<le> MAX_SUB_SLOT_BLOCKS c"
  shows "returns (get_second_to_last_transaction_block_in_previous_epoch c (view s) b)"
  unfolding get_second_to_last_transaction_block_in_previous_epoch_def Let_def
proof (intro returns_intros blocks_at_height(1) assms(1,2), goal_cases)
  case (1 r h hp u v start num l curr u' nxt u'')
  have "0 \<le> MAX_SUB_SLOT_BLOCKS c + 1" using assms(3) by simp
  then show ?case by (rule ses_loop)
next
  case (2 r h hp u v start num l curr u' nxt u'' st)
  obtain c' n' i' where st: "st = (c', n', i')" by (cases st)
  have "c' \<in> set l"
    using 2 ses_loop_mem [of l curr nxt _ c' n' i'] by (simp add: st py_nth_mem)
  then have "on_chain (view s) c'" using blocks_at_height(2) [OF assms(1,2)] 2 by blast
  from tx_loop [OF assms(1) this] show ?case
    unfolding st by (auto intro!: returns_cbind returns_Some split: prod.splits)
qed

lemma can_finish_returns:
  assumes "inv s"
  shows "returns (can_finish_sub_and_full_epoch c (view s) h (Some p) d i)"
proof -
  have "returns (cwhile (summary_cond c) (summary_body (view s)) (b, False))" if "on_chain (view s) b" for b
    by (rule returns_cwhile [where I = "\<lambda>(b, e). on_chain (view s) b"
          and m = "\<lambda>(b, e). nat (br_height b) + (if e then 0 else 1)"])
      (use that step_back [OF assms] in
        \<open>auto simp: summary_body_def summary_cond_def rbind_eq_Inr split: if_splits\<close>)
  then show ?thesis
    unfolding can_finish_sub_and_full_epoch_def
    using on_chain_record [OF assms] by (auto intro!: returns_intros split: prod.splits)
qed

lemma last_tx_returns:
  assumes "inv s" and "on_chain (view s) b"
  shows "returns (last_tx_before (view s) n b)"
  unfolding last_tx_before_def
  by (rule returns_cwhile [where I = "on_chain (view s)" and m = "\<lambda>b. nat (br_height b)"])
    (use assms step_back [OF assms(1)] in auto)

lemma epoch_blocks_returns:
  assumes "inv s" and "0 \<le> MAX_SUB_SLOT_BLOCKS c"
  shows "returns (epoch_blocks c (view s) p h d i n sp sk)"
  unfolding epoch_blocks_def
  using assms on_chain_record [OF assms(1)]
  by (auto intro!: returns_intros can_finish_returns second_to_last_returns last_tx_returns split: prod.splits)

lemma next_values_return:
  assumes "inv s" and "0 \<le> MAX_SUB_SLOT_BLOCKS c"
  shows "returns (get_next_sub_slot_iters_and_difficulty c first prev_b (view s))"
  unfolding get_next_sub_slot_iters_and_difficulty_def get_next_difficulty_def get_next_sub_slot_iters_def
  by (auto intro!: returns_intros epoch_blocks_returns [OF assms] split: option.splits prod.splits)

end

definition cache_rooted :: "BlockCache \<Rightarrow> bool" where
  "cache_rooted s = (cache_ok s \<and>
     (\<forall>(h, b) \<in> set (bc_block_records s). br_height b = 0 \<longrightarrow> \<not> bc_contains_block s (br_prev_hash b)))"

interpretation rooted: rooted_chain block_cache_view cache_rooted
proof (unfold_locales, goal_cases)
  case (1 s h b)
  then show ?case by (meson cache.key cache_rooted_def)
next
  case (2 s h b)
  then show ?case by (meson cache.height_nonneg cache_rooted_def)
next
  case (3 s h b)
  then show ?case by (meson cache.parent cache_rooted_def)
next
  case (4 s h b p)
  then have "(h, b) \<in> set (bc_block_records s)"
    by (auto simp: block_cache_view_def bc_block_record_def dest: dget_in_set)
  with 4 show ?case
    by (fastforce simp: cache_rooted_def bc_contains_block_def block_cache_view_def bc_block_record_def dmem_dget)
next
  case (5 s n b)
  then obtain h where h: "block_record (block_cache_view s) h = Inr b"
    by (auto simp: block_cache_view_def bc_height_to_block_record_def split: option.splits)
  with 5 have "br_header_hash b = h" by (meson cache.key cache_rooted_def)
  with h show ?case by simp
qed

text \<open>
  C10. On a well formed cache the computation of the next sub-slot iterations and difficulty
  returns, with a value or an exception: each of its loops over previous blocks ends.
\<close>

theorem next_values_terminate:
  assumes "cache_rooted s" and "0 \<le> MAX_SUB_SLOT_BLOCKS c"
  shows "\<exists>r. get_next_sub_slot_iters_and_difficulty c first prev_b (block_cache_view s) = Some r"
  using rooted.next_values_return [OF assms] by (simp add: returns_def)

theorem next_values_terminate_witness:
  "cache_rooted sample_cache \<and>
   (\<exists>r. get_next_sub_slot_iters_and_difficulty DEFAULT_CONSTANTS True (Some (sample_block [2] [1] 1))
     (block_cache_view sample_cache) = Some r)"
proof
  show r: "cache_rooted sample_cache"
    using sample_cache_ok
    by (simp add: cache_rooted_def sample_cache_def sample_block_def sample_record_def bc_contains_block_def)
  show "\<exists>r. get_next_sub_slot_iters_and_difficulty DEFAULT_CONSTANTS True (Some (sample_block [2] [1] 1))
     (block_cache_view sample_cache) = Some r"
    by (rule next_values_terminate [OF r]) (simp add: DEFAULT_CONSTANTS_def)
qed

section \<open>The adjusted values\<close>

lemma truncate_nonneg: "0 \<le> x \<Longrightarrow> 0 \<le> truncate_to_significant_bits x n"
  by (simp add: truncate_to_significant_bits_def Let_def)

text \<open>Truncation to at least one significant bit stays above every power of two below the number.\<close>

lemma truncate_power:
  assumes "2 ^ j \<le> x" and "1 \<le> n"
  shows "2 ^ j \<le> truncate_to_significant_bits x n"
proof -
  have x: "0 < x" using assms(1) less_le_trans [of 0 "2 ^ j" x] by simp
  let ?k = "nat (bit_length x - n)"
  have t: "truncate_to_significant_bits x n = x div 2 ^ ?k * 2 ^ ?k"
    using truncate_value [of n x] truncate_nonneg [of x n] assms(2) x by simp
  have b: "2 ^ nat (bit_length x - 1) \<le> x" using bit_length_bounds(1) [of x] x by simp
  show ?thesis
  proof (cases "?k \<le> j")
    case True
    then have p: "(2 :: int) ^ j = 2 ^ (j - ?k) * 2 ^ ?k" by (simp add: power_add [symmetric])
    have "2 ^ j div 2 ^ ?k \<le> x div 2 ^ ?k" using assms(1) by (rule zdiv_mono1) simp
    then have "2 ^ (j - ?k) \<le> x div 2 ^ ?k" unfolding p by simp
    then show ?thesis unfolding t p by (rule mult_right_mono) simp
  next
    case False
    have "(2 :: int) ^ ?k \<le> 2 ^ nat (bit_length x - 1)" using assms(2) by (intro power_increasing) auto
    then have "2 ^ ?k \<le> x" using b by (rule order_trans)
    then have "2 ^ ?k div 2 ^ ?k \<le> x div 2 ^ ?k" by (rule zdiv_mono1) simp
    then have "1 * 2 ^ ?k \<le> x div 2 ^ ?k * 2 ^ ?k" by (intro mult_right_mono) simp_all
    moreover have "(2 :: int) ^ j \<le> 2 ^ ?k" using False by (intro power_increasing) auto
    ultimately show ?thesis unfolding t by linarith
  qed
qed

lemma truncate_half:
  assumes "0 < x" and "1 \<le> n"
  shows "x < 2 * truncate_to_significant_bits x n"
proof -
  have "2 ^ nat (bit_length x - 1) \<le> truncate_to_significant_bits x n"
    using bit_length_bounds(1) [of x] assms by (intro truncate_power) auto
  moreover have "x < 2 ^ nat (bit_length x)" "1 \<le> bit_length x" using bit_length_bounds [of x] assms(1) by auto
  moreover have "(2 :: int) ^ nat (bit_length x) = 2 * 2 ^ nat (bit_length x - 1)"
    using \<open>1 \<le> bit_length x\<close> by (simp add: power_Suc [symmetric] Suc_nat_eq_nat_zadd1 del: power_Suc)
  ultimately show ?thesis by linarith
qed

lemma truncate_le:
  assumes "0 \<le> x" and "0 \<le> n"
  shows "truncate_to_significant_bits x n \<le> x"
proof -
  let ?k = "nat (bit_length x - n)"
  have "truncate_to_significant_bits x n = x div 2 ^ ?k * 2 ^ ?k"
    using truncate_value [OF assms(2), of x] truncate_nonneg [OF assms(1), of n] assms(1) by simp
  moreover have "0 \<le> x mod 2 ^ ?k" by simp
  ultimately show ?thesis using div_mult_mod_eq [of x "2 ^ ?k"] by linarith
qed

lemma clamp_bounds:
  fixes p :: int
  assumes "q = (if old \<le> p then min p hi else max least (max p lo))" and "least \<le> old" and "lo \<le> old" and "old \<le> hi"
  shows "least \<le> q" and "q \<le> hi" and "lo \<le> q"
  using assms by (auto simp: min_def max_def)

lemma uint64_eq_Inr: "uint64 v = Inr w \<longleftrightarrow> w = v \<and> 0 \<le> v \<and> v < 2 ^ 64"
  by (auto simp: uint64_value)

lemma adjust_difficulty_cases:
  assumes "adjust_difficulty c old w t = Inr d" and "DIFFICULTY_CHANGE_MAX_FACTOR c \<noteq> 0"
  obtains p q where "d = truncate_to_significant_bits q (SIGNIFICANT_BITS c)" "d < 2 ^ 64"
    "count_significant_bits d \<le> SIGNIFICANT_BITS c"
    "q = (if old \<le> p then min p (DIFFICULTY_CHANGE_MAX_FACTOR c * old)
          else max 1 (max p (old div DIFFICULTY_CHANGE_MAX_FACTOR c)))"
proof -
  from assms(1) obtain p0 p hi m lo q where
    "uint64 (DIFFICULTY_CHANGE_MAX_FACTOR c * old) = Inr hi" "floor_div old (DIFFICULTY_CHANGE_MAX_FACTOR c) = Inr m"
    "uint64 m = Inr lo"
    "(if old \<le> p then uint64 (min p hi) else uint64 (max 1 (max p lo))) = Inr q"
    "count_significant_bits (truncate_to_significant_bits q (SIGNIFICANT_BITS c)) \<le> SIGNIFICANT_BITS c"
    "uint64 (truncate_to_significant_bits q (SIGNIFICANT_BITS c)) = Inr d"
    unfolding adjust_difficulty_def rbind_eq_Inr Let_def py_assert_eq_Inr by (elim exE conjE) (rule that)
  with assms(2) that [of q p] show ?thesis by (simp add: uint64_eq_Inr split: if_splits)
qed

lemma adjust_ssi_cases:
  assumes "adjust_ssi c last_b prev_b = Inr v" and "DIFFICULTY_CHANGE_MAX_FACTOR c \<noteq> 0" and "NUM_SPS_SUB_SLOT c \<noteq> 0"
  obtains p q where "v = truncate_to_significant_bits q (SIGNIFICANT_BITS c)
      - truncate_to_significant_bits q (SIGNIFICANT_BITS c) mod NUM_SPS_SUB_SLOT c" "v < 2 ^ 64"
    "count_significant_bits v \<le> SIGNIFICANT_BITS c"
    "q = (if br_sub_slot_iters last_b \<le> p then min p (DIFFICULTY_CHANGE_MAX_FACTOR c * br_sub_slot_iters last_b)
          else max (NUM_SPS_SUB_SLOT c) (max p (br_sub_slot_iters last_b div DIFFICULTY_CHANGE_MAX_FACTOR c)))"
proof -
  let ?ssi = "br_sub_slot_iters last_b"
  from assms(1) obtain p hi m lo q r v' where hi: "uint64 (DIFFICULTY_CHANGE_MAX_FACTOR c * ?ssi) = Inr hi"
    and m: "floor_div ?ssi (DIFFICULTY_CHANGE_MAX_FACTOR c) = Inr m" and lo: "uint64 m = Inr lo"
    and q: "(if ?ssi \<le> p then uint64 (min p hi) else uint64 (max (NUM_SPS_SUB_SLOT c) (max p lo))) = Inr q"
    and r: "py_mod (truncate_to_significant_bits q (SIGNIFICANT_BITS c)) (NUM_SPS_SUB_SLOT c) = Inr r"
    and v: "uint64 (truncate_to_significant_bits q (SIGNIFICANT_BITS c) - r) = Inr v'"
    and cnt: "count_significant_bits v' \<le> SIGNIFICANT_BITS c" and eq: "Inr v' = (Inr v :: int res)"
    unfolding adjust_ssi_def rbind_eq_Inr Let_def py_assert_eq_Inr by (elim exE conjE) (rule that)
  have hi': "hi = DIFFICULTY_CHANGE_MAX_FACTOR c * ?ssi" using hi by (simp add: uint64_eq_Inr)
  have lo': "lo = ?ssi div DIFFICULTY_CHANGE_MAX_FACTOR c" using m lo assms(2) by (simp add: uint64_eq_Inr)
  have q': "q = (if ?ssi \<le> p then min p hi else max (NUM_SPS_SUB_SLOT c) (max p lo))"
    using q by (cases "?ssi \<le> p") (simp_all only: if_True if_False uint64_eq_Inr)
  have r': "r = truncate_to_significant_bits q (SIGNIFICANT_BITS c) mod NUM_SPS_SUB_SLOT c"
    using r assms(3) by simp
  have v': "v = truncate_to_significant_bits q (SIGNIFICANT_BITS c) - r" "v < 2 ^ 64"
    using v eq by (simp_all only: uint64_eq_Inr sum.inject)
  show ?thesis
    by (rule that [of q p, OF _ v'(2)])
      (use cnt eq in \<open>simp_all only: v'(1) r' q' hi' lo' sum.inject\<close>)
qed

text \<open>
  C17. The new difficulty is positive, has at most the significant bits allowed, and differs from
  the old one by at most the maximum factor, up to the factor two that truncation may cost on the
  way down.
\<close>

theorem adjust_difficulty_bounds:
  assumes "adjust_difficulty c old w t = Inr d"
    and "1 \<le> DIFFICULTY_CHANGE_MAX_FACTOR c" and "1 \<le> SIGNIFICANT_BITS c" and "1 \<le> old"
  shows "1 \<le> d \<and> d \<le> DIFFICULTY_CHANGE_MAX_FACTOR c * old \<and> old div DIFFICULTY_CHANGE_MAX_FACTOR c < 2 * d \<and>
    count_significant_bits d \<le> SIGNIFICANT_BITS c \<and> d < 2 ^ 64"
proof -
  let ?F = "DIFFICULTY_CHANGE_MAX_FACTOR c"
  have "?F \<noteq> 0" using assms(2) by simp
  from assms(1) this obtain p q where d: "d = truncate_to_significant_bits q (SIGNIFICANT_BITS c)" "d < 2 ^ 64"
      "count_significant_bits d \<le> SIGNIFICANT_BITS c"
    and q: "q = (if old \<le> p then min p (?F * old) else max 1 (max p (old div ?F)))"
    by (rule adjust_difficulty_cases)
  have F: "1 * old \<le> ?F * old" using assms(2,4) by (intro mult_right_mono) simp_all
  have div: "old div ?F \<le> old div 1" using assms(2,4) by (intro zdiv_mono2) simp_all
  have "old div ?F \<le> old" "old \<le> ?F * old" using F div by simp_all
  note clamp = clamp_bounds [OF q assms(4) this]
  show ?thesis
    using clamp d truncate_half [of q "SIGNIFICANT_BITS c"] truncate_le [of q "SIGNIFICANT_BITS c"] assms(3) by auto
qed

text \<open>
  C18. The new sub-slot iterations divide into the signage points, never fall below one iteration
  per signage point and grow by at most the maximum factor.
\<close>

theorem adjust_ssi_bounds:
  assumes "adjust_ssi c last_b prev_b = Inr v" and "NUM_SPS_SUB_SLOT c = 2 ^ j"
    and "1 \<le> DIFFICULTY_CHANGE_MAX_FACTOR c" and "1 \<le> SIGNIFICANT_BITS c"
    and "NUM_SPS_SUB_SLOT c \<le> br_sub_slot_iters last_b"
  shows "v mod NUM_SPS_SUB_SLOT c = 0 \<and> NUM_SPS_SUB_SLOT c \<le> v \<and>
    v \<le> DIFFICULTY_CHANGE_MAX_FACTOR c * br_sub_slot_iters last_b \<and>
    count_significant_bits v \<le> SIGNIFICANT_BITS c \<and> v < 2 ^ 64"
proof -
  let ?F = "DIFFICULTY_CHANGE_MAX_FACTOR c" and ?ssi = "br_sub_slot_iters last_b" and ?N = "NUM_SPS_SUB_SLOT c"
  have N: "0 < ?N" using assms(2) by simp
  have "?F \<noteq> 0" "?N \<noteq> 0" using assms(3) N by simp_all
  from assms(1) this obtain p q where v: "v = truncate_to_significant_bits q (SIGNIFICANT_BITS c)
        - truncate_to_significant_bits q (SIGNIFICANT_BITS c) mod ?N" "v < 2 ^ 64"
      "count_significant_bits v \<le> SIGNIFICANT_BITS c"
    and q: "q = (if ?ssi \<le> p then min p (?F * ?ssi) else max ?N (max p (?ssi div ?F)))"
    by (rule adjust_ssi_cases)
  have F: "1 * ?ssi \<le> ?F * ?ssi" using assms(3,5) N by (intro mult_right_mono) simp_all
  have div: "?ssi div ?F \<le> ?ssi div 1" using assms(3,5) N by (intro zdiv_mono2) simp_all
  have "?ssi div ?F \<le> ?ssi" "?ssi \<le> ?F * ?ssi" using F div by simp_all
  note le = clamp_bounds [OF q assms(5) this]
  let ?t = "truncate_to_significant_bits q (SIGNIFICANT_BITS c)"
  have "0 \<le> q" using le(1) N by linarith
  then have t: "?N \<le> ?t" "?t \<le> q"
    using le(1) assms(2,4) truncate_power [of j q "SIGNIFICANT_BITS c"] truncate_le [of q "SIGNIFICANT_BITS c"]
    by simp_all
  have v': "v = ?t div ?N * ?N" unfolding v(1) by (simp add: minus_mod_eq_div_mult)
  have "?N div ?N \<le> ?t div ?N" using t(1) N by (rule zdiv_mono1)
  then have "1 * ?N \<le> ?t div ?N * ?N" using N by (intro mult_right_mono) simp_all
  moreover have "v \<le> ?t" using v(1) N by simp
  ultimately show ?thesis using v v' t le by simp
qed

definition epoch_end :: "int \<Rightarrow> int \<Rightarrow> BlockRecord" where
  "epoch_end iters t = (sample_record 0)\<lparr>br_total_iters := iters, br_timestamp := Some t, br_sub_slot_iters := 6400\<rparr>"

lemma epoch_difficulty: "adjust_difficulty DEFAULT_CONSTANTS 1000 320000 600 = Inr 2992"
  by code_simp

theorem adjust_difficulty_bounds_witness:
  "adjust_difficulty DEFAULT_CONSTANTS 1000 320000 600 = Inr 2992 \<and>
   2992 \<le> DIFFICULTY_CHANGE_MAX_FACTOR DEFAULT_CONSTANTS * 1000 \<and>
   count_significant_bits 2992 \<le> SIGNIFICANT_BITS DEFAULT_CONSTANTS"
  using adjust_difficulty_bounds [OF epoch_difficulty] epoch_difficulty by (simp add: DEFAULT_CONSTANTS_def)

lemma epoch_ssi: "adjust_ssi DEFAULT_CONSTANTS (epoch_end 20000 1600) (epoch_end 10000 1000) = Inr 9984"
  by code_simp

theorem adjust_ssi_bounds_witness:
  "adjust_ssi DEFAULT_CONSTANTS (epoch_end 20000 1600) (epoch_end 10000 1000) = Inr 9984 \<and>
   9984 mod NUM_SPS_SUB_SLOT DEFAULT_CONSTANTS = 0 \<and> NUM_SPS_SUB_SLOT DEFAULT_CONSTANTS \<le> 9984"
  using adjust_ssi_bounds [OF epoch_ssi, of 6] epoch_ssi
  by (simp add: DEFAULT_CONSTANTS_def epoch_end_def)

end
