(* ===== verification/Gold_Coin_Store.thy ===== *)
theory Gold_Coin_Store
  imports Gold_Coins
begin

text \<open>
  The least-recently-used cache (\<^verbatim>\<open>src/chia/util/lru_cache.py\<close>), the coin store over it
  (\<^verbatim>\<open>src/chia/full_node/coin_store.py\<close>) and the hint store (\<^verbatim>\<open>src/chia/full_node/hint_store.py\<close>).
  A table is the list of its rows in the order of insertion; the statements on it are the SQL text
  of the source. An operation returns the store it leaves together with its result, because a
  statement that fails leaves behind what was written before it.
\<close>

section \<open>The least-recently-used cache\<close>

record ('k, 'v) LRUCache =
  lru_cache :: "('k, 'v) dict"
  lru_capacity :: int

definition lru_new :: "int \<Rightarrow> ('k, 'v) LRUCache" where
  "lru_new capacity = \<lparr>lru_cache = [], lru_capacity = capacity\<rparr>"

definition move_to_end :: "'k \<Rightarrow> ('k, 'v) dict \<Rightarrow> ('k, 'v) dict" where
  "move_to_end k d = (case dget d k of None \<Rightarrow> d | Some v \<Rightarrow> ddel k d @ [(k, v)])"

definition lru_get :: "'k \<Rightarrow> ('k, 'v) LRUCache \<Rightarrow> 'v option \<times> ('k, 'v) LRUCache" where
  "lru_get key c =
     (if \<not> dmem key (lru_cache c) then (None, c)
      else let d = move_to_end key (lru_cache c) in (dget d key, c\<lparr>lru_cache := d\<rparr>))"

definition lru_put :: "'k \<Rightarrow> 'v \<Rightarrow> ('k, 'v) LRUCache \<Rightarrow> ('k, 'v) LRUCache" where
  "lru_put key value c =
     (let d = move_to_end key (dput key value (lru_cache c))
      in c\<lparr>lru_cache := (if int (length d) > lru_capacity c then tl d else d)\<rparr>)"

definition lru_remove :: "'k \<Rightarrow> ('k, 'v) LRUCache \<Rightarrow> ('k, 'v) LRUCache res" where
  "lru_remove key c = rbind (ddel_res key (lru_cache c)) (\<lambda>d. Inr (c\<lparr>lru_cache := d\<rparr>))"

section \<open>Rows\<close>

text \<open>Names and hashes are stored as hexadecimal text, here the list of its digits.\<close>

type_synonym hextext = "int list"

fun fromhex :: "hextext \<Rightarrow> bytes res" where
  "fromhex [] = Inr []"
| "fromhex [a] = Inl ValueError"
| "fromhex (a # b # xs) = rbind (fromhex xs) (\<lambda>bs. Inr (word_of_int (16 * a + b) # bs))"

record coin_row =
  row_coin_name :: hextext
  row_confirmed_index :: int
  row_spent_index :: int
  row_spent :: int
  row_coinbase :: int
  row_puzzle_hash :: hextext
  row_coin_parent :: hextext
  row_amount :: bytes
  row_timestamp :: int

definition row_to_coin :: "coin_row \<Rightarrow> Coin res" where
  "row_to_coin row =
     rbind (rbind (fromhex (row_coin_parent row)) (sized_bytes 32)) (\<lambda>parent.
     rbind (rbind (fromhex (row_puzzle_hash row)) (sized_bytes 32)) (\<lambda>puzzle_hash.
     rbind (struct_from_bytes Pack_Q (row_amount row)) (\<lambda>amount.
     Inr \<lparr>coin_parent_coin_info = parent, coin_puzzle_hash = puzzle_hash, coin_amount = amount\<rparr>)))"

text \<open>
  The constructor of a coin record converts the columns to the types of the fields and raises when
  a number does not fit.
\<close>

definition mk_CoinRecord :: "Coin \<Rightarrow> int \<Rightarrow> int \<Rightarrow> int \<Rightarrow> int \<Rightarrow> int \<Rightarrow> CoinRecord res" where
  "mk_CoinRecord coin confirmed spent_index spent coinbase timestamp =
     rbind (uint32 confirmed) (\<lambda>confirmed.
     rbind (uint32 spent_index) (\<lambda>spent_index.
     rbind (uint64 timestamp) (\<lambda>timestamp.
     Inr \<lparr>cr_coin = coin, cr_confirmed_block_index = confirmed, cr_spent_block_index = spent_index,
          cr_spent = (spent \<noteq> 0), cr_coinbase = (coinbase \<noteq> 0), cr_timestamp = timestamp\<rparr>)))"

definition row_record :: "coin_row \<Rightarrow> CoinRecord res" where
  "row_record row =
     rbind (row_to_coin row) (\<lambda>coin.
     mk_CoinRecord coin (row_confirmed_index row) (row_spent_index row) (row_spent row)
       (row_coinbase row) (row_timestamp row))"

definition row_to_coin_state :: "coin_row \<Rightarrow> CoinState res" where
  "row_to_coin_state row =
     rbind (row_to_coin row) (\<lambda>coin.
     rbind (if row_spent row \<noteq> 0 then rbind (uint32 (row_spent_index row)) (\<lambda>h. Inr (Some h)) else Inr None)
       (\<lambda>spent_h.
     rbind (uint32 (row_confirmed_index row)) (\<lambda>h.
     Inr \<lparr>cs_coin = coin, cs_spent_height = spent_h, cs_created_height = Some h\<rparr>)))"

section \<open>The coin store\<close>

record CoinStore =
  coin_record_db :: "coin_row list"
  coin_record_cache :: "(bytes32, CoinRecord) LRUCache"

definition coin_store_create :: "coin_row list \<Rightarrow> int \<Rightarrow> CoinStore" where
  "coin_store_create db cache_size = \<lparr>coin_record_db = db, coin_record_cache = lru_new cache_size\<rparr>"

text \<open>The values that are inserted for a record.\<close>

definition record_row :: "(bytes \<Rightarrow> bytes) \<Rightarrow> (int \<Rightarrow> bytes) \<Rightarrow> CoinRecord \<Rightarrow> coin_row res" where
  "record_row std_hash int_to_bytes r =
     rbind (struct_stream Pack_Q (coin_amount (cr_coin r))) (\<lambda>amount.
     Inr \<lparr>row_coin_name = hex (coin_name std_hash int_to_bytes (cr_coin r)),
          row_confirmed_index = cr_confirmed_block_index r,
          row_spent_index = cr_spent_block_index r,
          row_spent = (if cr_spent r then 1 else 0),
          row_coinbase = (if cr_coinbase r then 1 else 0),
          row_puzzle_hash = hex (coin_puzzle_hash (cr_coin r)),
          row_coin_parent = hex (coin_parent_coin_info (cr_coin r)),
          row_amount = amount,
          row_timestamp = cr_timestamp r\<rparr>)"

text \<open>\<^verbatim>\<open>INSERT\<close> of several rows: a row whose primary key is present stops with an error.\<close>

fun insert_rows :: "coin_row list \<Rightarrow> coin_row list \<Rightarrow> coin_row list \<times> unit res" where
  "insert_rows [] db = (db, Inr ())"
| "insert_rows (r # rs) db =
     (if row_coin_name r \<in> row_coin_name ` set db then (db, Inl IntegrityError)
      else insert_rows rs (db @ [r]))"

fun add_values :: "(bytes \<Rightarrow> bytes) \<Rightarrow> (int \<Rightarrow> bytes) \<Rightarrow> CoinRecord list \<Rightarrow>
    (bytes32, CoinRecord) LRUCache \<Rightarrow> (bytes32, CoinRecord) LRUCache \<times> coin_row list res" where
  "add_values std_hash int_to_bytes [] c = (c, Inr [])"
| "add_values std_hash int_to_bytes (r # rs) c =
     (let c' = lru_put (coin_name std_hash int_to_bytes (cr_coin r)) r c
      in case record_row std_hash int_to_bytes r of
           Inl e \<Rightarrow> (c', Inl e)
         | Inr row \<Rightarrow> (let (c'', rows) = add_values std_hash int_to_bytes rs c'
                     in (c'', rbind rows (\<lambda>rows. Inr (row # rows)))))"

definition add_coin_records :: "(bytes \<Rightarrow> bytes) \<Rightarrow> (int \<Rightarrow> bytes) \<Rightarrow> CoinRecord list \<Rightarrow> CoinStore \<Rightarrow>
    CoinStore \<times> unit res" where
  "add_coin_records std_hash int_to_bytes records s =
     (let (c, vals) = add_values std_hash int_to_bytes records (coin_record_cache s);
          s = s\<lparr>coin_record_cache := c\<rparr>
      in case vals of
           Inl e \<Rightarrow> (s, Inl e)
         | Inr rows \<Rightarrow> (let (db, r) = insert_rows rows (coin_record_db s) in (s\<lparr>coin_record_db := db\<rparr>, r)))"

definition spend_record :: "int \<Rightarrow> CoinRecord \<Rightarrow> CoinRecord" where
  "spend_record index r = r\<lparr>cr_spent_block_index := index, cr_spent := True\<rparr>"

fun spend_cached :: "(bytes \<Rightarrow> bytes) \<Rightarrow> (int \<Rightarrow> bytes) \<Rightarrow> int \<Rightarrow> bytes32 list \<Rightarrow>
    (bytes32, CoinRecord) LRUCache \<Rightarrow> (bytes32, CoinRecord) LRUCache" where
  "spend_cached std_hash int_to_bytes index [] c = c"
| "spend_cached std_hash int_to_bytes index (n # ns) c =
     (case lru_get n c of
        (None, c') \<Rightarrow> spend_cached std_hash int_to_bytes index ns c'
      | (Some r, c') \<Rightarrow> spend_cached std_hash int_to_bytes index ns
          (lru_put (cr_name std_hash int_to_bytes r) (spend_record index r) c'))"

definition update_spent :: "int \<Rightarrow> bytes32 \<Rightarrow> coin_row list \<Rightarrow> coin_row list" where
  "update_spent index n db =
     map (\<lambda>row. if row_coin_name row = hex n then row\<lparr>row_spent := 1, row_spent_index := index\<rparr> else row) db"

definition set_spent :: "(bytes \<Rightarrow> bytes) \<Rightarrow> (int \<Rightarrow> bytes) \<Rightarrow> bytes32 list \<Rightarrow> int \<Rightarrow> CoinStore \<Rightarrow> CoinStore" where
  "set_spent std_hash int_to_bytes coin_names index s =
     s\<lparr>coin_record_cache := spend_cached std_hash int_to_bytes index coin_names (coin_record_cache s),
       coin_record_db := fold (update_spent index) coin_names (coin_record_db s)\<rparr>"

definition new_record :: "int \<Rightarrow> int \<Rightarrow> bool \<Rightarrow> Coin \<Rightarrow> CoinRecord" where
  "new_record height timestamp coinbase coin =
     \<lparr>cr_coin = coin, cr_confirmed_block_index = height, cr_spent_block_index = 0, cr_spent = False,
      cr_coinbase = coinbase, cr_timestamp = timestamp\<rparr>"

text \<open>The set of reward coins is the list of its elements in the order of the iteration.\<close>

definition new_block :: "(bytes \<Rightarrow> bytes) \<Rightarrow> (int \<Rightarrow> bytes) \<Rightarrow> int \<Rightarrow> int \<Rightarrow> Coin list \<Rightarrow> Coin list \<Rightarrow>
    bytes32 list \<Rightarrow> CoinStore \<Rightarrow> CoinStore \<times> CoinRecord list res" where
  "new_block std_hash int_to_bytes height timestamp included_reward_coins tx_additions tx_removals s =
     (if (if height = 0 then length included_reward_coins = 0 else length included_reward_coins \<ge> 2) then
        (let additions = map (new_record height timestamp False) tx_additions
               @ map (new_record height timestamp True) included_reward_coins;
             (s, r) = add_coin_records std_hash int_to_bytes additions s
         in case r of
              Inl e \<Rightarrow> (s, Inl e)
            | Inr _ \<Rightarrow> (set_spent std_hash int_to_bytes tx_removals height s, Inr additions))
      else (s, Inl AssertionError))"

section \<open>Rolling back\<close>

definition unspend_record :: "CoinRecord \<Rightarrow> CoinRecord" where
  "unspend_record r = r\<lparr>cr_spent_block_index := 0, cr_spent := False\<rparr>"

definition unspend_cached :: "(bytes \<Rightarrow> bytes) \<Rightarrow> (int \<Rightarrow> bytes) \<Rightarrow> int \<Rightarrow> bytes32 \<times> CoinRecord \<Rightarrow>
    (bytes32, CoinRecord) LRUCache \<Rightarrow> (bytes32, CoinRecord) LRUCache" where
  "unspend_cached std_hash int_to_bytes block_index = (\<lambda>(n, r) c.
     if cr_spent_block_index r > block_index
     then lru_put (coin_name std_hash int_to_bytes (cr_coin r)) (unspend_record r) c else c)"

fun remove_all :: "bytes32 list \<Rightarrow> (bytes32, CoinRecord) LRUCache \<Rightarrow> (bytes32, CoinRecord) LRUCache \<times> unit res" where
  "remove_all [] c = (c, Inr ())"
| "remove_all (n # ns) c = (case lru_remove n c of Inl e \<Rightarrow> (c, Inl e) | Inr c' \<Rightarrow> remove_all ns c')"

definition rollback_cache :: "(bytes \<Rightarrow> bytes) \<Rightarrow> (int \<Rightarrow> bytes) \<Rightarrow> int \<Rightarrow>
    (bytes32, CoinRecord) LRUCache \<Rightarrow> (bytes32, CoinRecord) LRUCache \<times> unit res" where
  "rollback_cache std_hash int_to_bytes block_index c =
     (let items = lru_cache c;
          delete_queue = map fst (filter (\<lambda>(n, r). cr_confirmed_block_index r > block_index) items)
      in remove_all delete_queue (fold (unspend_cached std_hash int_to_bytes block_index) items c))"

text \<open>The records reported for the rows that are deleted.\<close>

definition deleted_record :: "coin_row \<Rightarrow> CoinRecord res" where
  "deleted_record row =
     rbind (row_to_coin row) (\<lambda>coin.
     mk_CoinRecord coin 0 (row_spent_index row) (row_spent row) (row_coinbase row) 0)"

definition unspent_record :: "coin_row \<Rightarrow> CoinRecord res" where
  "unspent_record row =
     rbind (row_to_coin row) (\<lambda>coin.
     mk_CoinRecord coin (row_confirmed_index row) 0 0 (row_coinbase row) (row_timestamp row))"

definition select_confirmed_after :: "int \<Rightarrow> coin_row list \<Rightarrow> coin_row list" where
  "select_confirmed_after block_index db = filter (\<lambda>row. row_confirmed_index row > block_index) db"

definition add_changes :: "(bytes \<Rightarrow> bytes) \<Rightarrow> (int \<Rightarrow> bytes) \<Rightarrow> bool \<Rightarrow> CoinRecord list \<Rightarrow>
    (bytes32, CoinRecord) dict \<Rightarrow> (bytes32, CoinRecord) dict" where
  "add_changes std_hash int_to_bytes only_new records changes =
     fold (\<lambda>r d. if only_new \<and> dmem (cr_name std_hash int_to_bytes r) d then d
                 else dput (cr_name std_hash int_to_bytes r) r d) records changes"

definition rollback_to_block :: "(bytes \<Rightarrow> bytes) \<Rightarrow> (int \<Rightarrow> bytes) \<Rightarrow> int \<Rightarrow> CoinStore \<Rightarrow>
    CoinStore \<times> CoinRecord list res" where
  "rollback_to_block std_hash int_to_bytes block_index s =
     (let (c, r) = rollback_cache std_hash int_to_bytes block_index (coin_record_cache s);
          s = s\<lparr>coin_record_cache := c\<rparr> in
      case r of
        Inl e \<Rightarrow> (s, Inl e)
      | Inr _ \<Rightarrow>
          (case rmap deleted_record (select_confirmed_after block_index (coin_record_db s)) of
             Inl e \<Rightarrow> (s, Inl e)
           | Inr deleted \<Rightarrow>
               (let coin_changes = add_changes std_hash int_to_bytes False deleted [];
                    s = s\<lparr>coin_record_db :=
                      filter (\<lambda>row. \<not> row_confirmed_index row > block_index) (coin_record_db s)\<rparr> in
                case rmap unspent_record (select_confirmed_after block_index (coin_record_db s)) of
                  Inl e \<Rightarrow> (s, Inl e)
                | Inr unspent \<Rightarrow>
                    (let coin_changes = add_changes std_hash int_to_bytes True unspent coin_changes;
                         s = s\<lparr>coin_record_db :=
                           map (\<lambda>row. if row_spent_index row > block_index
                                     then row\<lparr>row_spent_index := 0, row_spent := 0\<rparr> else row)
                             (coin_record_db s)\<rparr>
                     in (s, Inr (dvalues coin_changes))))))"

section \<open>Queries\<close>

definition get_coin_record :: "(bytes \<Rightarrow> bytes) \<Rightarrow> (int \<Rightarrow> bytes) \<Rightarrow> bytes32 \<Rightarrow> CoinStore \<Rightarrow>
    CoinStore \<times> CoinRecord option res" where
  "get_coin_record std_hash int_to_bytes n s =
     (let (cached, c) = lru_get n (coin_record_cache s); s = s\<lparr>coin_record_cache := c\<rparr> in
      case cached of
        Some r \<Rightarrow> (s, Inr (Some r))
      | None \<Rightarrow>
          (case find (\<lambda>row. row_coin_name row = hex n) (coin_record_db s) of
             None \<Rightarrow> (s, Inr None)
           | Some row \<Rightarrow>
               (case row_record row of
                  Inl e \<Rightarrow> (s, Inl e)
                | Inr record \<Rightarrow>
                    (s\<lparr>coin_record_cache :=
                       lru_put (coin_name std_hash int_to_bytes (cr_coin record)) record c\<rparr>,
                     Inr (Some record)))))"

definition get_coins_added_at_height :: "int \<Rightarrow> CoinStore \<Rightarrow> CoinRecord list res" where
  "get_coins_added_at_height height s =
     rmap row_record (filter (\<lambda>row. row_confirmed_index row = height) (coin_record_db s))"

definition get_coins_removed_at_height :: "int \<Rightarrow> CoinStore \<Rightarrow> CoinRecord list res" where
  "get_coins_removed_at_height height s =
     (if height = 0 then Inr []
      else rmap row_record (filter (\<lambda>row. row_spent row \<noteq> 0)
             (filter (\<lambda>row. row_spent_index row = height) (coin_record_db s))))"

text \<open>The condition on heights and spent coins that the following queries share.\<close>

definition in_window :: "bool \<Rightarrow> int \<Rightarrow> int \<Rightarrow> coin_row \<Rightarrow> bool" where
  "in_window include_spent_coins start_height end_height row =
     (row_confirmed_index row \<ge> start_height \<and> row_confirmed_index row < end_height \<and>
      (include_spent_coins \<or> row_spent row = 0))"

definition select_set :: "(coin_row \<Rightarrow> 'a res) \<Rightarrow> (coin_row \<Rightarrow> bool) \<Rightarrow> CoinStore \<Rightarrow> 'a set res" where
  "select_set decode cond s = rbind (rmap decode (filter cond (coin_record_db s))) (\<lambda>l. Inr (set l))"

definition get_coin_records_by_puzzle_hash :: "bool \<Rightarrow> bytes32 \<Rightarrow> int \<Rightarrow> int \<Rightarrow> CoinStore \<Rightarrow> CoinRecord set res" where
  "get_coin_records_by_puzzle_hash include_spent_coins puzzle_hash start_height end_height =
     select_set row_record (\<lambda>row. row_puzzle_hash row = hex puzzle_hash \<and>
       in_window include_spent_coins start_height end_height row)"

definition get_coin_records_by_puzzle_hashes ::
    "bool \<Rightarrow> bytes32 list \<Rightarrow> int \<Rightarrow> int \<Rightarrow> CoinStore \<Rightarrow> CoinRecord set res" where
  "get_coin_records_by_puzzle_hashes include_spent_coins puzzle_hashes start_height end_height s =
     (if length puzzle_hashes = 0 then Inr {}
      else select_set row_record (\<lambda>row. row_puzzle_hash row \<in> hex ` set puzzle_hashes \<and>
             in_window include_spent_coins start_height end_height row) s)"

definition get_coin_records_by_names ::
    "bool \<Rightarrow> bytes32 list \<Rightarrow> int \<Rightarrow> int \<Rightarrow> CoinStore \<Rightarrow> CoinRecord set res" where
  "get_coin_records_by_names include_spent_coins names start_height end_height s =
     (if length names = 0 then Inr {}
      else select_set row_record (\<lambda>row. row_coin_name row \<in> hex ` set names \<and>
             in_window include_spent_coins start_height end_height row) s)"

definition get_coin_states_by_puzzle_hashes ::
    "bool \<Rightarrow> bytes32 list \<Rightarrow> int \<Rightarrow> int \<Rightarrow> CoinStore \<Rightarrow> CoinState set res" where
  "get_coin_states_by_puzzle_hashes include_spent_coins puzzle_hashes start_height end_height s =
     (if length puzzle_hashes = 0 then Inr {}
      else select_set row_to_coin_state (\<lambda>row. row_puzzle_hash row \<in> hex ` set puzzle_hashes \<and>
             in_window include_spent_coins start_height end_height row) s)"

definition get_coin_records_by_parent_ids ::
    "bool \<Rightarrow> bytes32 list \<Rightarrow> int \<Rightarrow> int \<Rightarrow> CoinStore \<Rightarrow> CoinRecord set res" where
  "get_coin_records_by_parent_ids include_spent_coins parent_ids start_height end_height s =
     (if length parent_ids = 0 then Inr {}
      else select_set row_record (\<lambda>row. row_coin_parent row \<in> hex ` set parent_ids \<and>
             in_window include_spent_coins start_height end_height row) s)"

definition get_coin_state_by_ids ::
    "bool \<Rightarrow> bytes32 list \<Rightarrow> int \<Rightarrow> int \<Rightarrow> CoinStore \<Rightarrow> CoinState set res" where
  "get_coin_state_by_ids include_spent_coins coin_ids start_height end_height s =
     (if length coin_ids = 0 then Inr {}
      else select_set row_to_coin_state (\<lambda>row. row_coin_name row \<in> hex ` set coin_ids \<and>
             in_window include_spent_coins start_height end_height row) s)"

definition get_unspent_coins_before_height :: "bytes \<Rightarrow> int \<Rightarrow> CoinStore \<Rightarrow> CoinRecord set res" where
  "get_unspent_coins_before_height puzzle_hash height =
     select_set row_record (\<lambda>row. row_puzzle_hash row = hex puzzle_hash \<and> row_confirmed_index row < height \<and>
       (row_spent row = 0 \<or> row_spent_index row \<ge> height))"

section \<open>The hint store\<close>

record HintStore =
  hint_rows :: "(int \<times> bytes32 \<times> bytes) list"
  hint_next_id :: int

definition get_coin_ids :: "bytes \<Rightarrow> HintStore \<Rightarrow> bytes32 list" where
  "get_coin_ids hint s = map (\<lambda>(i, coin_id, h). coin_id) (filter (\<lambda>(i, coin_id, h). h = hint) (hint_rows s))"

definition add_hints :: "(bytes32 \<times> bytes) list \<Rightarrow> HintStore \<Rightarrow> HintStore" where
  "add_hints coin_hint_list s =
     fold (\<lambda>(coin_id, hint) s. s\<lparr>hint_rows := hint_rows s @ [(hint_next_id s, coin_id, hint)],
                                hint_next_id := hint_next_id s + 1\<rparr>) coin_hint_list s"

end
