(* ===== verification/Gold_Coin_Rows.thy ===== *)
theory Gold_Coin_Rows
  imports Gold_Coin_Store
begin

text \<open>
  The contract of a bounded cache with the least-recently-used cache as its provider, and the encoding of coin records as rows.
\<close>

section \<open>The contract of a cache\<close>

text \<open>
  A bounded cache may forget, but never invents: what it answers is what was stored last. Storing
  under a key that is present evicts nothing.
\<close>

locale bounded_cache =
  fixes lookup :: "'c \<Rightarrow> 'k \<Rightarrow> 'v option" and inv :: "'c \<Rightarrow> bool"
    and get :: "'k \<Rightarrow> 'c \<Rightarrow> 'v option \<times> 'c" and put :: "'k \<Rightarrow> 'v \<Rightarrow> 'c \<Rightarrow> 'c" and remove :: "'k \<Rightarrow> 'c \<Rightarrow> 'c res"
  assumes get: "inv c \<Longrightarrow> \<exists>c'. get k c = (lookup c k, c') \<and> inv c' \<and> lookup c' = lookup c"
    and put: "inv c \<Longrightarrow> inv (put k v c) \<and> lookup (put k v c) \<subseteq>\<^sub>m (lookup c)(k \<mapsto> v)"
    and put_present: "inv c \<Longrightarrow> lookup c k = Some w \<Longrightarrow> lookup (put k v c) = (lookup c)(k \<mapsto> v)"
    and remove: "inv c \<Longrightarrow> lookup c k = Some w \<Longrightarrow>
      \<exists>c'. remove k c = Inr c' \<and> inv c' \<and> lookup c' = (lookup c)(k := None)"
begin

definition coherent :: "('k \<Rightarrow> 'v option) \<Rightarrow> 'c \<Rightarrow> bool" where
  "coherent m c = (inv c \<and> lookup c \<subseteq>\<^sub>m m)"

lemma coherent_get:
  assumes "coherent m c"
  shows "\<exists>c'. get k c = (lookup c k, c') \<and> coherent m c' \<and> lookup c' = lookup c"
  using get [of c k] assms by (auto simp: coherent_def)

lemma coherent_hit: "coherent m c \<Longrightarrow> lookup c k = Some v \<Longrightarrow> m k = Some v"
  by (auto simp: coherent_def map_le_def dom_def)

lemma coherent_put:
  assumes "coherent m c"
  shows "coherent (m(k \<mapsto> v)) (put k v c)"
proof -
  have "lookup c \<subseteq>\<^sub>m m" "inv c" using assms by (simp_all add: coherent_def)
  then show ?thesis
    using put [of c k v] map_le_trans [of "lookup (put k v c)" "(lookup c)(k \<mapsto> v)" "m(k \<mapsto> v)"]
    by (simp add: coherent_def map_le_upd)
qed

lemma coherent_put_same: "coherent m c \<Longrightarrow> m k = Some v \<Longrightarrow> coherent m (put k v c)"
  using coherent_put [of m c k v] by (simp add: fun_upd_idem)

lemma coherent_miss: "coherent m c \<Longrightarrow> lookup c k = None \<Longrightarrow> coherent (m(k := x)) c"
  by (auto simp: coherent_def map_le_def dom_def)

lemma coherent_mono: "coherent m c \<Longrightarrow> m \<subseteq>\<^sub>m m' \<Longrightarrow> coherent m' c"
  by (auto simp: coherent_def intro: map_le_trans)

end

section \<open>The least-recently-used cache provides it\<close>

definition lru_ok :: "('k, 'v) LRUCache \<Rightarrow> bool" where
  "lru_ok c = (dict_wf (lru_cache c) \<and> int (length (lru_cache c)) \<le> lru_capacity c)"

abbreviation lru_lookup :: "('k, 'v) LRUCache \<Rightarrow> 'k \<Rightarrow> 'v option" where
  "lru_lookup c \<equiv> dget (lru_cache c)"

lemma dget_append: "dget (d @ d') k = (case dget d k of None \<Rightarrow> dget d' k | Some v \<Rightarrow> Some v)"
  by (induction d) auto

lemma dict_wf_append: "dict_wf (d @ [(k, v)]) \<longleftrightarrow> dict_wf d \<and> \<not> dmem k d"
  by (auto simp: dict_wf_def dmem_def)

lemma length_ddel: "dict_wf d \<Longrightarrow> dmem k d \<Longrightarrow> Suc (length (ddel k d)) = length d"
  by (induction d) (auto simp: ddel_absent)

lemma move_to_end_props:
  assumes "dict_wf d"
  shows "dget (move_to_end k d) = dget d" and "dict_wf (move_to_end k d)" and "length (move_to_end k d) = length d"
proof -
  show "dget (move_to_end k d) = dget d"
    by (rule ext) (simp add: move_to_end_def dget_append split: option.splits)
  show "dict_wf (move_to_end k d)" using assms by (simp add: move_to_end_def dict_wf_append split: option.splits)
  show "length (move_to_end k d) = length d"
    using assms length_ddel [of d k] by (auto simp: move_to_end_def dmem_dget split: option.splits)
qed

lemma dget_tl: "dict_wf d \<Longrightarrow> dget (tl d) \<subseteq>\<^sub>m dget d \<and> dict_wf (tl d)"
  by (cases d) (auto simp: map_le_def dmem_dget)

lemma lru_put_props:
  assumes "lru_ok c"
  shows "lru_ok (lru_put k v c)" and "lru_lookup (lru_put k v c) \<subseteq>\<^sub>m (lru_lookup c)(k \<mapsto> v)"
    and "lru_lookup c k = Some w \<Longrightarrow> lru_lookup (lru_put k v c) = (lru_lookup c)(k \<mapsto> v)"
proof -
  let ?d = "move_to_end k (dput k v (lru_cache c))"
  have wf: "dict_wf (dput k v (lru_cache c))" using assms by (simp add: lru_ok_def)
  note mv = move_to_end_props [OF wf, of k]
  have g: "dget ?d = (lru_lookup c)(k \<mapsto> v)" unfolding mv(1) by (rule ext) simp
  have len: "length ?d = (if dmem k (lru_cache c) then length (lru_cache c) else Suc (length (lru_cache c)))"
    unfolding mv(3) by (rule length_dput)
  show "lru_ok (lru_put k v c)"
    using assms dget_tl [OF mv(2)] mv(2) len by (auto simp: lru_ok_def lru_put_def Let_def)
  show "lru_lookup (lru_put k v c) \<subseteq>\<^sub>m (lru_lookup c)(k \<mapsto> v)"
    using dget_tl [OF mv(2)] g by (simp add: lru_put_def Let_def)
  assume "lru_lookup c k = Some w"
  then have "dmem k (lru_cache c)" by (auto simp: dmem_dget)
  then show "lru_lookup (lru_put k v c) = (lru_lookup c)(k \<mapsto> v)"
    using assms len g by (simp add: lru_put_def Let_def lru_ok_def)
qed

lemma lru_get_props:
  assumes "lru_ok c"
  shows "\<exists>c'. lru_get k c = (lru_lookup c k, c') \<and> lru_ok c' \<and> lru_lookup c' = lru_lookup c"
proof (cases "dmem k (lru_cache c)")
  case True
  have "dict_wf (lru_cache c)" using assms by (simp add: lru_ok_def)
  note mv = move_to_end_props [OF this, of k]
  show ?thesis
    using True assms mv(2,3) by (intro exI [of _ "snd (lru_get k c)"]) (simp add: lru_get_def Let_def mv(1) lru_ok_def)
next
  case False
  then show ?thesis using assms by (simp add: lru_get_def not_dmem_dget)
qed

lemma lru_remove_props:
  assumes "lru_ok c" and "lru_lookup c k = Some w"
  shows "\<exists>c'. lru_remove k c = Inr c' \<and> lru_ok c' \<and> lru_lookup c' = (lru_lookup c)(k := None)"
proof -
  have m: "dmem k (lru_cache c)" using assms(2) by (auto simp: dmem_dget)
  have g: "dget (ddel k (lru_cache c)) = (lru_lookup c)(k := None)" by (rule ext) simp
  have len: "length (ddel k (lru_cache c)) \<le> length (lru_cache c)" by (simp add: ddel_def)
  have "lru_remove k c = Inr (c\<lparr>lru_cache := ddel k (lru_cache c)\<rparr>)"
    by (simp add: lru_remove_def ddel_res_present [OF m])
  moreover have "lru_ok (c\<lparr>lru_cache := ddel k (lru_cache c)\<rparr>)" using assms(1) len by (simp add: lru_ok_def)
  ultimately show ?thesis using g by simp
qed

interpretation lru: bounded_cache lru_lookup lru_ok lru_get lru_put lru_remove
proof (unfold_locales, goal_cases)
  case (1 c k)
  then show ?case by (rule lru_get_props)
next
  case (2 c k v)
  then show ?case by (intro conjI lru_put_props(1,2))
next
  case (3 c k w v)
  then show ?case by (rule lru_put_props(3))
next
  case (4 c k w)
  then show ?case by (rule lru_remove_props)
qed

section \<open>Rows and records\<close>

lemma fromhex_hex: "fromhex (hex bs) = Inr bs"
proof (induction bs)
  case (Cons b bs)
  have "word_of_int (16 * (uint b div 16) + uint b mod 16) = b" by (simp add: mult.commute)
  then show ?case using Cons by (simp add: hex_def)
qed (simp add: hex_def)

lemma hex_inject [simp]: "hex a = hex b \<longleftrightarrow> a = b"
  by (metis fromhex_hex sum.inject(2))

definition coin_record_wf :: "CoinRecord \<Rightarrow> bool" where
  "coin_record_wf r =
     (length (coin_parent_coin_info (cr_coin r)) = 32 \<and> length (coin_puzzle_hash (cr_coin r)) = 32 \<and>
      0 \<le> coin_amount (cr_coin r) \<and> coin_amount (cr_coin r) < 2 ^ 64 \<and>
      0 \<le> cr_confirmed_block_index r \<and> cr_confirmed_block_index r < 2 ^ 32 \<and>
      0 \<le> cr_spent_block_index r \<and> cr_spent_block_index r < 2 ^ 32 \<and>
      0 \<le> cr_timestamp r \<and> cr_timestamp r < 2 ^ 64)"

definition row_of :: "(bytes \<Rightarrow> bytes) \<Rightarrow> (int \<Rightarrow> bytes) \<Rightarrow> CoinRecord \<Rightarrow> coin_row" where
  "row_of sh ib r =
     \<lparr>row_coin_name = hex (cr_name sh ib r), row_confirmed_index = cr_confirmed_block_index r,
      row_spent_index = cr_spent_block_index r, row_spent = (if cr_spent r then 1 else 0),
      row_coinbase = (if cr_coinbase r then 1 else 0), row_puzzle_hash = hex (coin_puzzle_hash (cr_coin r)),
      row_coin_parent = hex (coin_parent_coin_info (cr_coin r)),
      row_amount = be_bytes 8 (coin_amount (cr_coin r)), row_timestamp = cr_timestamp r\<rparr>"

lemma amount_stream:
  assumes "0 \<le> a" and "a < 2 ^ 64"
  shows "struct_stream Pack_Q a = Inr (be_bytes 8 a)"
  using assms by (simp add: struct_stream_def struct_pack_def int_range_def)

lemma amount_from_bytes:
  assumes "0 \<le> a" and "a < 2 ^ 64"
  shows "struct_from_bytes Pack_Q (be_bytes 8 a) = Inr a"
  using struct_parse_stream [OF amount_stream [OF assms], of "[]"] by (simp add: struct_from_bytes_def)

lemma record_row_wf: "coin_record_wf r \<Longrightarrow> record_row sh ib r = Inr (row_of sh ib r)"
  by (simp add: record_row_def row_of_def coin_record_wf_def amount_stream cr_name_def)

lemma row_to_coin_wf: "coin_record_wf r \<Longrightarrow> row_to_coin (row_of sh ib r) = Inr (cr_coin r)"
  by (simp add: row_to_coin_def row_of_def coin_record_wf_def fromhex_hex sized_bytes_def amount_from_bytes)

lemma row_record_wf: "coin_record_wf r \<Longrightarrow> row_record (row_of sh ib r) = Inr r"
  by (simp add: row_record_def row_to_coin_wf) (simp add: row_of_def mk_CoinRecord_def coin_record_wf_def uint_values)

end
