(* ===== verification/Gold_Coin_Store_Correct.thy ===== *)
theory Gold_Coin_Store_Correct
  imports Gold_Coin_Rows
begin

text \<open>
  Cache and table of the coin store agree under every operation, new blocks refine a step on the map of coins, and rolling back undoes them.
\<close>

section \<open>The state of the store\<close>

text \<open>
  The table as the list of its records, and the store as a map from coin names. The store is well
  formed when the rows encode records with different names and the cache agrees with the table.
\<close>

definition coin_map :: "(bytes \<Rightarrow> bytes) \<Rightarrow> (int \<Rightarrow> bytes) \<Rightarrow> CoinRecord list \<Rightarrow> bytes32 \<Rightarrow> CoinRecord option" where
  "coin_map sh ib rs = map_of (map (\<lambda>r. (cr_name sh ib r, r)) rs)"

definition store_records :: "CoinStore \<Rightarrow> CoinRecord list" where
  "store_records s = (case rmap row_record (coin_record_db s) of Inl e \<Rightarrow> [] | Inr rs \<Rightarrow> rs)"

definition coins :: "(bytes \<Rightarrow> bytes) \<Rightarrow> (int \<Rightarrow> bytes) \<Rightarrow> CoinStore \<Rightarrow> bytes32 \<Rightarrow> CoinRecord option" where
  "coins sh ib s = coin_map sh ib (store_records s)"

definition table_ok :: "(bytes \<Rightarrow> bytes) \<Rightarrow> (int \<Rightarrow> bytes) \<Rightarrow> CoinRecord list \<Rightarrow> bool" where
  "table_ok sh ib rs = (list_all coin_record_wf rs \<and> distinct (map (cr_name sh ib) rs))"

definition store_ok :: "(bytes \<Rightarrow> bytes) \<Rightarrow> (int \<Rightarrow> bytes) \<Rightarrow> CoinStore \<Rightarrow> bool" where
  "store_ok sh ib s =
     (coin_record_db s = map (row_of sh ib) (store_records s) \<and> table_ok sh ib (store_records s) \<and>
      lru_ok (coin_record_cache s) \<and>
      list_all (\<lambda>(n, r). coins sh ib s n = Some r) (lru_cache (coin_record_cache s)))"

lemma decode_rows: "list_all coin_record_wf rs \<Longrightarrow> rmap row_record (map (row_of sh ib) rs) = Inr rs"
  by (induction rs) (simp_all add: row_record_wf)

lemma lookup_le_iff:
  assumes "dict_wf d"
  shows "dget d \<subseteq>\<^sub>m m \<longleftrightarrow> list_all (\<lambda>(n, r). m n = Some r) d"
proof -
  have "dget d \<subseteq>\<^sub>m m \<longleftrightarrow> (\<forall>n r. dget d n = Some r \<longrightarrow> m n = Some r)"
    by (auto simp: map_le_def dom_def)
  then show ?thesis using dict_wf_dget_iff [OF assms] by (auto simp: list_all_iff)
qed

text \<open>A store that holds given records.\<close>

lemma store_okI:
  assumes "coin_record_db s = map (row_of sh ib) rs" and "table_ok sh ib rs"
    and "lru.coherent (coin_map sh ib rs) (coin_record_cache s)"
  shows "store_ok sh ib s" and "store_records s = rs"
proof -
  show r: "store_records s = rs" using assms(1,2) by (simp add: store_records_def table_ok_def decode_rows)
  show "store_ok sh ib s"
    using assms lookup_le_iff [of "lru_cache (coin_record_cache s)" "coin_map sh ib rs"]
    by (simp add: store_ok_def r coins_def lru.coherent_def lru_ok_def)
qed

lemma store_okD:
  assumes "store_ok sh ib s"
  shows "coin_record_db s = map (row_of sh ib) (store_records s)" and "table_ok sh ib (store_records s)"
    and "lru.coherent (coins sh ib s) (coin_record_cache s)"
  using assms lookup_le_iff [of "lru_cache (coin_record_cache s)" "coins sh ib s"]
  by (simp_all add: store_ok_def lru.coherent_def lru_ok_def)

lemma coin_map_Some:
  assumes "distinct (map (cr_name sh ib) rs)"
  shows "coin_map sh ib rs n = Some r \<longleftrightarrow> r \<in> set rs \<and> cr_name sh ib r = n"
  using assms by (auto simp: coin_map_def comp_def map_of_eq_Some_iff)

lemma coin_map_None: "coin_map sh ib rs n = None \<longleftrightarrow> n \<notin> cr_name sh ib ` set rs"
  by (simp add: coin_map_def map_of_eq_None_iff image_image)

text \<open>A change of the records that keeps their names is a change of the map.\<close>

lemma coin_map_map:
  assumes "\<And>r. cr_name sh ib (f r) = cr_name sh ib r"
  shows "coin_map sh ib (map f rs) n = map_option f (coin_map sh ib rs n)"
  using assms by (induction rs) (auto simp: coin_map_def)

lemma table_ok_map:
  assumes "table_ok sh ib rs" and "\<And>r. cr_name sh ib (f r) = cr_name sh ib r"
    and "\<And>r. coin_record_wf r \<Longrightarrow> coin_record_wf (f r)"
  shows "table_ok sh ib (map f rs)"
  using assms by (auto simp: table_ok_def list_all_iff comp_def)

section \<open>Looking up a coin\<close>

lemma find_row:
  assumes "table_ok sh ib rs"
  shows "find (\<lambda>row. row_coin_name row = hex n) (map (row_of sh ib) rs) = map_option (row_of sh ib) (coin_map sh ib rs n)"
  by (induction rs) (auto simp: coin_map_def row_of_def)

lemma get_coin_record_lookup:
  assumes "store_ok sh ib s"
  shows "\<exists>s'. get_coin_record sh ib n s = (s', Inr (coins sh ib s n)) \<and> store_ok sh ib s' \<and>
    store_records s' = store_records s"
proof -
  note ok = store_okD [OF assms]
  obtain c where c: "lru_get n (coin_record_cache s) = (lru_lookup (coin_record_cache s) n, c)"
    "lru.coherent (coins sh ib s) c" using lru.coherent_get [OF ok(3)] by blast
  have ret: "store_ok sh ib (s\<lparr>coin_record_cache := d\<rparr>) \<and> store_records (s\<lparr>coin_record_cache := d\<rparr>) = store_records s"
    if "lru.coherent (coins sh ib s) d" for d
    using store_okI [of "s\<lparr>coin_record_cache := d\<rparr>" sh ib "store_records s"] ok that by (simp add: coins_def)
  show ?thesis
  proof (cases "lru_lookup (coin_record_cache s) n")
    case (Some r)
    with lru.coherent_hit [OF ok(3) this] ret [OF c(2)] show ?thesis by (simp add: get_coin_record_def c(1))
  next
    case None
    show ?thesis
    proof (cases "coins sh ib s n")
      case None2: None
      with None ret [OF c(2)] find_row [OF ok(2), of n] ok(1) show ?thesis
        by (simp add: get_coin_record_def c(1) coins_def)
    next
      case (Some r)
      then have r: "r \<in> set (store_records s)" "cr_name sh ib r = n"
        using ok(2) by (auto simp: coins_def coin_map_Some table_ok_def)
      then have "row_record (row_of sh ib r) = Inr r"
        using ok(2) by (auto simp: table_ok_def list_all_iff intro: row_record_wf)
      with None Some r(2) ret [OF lru.coherent_put_same [OF c(2) Some]] find_row [OF ok(2), of n] ok(1) show ?thesis
        by (simp add: get_coin_record_def c(1) coins_def cr_name_def)
    qed
  qed
qed

section \<open>Adding records\<close>

lemma add_values_ok:
  assumes "list_all coin_record_wf adds" and "lru.coherent m c"
    and "\<And>r. r \<in> set adds \<Longrightarrow> m (cr_name sh ib r) = Some r"
  shows "\<exists>c'. add_values sh ib adds c = (c', Inr (map (row_of sh ib) adds)) \<and> lru.coherent m c'"
  using assms
proof (induction adds arbitrary: c)
  case (Cons r rs)
  have "lru.coherent m (lru_put (cr_name sh ib r) r c)"
    using Cons.prems by (intro lru.coherent_put_same) auto
  then obtain c' where "add_values sh ib rs (lru_put (cr_name sh ib r) r c) = (c', Inr (map (row_of sh ib) rs))"
    "lru.coherent m c'" using Cons by auto
  with Cons.prems(1) show ?case by (simp add: record_row_wf cr_name_def)
qed simp

lemma insert_rows_ok:
  assumes "distinct (map (cr_name sh ib) (rs @ adds))"
  shows "insert_rows (map (row_of sh ib) adds) (map (row_of sh ib) rs) = (map (row_of sh ib) (rs @ adds), Inr ())"
  using assms
proof (induction adds arbitrary: rs)
  case (Cons r adds)
  have "row_coin_name (row_of sh ib r) \<notin> row_coin_name ` set (map (row_of sh ib) rs)"
    using Cons.prems by (auto simp: row_of_def)
  then show ?case using Cons.IH [of "rs @ [r]"] Cons.prems by simp
qed simp

lemma coin_map_append_le:
  assumes "distinct (map (cr_name sh ib) (rs @ adds))"
  shows "coin_map sh ib rs \<subseteq>\<^sub>m coin_map sh ib (rs @ adds)"
proof (unfold map_le_def, rule ballI)
  fix n assume "n \<in> dom (coin_map sh ib rs)"
  then obtain r where r: "coin_map sh ib rs n = Some r" by auto
  then have "coin_map sh ib (rs @ adds) n = Some r"
    using assms coin_map_Some [of sh ib rs] coin_map_Some [OF assms] by auto
  with r show "coin_map sh ib rs n = coin_map sh ib (rs @ adds) n" by simp
qed

lemma add_coin_records_ok:
  assumes "store_ok sh ib s" and "table_ok sh ib (store_records s @ adds)"
  shows "\<exists>s'. add_coin_records sh ib adds s = (s', Inr ()) \<and> store_ok sh ib s' \<and>
    store_records s' = store_records s @ adds"
proof -
  note ok = store_okD [OF assms(1)]
  let ?m = "coin_map sh ib (store_records s @ adds)"
  have dist: "distinct (map (cr_name sh ib) (store_records s @ adds))" and wf: "list_all coin_record_wf adds"
    using assms(2) by (simp_all add: table_ok_def)
  have "lru.coherent ?m (coin_record_cache s)"
    using ok(3) coin_map_append_le [OF dist] unfolding coins_def by (rule lru.coherent_mono)
  then obtain c where c: "add_values sh ib adds (coin_record_cache s) = (c, Inr (map (row_of sh ib) adds))"
    "lru.coherent ?m c"
    using add_values_ok [OF wf, of ?m "coin_record_cache s" sh ib] coin_map_Some [OF dist] by auto
  show ?thesis
    using store_okI [of "s\<lparr>coin_record_cache := c, coin_record_db := map (row_of sh ib) (store_records s @ adds)\<rparr>"
        sh ib "store_records s @ adds"] c(2) assms(2) insert_rows_ok [OF dist] ok(1)
    by (simp add: add_coin_records_def c(1))
qed

section \<open>Spending coins\<close>

definition spend_if :: "(bytes \<Rightarrow> bytes) \<Rightarrow> (int \<Rightarrow> bytes) \<Rightarrow> int \<Rightarrow> bytes32 set \<Rightarrow> CoinRecord \<Rightarrow> CoinRecord" where
  "spend_if sh ib h ns r = (if cr_name sh ib r \<in> ns then spend_record h r else r)"

lemma cr_name_spend [simp]: "cr_name sh ib (spend_record h r) = cr_name sh ib r"
  by (simp add: cr_name_def spend_record_def)

lemma cr_name_spend_if [simp]: "cr_name sh ib (spend_if sh ib h ns r) = cr_name sh ib r"
  by (simp add: spend_if_def)

lemma spend_if_wf: "coin_record_wf r \<Longrightarrow> 0 \<le> h \<Longrightarrow> h < 2 ^ 32 \<Longrightarrow> coin_record_wf (spend_if sh ib h ns r)"
  by (simp add: spend_if_def spend_record_def coin_record_wf_def)

lemma spend_if_insert: "spend_if sh ib h ns (spend_if sh ib h {n} r) = spend_if sh ib h (insert n ns) r"
  by (simp add: spend_if_def) (simp add: spend_record_def)

lemma update_spent_rows:
  "update_spent h n (map (row_of sh ib) rs) = map (row_of sh ib) (map (spend_if sh ib h {n}) rs)"
  by (simp add: update_spent_def spend_if_def spend_record_def row_of_def cr_name_def)

lemma fold_update_spent:
  "fold (update_spent h) ns (map (row_of sh ib) rs) = map (row_of sh ib) (map (spend_if sh ib h (set ns)) rs)"
proof (induction ns arbitrary: rs)
  case Nil
  then show ?case by (simp add: spend_if_def)
next
  case (Cons n ns)
  then show ?case by (simp add: update_spent_rows comp_def spend_if_insert del: map_map) (simp add: comp_def spend_if_insert)
qed

lemma coin_map_spend_one:
  assumes "distinct (map (cr_name sh ib) rs)"
  shows "coin_map sh ib (map (spend_if sh ib h {n}) rs) =
    (coin_map sh ib rs)(n := map_option (spend_record h) (coin_map sh ib rs n))"
proof (rule ext)
  fix k
  have "map_option (spend_if sh ib h {n}) (coin_map sh ib rs k) =
      (if k = n then map_option (spend_record h) (coin_map sh ib rs n) else coin_map sh ib rs k)"
  proof (cases "coin_map sh ib rs k")
    case (Some r)
    then have "cr_name sh ib r = k" using coin_map_Some [OF assms] by blast
    with Some show ?thesis by (auto simp: spend_if_def)
  qed auto
  then show "coin_map sh ib (map (spend_if sh ib h {n}) rs) k =
      ((coin_map sh ib rs)(n := map_option (spend_record h) (coin_map sh ib rs n))) k"
    by (simp add: coin_map_map)
qed

lemma spend_cached_ok:
  assumes "lru.coherent (coin_map sh ib rs) c" and "distinct (map (cr_name sh ib) rs)"
  shows "lru.coherent (coin_map sh ib (map (spend_if sh ib h (set ns)) rs)) (spend_cached sh ib h ns c)"
  using assms
proof (induction ns arbitrary: rs c)
  case Nil
  then show ?case by (simp add: spend_if_def)
next
  case (Cons n ns)
  let ?rs = "map (spend_if sh ib h {n}) rs"
  have dist: "distinct (map (cr_name sh ib) ?rs)" using Cons.prems(2) by (simp add: comp_def)
  have step: "map (spend_if sh ib h (set ns)) ?rs = map (spend_if sh ib h (set (n # ns))) rs"
    by (simp add: comp_def spend_if_insert)
  obtain c' where c': "lru_get n c = (lru_lookup c n, c')" "lru.coherent (coin_map sh ib rs) c'"
      "lru_lookup c' = lru_lookup c"
    using lru.coherent_get [OF Cons.prems(1)] by blast
  show ?case
  proof (cases "lru_lookup c n")
    case None
    then have "lru.coherent (coin_map sh ib ?rs) c'"
      unfolding coin_map_spend_one [OF Cons.prems(2)] using c'(2,3) by (intro lru.coherent_miss) simp_all
    from Cons.IH [OF this dist] None show ?thesis unfolding step by (simp add: c'(1))
  next
    case (Some r)
    then have r: "coin_map sh ib rs n = Some r" by (rule lru.coherent_hit [OF Cons.prems(1)])
    then have nm: "cr_name sh ib r = n" using coin_map_Some [OF Cons.prems(2)] by blast
    have "lru.coherent (coin_map sh ib ?rs) (lru_put n (spend_record h r) c')"
      unfolding coin_map_spend_one [OF Cons.prems(2)] r using lru.coherent_put [OF c'(2)] by simp
    from Cons.IH [OF this dist] Some nm show ?thesis unfolding step by (simp add: c'(1))
  qed
qed

lemma set_spent_ok:
  assumes "store_ok sh ib s" and "0 \<le> h" and "h < 2 ^ 32"
  shows "store_ok sh ib (set_spent sh ib ns h s) \<and>
    store_records (set_spent sh ib ns h s) = map (spend_if sh ib h (set ns)) (store_records s)"
proof -
  note ok = store_okD [OF assms(1)]
  have "table_ok sh ib (map (spend_if sh ib h (set ns)) (store_records s))"
    using ok(2) by (rule table_ok_map) (simp, erule spend_if_wf [OF _ assms(2,3)])
  moreover have "lru.coherent (coin_map sh ib (map (spend_if sh ib h (set ns)) (store_records s)))
      (spend_cached sh ib h ns (coin_record_cache s))"
    using ok(2,3) by (intro spend_cached_ok) (simp_all add: coins_def table_ok_def)
  moreover have "coin_record_db (set_spent sh ib ns h s) =
      map (row_of sh ib) (map (spend_if sh ib h (set ns)) (store_records s))"
    unfolding set_spent_def ok(1) fold_update_spent by simp
  moreover have "coin_record_cache (set_spent sh ib ns h s) = spend_cached sh ib h ns (coin_record_cache s)"
    by (simp add: set_spent_def)
  ultimately show ?thesis
    using store_okI [of "set_spent sh ib ns h s" sh ib "map (spend_if sh ib h (set ns)) (store_records s)"] by simp
qed

section \<open>A new block\<close>

definition block_additions :: "int \<Rightarrow> int \<Rightarrow> Coin list \<Rightarrow> Coin list \<Rightarrow> CoinRecord list" where
  "block_additions h t rewards adds = map (new_record h t False) adds @ map (new_record h t True) rewards"

lemma new_block_ok:
  assumes "store_ok sh ib s" and "table_ok sh ib (store_records s @ block_additions h t rewards adds)"
    and "0 \<le> h" and "h < 2 ^ 32" and "if h = 0 then rewards = [] else 2 \<le> length rewards"
  shows "\<exists>s'. new_block sh ib h t rewards adds ns s = (s', Inr (block_additions h t rewards adds)) \<and>
    store_ok sh ib s' \<and>
    store_records s' = map (spend_if sh ib h (set ns)) (store_records s @ block_additions h t rewards adds)"
proof -
  obtain s1 where s1: "add_coin_records sh ib (block_additions h t rewards adds) s = (s1, Inr ())" "store_ok sh ib s1"
    "store_records s1 = store_records s @ block_additions h t rewards adds"
    using add_coin_records_ok [OF assms(1,2)] by blast
  have "if h = 0 then length rewards = 0 else 2 \<le> length rewards" using assms(5) by auto
  then have "new_block sh ib h t rewards adds ns s = (set_spent sh ib ns h s1, Inr (block_additions h t rewards adds))"
    using s1(1) unfolding new_block_def block_additions_def by (simp add: Let_def)
  with set_spent_ok [OF s1(2) assms(3,4), of ns] s1(3) show ?thesis by simp
qed

section \<open>Rolling back\<close>

definition unspend_after :: "int \<Rightarrow> CoinRecord \<Rightarrow> CoinRecord" where
  "unspend_after h r = (if cr_spent_block_index r > h then unspend_record r else r)"

definition rolled_back :: "int \<Rightarrow> CoinRecord list \<Rightarrow> CoinRecord list" where
  "rolled_back h rs = map (unspend_after h) (filter (\<lambda>r. \<not> cr_confirmed_block_index r > h) rs)"

lemma cr_name_unspend [simp]: "cr_name sh ib (unspend_after h r) = cr_name sh ib r"
  by (simp add: cr_name_def unspend_after_def unspend_record_def)

lemma unspend_wf: "coin_record_wf r \<Longrightarrow> coin_record_wf (unspend_after h r)"
  by (simp add: unspend_after_def unspend_record_def coin_record_wf_def)

lemma row_unspend:
  "(if row_spent_index (row_of sh ib r) > h then (row_of sh ib r)\<lparr>row_spent_index := 0, row_spent := 0\<rparr>
    else row_of sh ib r) = row_of sh ib (unspend_after h r)"
  by (simp add: unspend_after_def unspend_record_def row_of_def cr_name_def)

lemma table_ok_rolled_back: "table_ok sh ib rs \<Longrightarrow> table_ok sh ib (rolled_back h rs)"
  unfolding rolled_back_def
  by (rule table_ok_map) (auto simp: table_ok_def list_all_iff distinct_map inj_on_def intro: unspend_wf)

lemma coin_map_rolled_back:
  assumes "distinct (map (cr_name sh ib) rs)"
  shows "coin_map sh ib (rolled_back h rs) n =
    (case coin_map sh ib rs n of None \<Rightarrow> None
     | Some r \<Rightarrow> if cr_confirmed_block_index r > h then None else Some (unspend_after h r))"
proof -
  have dist: "distinct (map (cr_name sh ib) (filter (\<lambda>r. \<not> cr_confirmed_block_index r > h) rs))"
    using assms by (simp add: distinct_map_filter)
  show ?thesis
  proof (cases "coin_map sh ib (filter (\<lambda>r. \<not> cr_confirmed_block_index r > h) rs) n")
    case None
    have "cr_confirmed_block_index r > h" if "coin_map sh ib rs n = Some r" for r
    proof (rule ccontr)
      assume "\<not> cr_confirmed_block_index r > h"
      then have "coin_map sh ib (filter (\<lambda>r. \<not> cr_confirmed_block_index r > h) rs) n = Some r"
        using that unfolding coin_map_Some [OF assms] coin_map_Some [OF dist] by simp
      with None show False by simp
    qed
    with None show ?thesis by (cases "coin_map sh ib rs n") (simp_all add: rolled_back_def coin_map_map)
  next
    case (Some r)
    then have "coin_map sh ib rs n = Some r" "\<not> cr_confirmed_block_index r > h"
      unfolding coin_map_Some [OF assms] coin_map_Some [OF dist] by simp_all
    with Some show ?thesis by (simp add: rolled_back_def coin_map_map)
  qed
qed

lemma unspend_fold:
  assumes "lru_ok c" and "distinct (map fst its)"
    and "\<And>n r. (n, r) \<in> set its \<Longrightarrow> lru_lookup c n = Some r \<and> cr_name sh ib r = n"
  shows "lru_ok (fold (unspend_cached sh ib h) its c) \<and>
    lru_lookup (fold (unspend_cached sh ib h) its c) n =
      (if n \<in> fst ` set its then map_option (unspend_after h) (lru_lookup c n) else lru_lookup c n)"
  using assms
proof (induction its arbitrary: c)
  case (Cons x its)
  obtain k r where x: "x = (k, r)" by (cases x)
  then have r: "lru_lookup c k = Some r" "cr_name sh ib r = k" using Cons.prems(3) by auto
  let ?c = "unspend_cached sh ib h x c"
  have c: "lru_ok ?c \<and> lru_lookup ?c = (lru_lookup c)(k \<mapsto> unspend_after h r)"
    using lru.put [OF Cons.prems(1)] lru.put_present [OF Cons.prems(1) r(1)] r Cons.prems(1)
    by (auto simp: x unspend_cached_def unspend_after_def cr_name_def [symmetric])
  have k: "k \<notin> fst ` set its" using Cons.prems(2) by (simp add: x)
  have "lru_lookup ?c n = Some s \<and> cr_name sh ib s = n" if "(n, s) \<in> set its" for n s
    using that Cons.prems(3) c k by (force simp: x)
  with Cons.IH [of ?c] c k Cons.prems(2) r show ?case by (auto simp: x)
qed simp

lemma remove_all_ok:
  assumes "lru_ok c" and "distinct ns" and "\<And>n. n \<in> set ns \<Longrightarrow> lru_lookup c n \<noteq> None"
  shows "\<exists>c'. remove_all ns c = (c', Inr ()) \<and> lru_ok c' \<and> (\<forall>n. lru_lookup c' n = (if n \<in> set ns then None else lru_lookup c n))"
  using assms
proof (induction ns arbitrary: c)
  case (Cons k ns)
  then obtain w where "lru_lookup c k = Some w" by fastforce
  then obtain c1 where c1: "lru_remove k c = Inr c1" "lru_ok c1" "lru_lookup c1 = (lru_lookup c)(k := None)"
    using lru.remove [OF Cons.prems(1)] by blast
  have "lru_lookup c1 n \<noteq> None" if "n \<in> set ns" for n using that Cons.prems(2,3) c1(3) by auto
  with Cons.IH [OF c1(2)] Cons.prems(2) obtain c' where "remove_all ns c1 = (c', Inr ())" "lru_ok c'"
    "\<forall>n. lru_lookup c' n = (if n \<in> set ns then None else lru_lookup c1 n)" by auto
  with c1 show ?case by auto
qed simp

lemma rollback_cache_ok:
  assumes "lru.coherent (coin_map sh ib rs) c" and "distinct (map (cr_name sh ib) rs)"
  shows "\<exists>c'. rollback_cache sh ib h c = (c', Inr ()) \<and> lru.coherent (coin_map sh ib (rolled_back h rs)) c'"
proof -
  let ?its = "lru_cache c" and ?c = "fold (unspend_cached sh ib h) (lru_cache c) c"
  let ?ns = "map fst (filter (\<lambda>(n, r). cr_confirmed_block_index r > h) (lru_cache c))"
  have ok: "lru_ok c" and wf: "dict_wf ?its" using assms(1) by (simp_all add: lru.coherent_def lru_ok_def)
  have dist: "distinct (map fst ?its)" using wf by (simp add: dict_wf_def)
  have item: "lru_lookup c n = Some r \<and> cr_name sh ib r = n" if "(n, r) \<in> set ?its" for n r
    using dict_wf_dget [OF wf that] lru.coherent_hit [OF assms(1)] coin_map_Some [OF assms(2)] by blast
  have c: "lru_ok ?c" "lru_lookup ?c n = map_option (unspend_after h) (lru_lookup c n)" for n
    using unspend_fold [OF ok dist item, of h] dget_None_iff [of ?its n] by (auto simp: dmem_def)
  have ns: "n \<in> set ?ns \<longleftrightarrow> (\<exists>r. lru_lookup c n = Some r \<and> cr_confirmed_block_index r > h)" for n
    unfolding dict_wf_dget_iff [OF wf] by (auto simp: image_iff Bex_def)
  have "distinct ?ns" using dist by (simp add: distinct_map_filter)
  moreover have "lru_lookup ?c n \<noteq> None" if "n \<in> set ?ns" for n
    using that unfolding ns c(2) by auto
  ultimately obtain c' where c': "remove_all ?ns ?c = (c', Inr ())" "lru_ok c'"
      "\<And>n. lru_lookup c' n = (if n \<in> set ?ns then None else lru_lookup ?c n)"
    using remove_all_ok [OF c(1), of ?ns] by blast
  have "coin_map sh ib (rolled_back h rs) n = Some r" if r: "lru_lookup c' n = Some r" for n r
  proof -
    have "n \<notin> set ?ns" and "map_option (unspend_after h) (lru_lookup c n) = Some r"
      using r unfolding c'(3) c(2) by (simp_all split: if_splits)
    then obtain w where w: "lru_lookup c n = Some w" "r = unspend_after h w" "\<not> cr_confirmed_block_index w > h"
      unfolding ns by blast
    with lru.coherent_hit [OF assms(1) w(1)] show ?thesis by (simp add: coin_map_rolled_back [OF assms(2)])
  qed
  then have "lru.coherent (coin_map sh ib (rolled_back h rs)) c'"
    using c'(2) by (auto simp: lru.coherent_def map_le_def dom_def)
  then show ?thesis using c'(1) by (simp add: rollback_cache_def Let_def)
qed

definition forgotten :: "CoinRecord \<Rightarrow> CoinRecord" where
  "forgotten r = r\<lparr>cr_confirmed_block_index := 0, cr_timestamp := 0\<rparr>"

lemma cr_name_forgotten [simp]: "cr_name sh ib (forgotten r) = cr_name sh ib r"
  by (simp add: cr_name_def forgotten_def)

lemma deleted_record_wf: "coin_record_wf r \<Longrightarrow> deleted_record (row_of sh ib r) = Inr (forgotten r)"
  by (simp add: deleted_record_def row_to_coin_wf)
    (simp add: row_of_def mk_CoinRecord_def coin_record_wf_def uint_values forgotten_def)

lemma deleted_rows:
  "list_all coin_record_wf rs \<Longrightarrow> rmap deleted_record (map (row_of sh ib) rs) = Inr (map forgotten rs)"
  by (induction rs) (simp_all add: deleted_record_wf)

lemma select_confirmed_rows:
  "select_confirmed_after h (map (row_of sh ib) rs) =
   map (row_of sh ib) (filter (\<lambda>r. cr_confirmed_block_index r > h) rs)"
  by (simp add: select_confirmed_after_def filter_map comp_def row_of_def)

lemma add_changes_fresh:
  assumes "distinct (map (cr_name sh ib) rs)" and "\<And>r. r \<in> set rs \<Longrightarrow> \<not> dmem (cr_name sh ib r) d"
  shows "add_changes sh ib False rs d = d @ map (\<lambda>r. (cr_name sh ib r, r)) rs"
  using assms
proof (induction rs arbitrary: d)
  case (Cons r rs)
  have new: "\<not> dmem (cr_name sh ib r) d" using Cons.prems(2) by simp
  have "\<not> dmem (cr_name sh ib x) (d @ [(cr_name sh ib r, r)])" if "x \<in> set rs" for x
  proof -
    have "cr_name sh ib x \<noteq> cr_name sh ib r" using that Cons.prems(1) by (metis distinct.simps(2) image_eqI list.simps(9) set_map)
    moreover have "\<not> dmem (cr_name sh ib x) d" using that Cons.prems(2) by simp
    ultimately show ?thesis by (simp add: dmem_def)
  qed
  with Cons.IH [of "d @ [(cr_name sh ib r, r)]"] Cons.prems(1) new show ?case
    by (simp add: add_changes_def dput_new)
qed (simp add: add_changes_def)

lemma rollback_ok:
  assumes "store_ok sh ib s"
  shows "\<exists>s'. rollback_to_block sh ib h s =
      (s', Inr (map forgotten (filter (\<lambda>r. cr_confirmed_block_index r > h) (store_records s)))) \<and>
    store_ok sh ib s' \<and> store_records s' = rolled_back h (store_records s)"
proof -
  note ok = store_okD [OF assms]
  let ?rs = "store_records s" and ?gone = "filter (\<lambda>r. cr_confirmed_block_index r > h) (store_records s)"
  let ?kept = "filter (\<lambda>r. \<not> cr_confirmed_block_index r > h) (store_records s)"
  have dist: "distinct (map (cr_name sh ib) ?rs)" and wf: "list_all coin_record_wf ?gone"
    using ok(2) by (auto simp: table_ok_def list_all_iff)
  obtain c where c: "rollback_cache sh ib h (coin_record_cache s) = (c, Inr ())"
      "lru.coherent (coin_map sh ib (rolled_back h ?rs)) c"
    using rollback_cache_ok [OF _ dist] ok(3) unfolding coins_def by blast
  have del: "rmap deleted_record (select_confirmed_after h (coin_record_db s)) = Inr (map forgotten ?gone)"
    unfolding ok(1) select_confirmed_rows by (rule deleted_rows [OF wf])
  have kept: "filter (\<lambda>row. \<not> row_confirmed_index row > h) (coin_record_db s) = map (row_of sh ib) ?kept"
    unfolding ok(1) by (simp add: filter_map comp_def row_of_def)
  have none: "select_confirmed_after h (map (row_of sh ib) ?kept) = []"
    unfolding select_confirmed_rows by (simp add: filter_empty_conv)
  have db: "map (\<lambda>row. if row_spent_index row > h then row\<lparr>row_spent_index := 0, row_spent := 0\<rparr> else row)
      (map (row_of sh ib) ?kept) = map (row_of sh ib) (rolled_back h ?rs)"
    by (simp only: map_map comp_def row_unspend rolled_back_def)
  have "distinct (map (cr_name sh ib) (map forgotten ?gone))"
    using dist by (simp add: comp_def distinct_map_filter)
  then have ch: "add_changes sh ib False (map forgotten ?gone) [] = map (\<lambda>r. (cr_name sh ib r, r)) (map forgotten ?gone)"
    using add_changes_fresh [of sh ib "map forgotten ?gone" "[]"] by simp
  have vals: "dvalues (map (\<lambda>r. (cr_name sh ib r, r)) (map forgotten ?gone)) = map forgotten ?gone"
    by (simp add: dvalues_def comp_def)
  have upd: "coin_record_db (s\<lparr>coin_record_cache := c\<rparr>) = coin_record_db s"
      "coin_record_db (s\<lparr>coin_record_cache := c, coin_record_db := x\<rparr>) = x"
      "s\<lparr>coin_record_cache := c, coin_record_db := x, coin_record_db := y\<rparr> =
       s\<lparr>coin_record_cache := c, coin_record_db := y\<rparr>" for x y by simp_all
  have id: "add_changes sh ib True [] d = d" for d by (simp add: add_changes_def)
  have "rollback_to_block sh ib h s =
      (s\<lparr>coin_record_cache := c, coin_record_db := map (row_of sh ib) (rolled_back h ?rs)\<rparr>, Inr (map forgotten ?gone))"
    unfolding rollback_to_block_def Let_def c(1) prod.case sum.case
    by (simp only: upd del sum.case kept none rmap.simps db ch vals id)
  then show ?thesis
    using store_okI [of "s\<lparr>coin_record_cache := c, coin_record_db := map (row_of sh ib) (rolled_back h ?rs)\<rparr>"
        sh ib "rolled_back h ?rs"] c(2) table_ok_rolled_back [OF ok(2)] by simp
qed

section \<open>The properties of the store\<close>

lemma lru_put_last:
  assumes "lru_ok c" and "1 \<le> lru_capacity c"
  shows "lru_lookup (lru_put k v c) k = Some v"
proof -
  define xs where "xs = ddel k (dput k v (lru_cache c))"
  have d: "move_to_end k (dput k v (lru_cache c)) = xs @ [(k, v)]" by (simp add: move_to_end_def xs_def)
  have new: "\<not> dmem k xs" by (simp add: xs_def)
  show ?thesis
  proof (cases xs)
    case Nil
    with assms(2) show ?thesis by (simp add: lru_put_def Let_def d)
  next
    case (Cons y ys)
    with new show ?thesis by (cases y) (simp add: lru_put_def Let_def d dget_append not_dmem_dget)
  qed
qed

text \<open>
  C12. Looking up a coin through the cache gives what the table holds, for every coin and whatever
  the cache holds, and changes neither the table nor the agreement of cache and table.
\<close>

theorem cached_lookup_is_table_lookup:
  assumes "store_ok sh ib s"
  shows "\<exists>s'. get_coin_record sh ib n s = (s', Inr (coins sh ib s n)) \<and> store_ok sh ib s' \<and>
    coins sh ib s' = coins sh ib s"
  using get_coin_record_lookup [OF assms, of n] by (auto simp: coins_def)

text \<open>
  C2. A block whose coins are new refines the abstract step on the map of coins: its coins are
  added unspent at its height, the coins it removes are marked spent at its height, and cache and
  table stay in agreement.
\<close>

theorem new_block_refines:
  assumes "store_ok sh ib s" and "table_ok sh ib (store_records s @ block_additions h t rewards adds)"
    and "0 \<le> h" and "h < 2 ^ 32" and "if h = 0 then rewards = [] else 2 \<le> length rewards"
  shows "\<exists>s'. new_block sh ib h t rewards adds ns s = (s', Inr (block_additions h t rewards adds)) \<and>
    store_ok sh ib s' \<and>
    coins sh ib s' = (\<lambda>n. map_option (\<lambda>r. if n \<in> set ns then spend_record h r else r)
      ((coin_map sh ib (block_additions h t rewards adds) ++ coins sh ib s) n))"
proof -
  let ?rs = "store_records s @ block_additions h t rewards adds"
  obtain s' where s': "new_block sh ib h t rewards adds ns s = (s', Inr (block_additions h t rewards adds))"
      "store_ok sh ib s'" "store_records s' = map (spend_if sh ib h (set ns)) ?rs"
    using new_block_ok [OF assms] by blast
  have dist: "distinct (map (cr_name sh ib) ?rs)" using assms(2) by (simp add: table_ok_def)
  have app: "coin_map sh ib ?rs = coin_map sh ib (block_additions h t rewards adds) ++ coins sh ib s"
    by (simp add: coin_map_def coins_def)
  have map: "coins sh ib s' n = map_option (spend_if sh ib h (set ns)) (coin_map sh ib ?rs n)" for n
    unfolding coins_def s'(3) by (rule coin_map_map) simp
  have "coins sh ib s' n = map_option (\<lambda>r. if n \<in> set ns then spend_record h r else r) (coin_map sh ib ?rs n)" for n
  proof (cases "coin_map sh ib ?rs n")
    case (Some r)
    then have "cr_name sh ib r = n" unfolding coin_map_Some [OF dist] by simp
    with Some show ?thesis unfolding map by (simp add: spend_if_def)
  qed (simp add: map)
  then have "coins sh ib s' = (\<lambda>n. map_option (\<lambda>r. if n \<in> set ns then spend_record h r else r)
      ((coin_map sh ib (block_additions h t rewards adds) ++ coins sh ib s) n))"
    unfolding app by (rule ext)
  with s'(1,2) show ?thesis by blast
qed

text \<open>
  C4. Rolling back over a block undoes it: after a block at height h on a store whose entries are
  all below h, and which spends only unspent coins, rolling back to h - 1 restores the table and
  leaves cache and table in agreement.
\<close>

theorem rollback_undoes_block:
  assumes "store_ok sh ib s" and "table_ok sh ib (store_records s @ block_additions h t rewards adds)"
    and "0 < h" and "h < 2 ^ 32" and "2 \<le> length rewards"
    and "\<forall>r \<in> set (store_records s). cr_confirmed_block_index r < h \<and> cr_spent_block_index r < h"
    and "\<forall>r \<in> set (store_records s). cr_name sh ib r \<in> set ns \<longrightarrow> \<not> cr_spent r \<and> cr_spent_block_index r = 0"
  shows "\<exists>s1 s2 changes. new_block sh ib h t rewards adds ns s = (s1, Inr (block_additions h t rewards adds)) \<and>
    rollback_to_block sh ib (h - 1) s1 = (s2, Inr changes) \<and>
    store_ok sh ib s2 \<and> store_records s2 = store_records s"
proof -
  let ?adds = "block_additions h t rewards adds" and ?f = "spend_if sh ib h (set ns)"
  obtain s1 where s1: "new_block sh ib h t rewards adds ns s = (s1, Inr ?adds)" "store_ok sh ib s1"
      "store_records s1 = map ?f (store_records s @ ?adds)"
    using new_block_ok [OF assms(1,2), of ns] assms(3,4,5) by auto
  obtain s2 changes where s2: "rollback_to_block sh ib (h - 1) s1 = (s2, Inr changes)" "store_ok sh ib s2"
      "store_records s2 = rolled_back (h - 1) (store_records s1)"
    using rollback_ok [OF s1(2)] by blast
  have conf: "cr_confirmed_block_index (?f r) = cr_confirmed_block_index r" for r
    by (simp add: spend_if_def spend_record_def)
  have gone: "filter (\<lambda>r. \<not> cr_confirmed_block_index r > h - 1) (map ?f ?adds) = []"
    by (auto simp: filter_empty_conv conf block_additions_def new_record_def)
  have kept: "filter (\<lambda>r. \<not> cr_confirmed_block_index r > h - 1) (map ?f (store_records s)) = map ?f (store_records s)"
    using assms(6) by (intro filter_True) (auto simp: conf)
  have "unspend_after (h - 1) (?f r) = r" if "r \<in> set (store_records s)" for r
    using that assms(6,7) by (auto simp: unspend_after_def spend_if_def spend_record_def unspend_record_def)
  then have "map (unspend_after (h - 1)) (map ?f (store_records s)) = store_records s"
    by (simp add: map_idI)
  then have "store_records s2 = store_records s"
    unfolding s2(3) s1(3) rolled_back_def map_append filter_append gone kept by simp
  with s1(1) s2(1,2) show ?thesis by blast
qed

text \<open>
  C39. The list that rolling back returns holds the coins that disappear and no other: a coin that
  becomes unspent again changes its record, yet is not in the list.
\<close>

theorem rollback_omits_unspent:
  assumes "store_ok sh ib s" and "coins sh ib s n = Some r"
    and "cr_confirmed_block_index r \<le> h" and "h < cr_spent_block_index r"
  shows "\<exists>s' changes. rollback_to_block sh ib h s = (s', Inr changes) \<and>
    coins sh ib s' n = Some (unspend_record r) \<and> n \<notin> cr_name sh ib ` set changes"
proof -
  have dist: "distinct (map (cr_name sh ib) (store_records s))"
    using store_okD(2) [OF assms(1)] by (simp add: table_ok_def)
  obtain s' where s': "rollback_to_block sh ib h s =
      (s', Inr (map forgotten (filter (\<lambda>r. cr_confirmed_block_index r > h) (store_records s))))"
      "store_records s' = rolled_back h (store_records s)"
    using rollback_ok [OF assms(1)] by blast
  have "coins sh ib s' n = Some (unspend_record r)"
    using assms(2-4) by (simp add: coins_def s'(2) coin_map_rolled_back [OF dist] unspend_after_def)
  moreover have "x = r" if "x \<in> set (store_records s)" "cr_name sh ib x = n" for x
  proof -
    have "coin_map sh ib (store_records s) n = Some x" using that unfolding coin_map_Some [OF dist] by simp
    with assms(2) show ?thesis by (simp add: coins_def)
  qed
  then have "n \<notin> cr_name sh ib ` set (map forgotten (filter (\<lambda>r. cr_confirmed_block_index r > h) (store_records s)))"
    using assms(3) by fastforce
  ultimately show ?thesis using s'(1) by blast
qed

text \<open>
  C40. Adding a record whose name is taken raises an integrity error and leaves the table alone, but
  the cache keeps the rejected record and answers with it from then on.
\<close>

theorem duplicate_stays_cached:
  assumes "store_ok sh ib s" and "coins sh ib s (cr_name sh ib r) \<noteq> None" and "coin_record_wf r"
    and "1 \<le> lru_capacity (coin_record_cache s)"
  shows "\<exists>s'. add_coin_records sh ib [r] s = (s', Inl IntegrityError) \<and> coins sh ib s' = coins sh ib s \<and>
    snd (get_coin_record sh ib (cr_name sh ib r) s') = Inr (Some r)"
proof -
  note ok = store_okD [OF assms(1)]
  let ?n = "cr_name sh ib r" and ?c = "lru_put (cr_name sh ib r) r (coin_record_cache s)"
  have "?n \<in> cr_name sh ib ` set (store_records s)" using assms(2) by (simp add: coins_def coin_map_None)
  then have taken: "row_coin_name (row_of sh ib r) \<in> row_coin_name ` set (coin_record_db s)"
    unfolding ok(1) by (force simp: row_of_def)
  have "lru_lookup ?c ?n = Some r"
    using ok(3) assms(4) lru_put_last [of "coin_record_cache s" ?n r] by (simp add: lru.coherent_def)
  moreover have "lru_ok ?c" using ok(3) unfolding lru.coherent_def by (blast intro: lru_put_props(1))
  ultimately obtain c' where c': "lru_get ?n ?c = (Some r, c')" using lru.get [of ?c ?n] by auto
  have "add_coin_records sh ib [r] s = (s\<lparr>coin_record_cache := ?c\<rparr>, Inl IntegrityError)"
    using taken by (simp add: add_coin_records_def record_row_wf [OF assms(3)] cr_name_def [symmetric])
  moreover have "coins sh ib (s\<lparr>coin_record_cache := ?c\<rparr>) = coins sh ib s"
    by (simp add: coins_def store_records_def)
  moreover have "snd (get_coin_record sh ib ?n (s\<lparr>coin_record_cache := ?c\<rparr>)) = Inr (Some r)"
    using c' by (simp add: get_coin_record_def)
  ultimately show ?thesis by blast
qed

section \<open>An example store\<close>

text \<open>The name of a coin is the first byte of its parent here; the cache holds two records.\<close>

definition sample_hash :: "bytes \<Rightarrow> bytes" where
  "sample_hash b = take 1 b"

definition sample_coin :: "byte \<Rightarrow> Coin" where
  "sample_coin i = \<lparr>coin_parent_coin_info = replicate 32 i, coin_puzzle_hash = replicate 32 0, coin_amount = 5\<rparr>"

definition sample_store :: CoinStore where
  "sample_store = coin_store_create [row_of sample_hash (\<lambda>_. []) (new_record 1 7 True (sample_coin 1))] 2"

definition spent_store :: CoinStore where
  "spent_store = set_spent sample_hash (\<lambda>_. []) [[1]] 3 sample_store"

lemma sample_store_ok: "store_ok sample_hash (\<lambda>_. []) sample_store"
  by code_simp

lemma spent_store_ok:
  "store_ok sample_hash (\<lambda>_. []) spent_store"
  "coins sample_hash (\<lambda>_. []) spent_store [1] = Some (spend_record 3 (new_record 1 7 True (sample_coin 1)))"
  by code_simp+

lemma sample_additions_ok:
  "table_ok sample_hash (\<lambda>_. [])
     (store_records sample_store @ block_additions 2 9 [sample_coin 2, sample_coin 3] [sample_coin 4])"
  by code_simp

lemma sample_store_records: "store_records sample_store = [new_record 1 7 True (sample_coin 1)]"
  by code_simp

theorem cached_lookup_is_table_lookup_witness:
  "store_ok sample_hash (\<lambda>_. []) sample_store \<and>
   (\<exists>s'. get_coin_record sample_hash (\<lambda>_. []) [1] sample_store =
     (s', Inr (coins sample_hash (\<lambda>_. []) sample_store [1])))"
  using cached_lookup_is_table_lookup [OF sample_store_ok, of "[1]"] sample_store_ok by blast

theorem new_block_refines_witness:
  "\<exists>s'. new_block sample_hash (\<lambda>_. []) 2 9 [sample_coin 2, sample_coin 3] [sample_coin 4] [[1], [4]] sample_store =
     (s', Inr (block_additions 2 9 [sample_coin 2, sample_coin 3] [sample_coin 4])) \<and>
     store_ok sample_hash (\<lambda>_. []) s'"
  using new_block_refines [OF sample_store_ok sample_additions_ok, of "[[1], [4]]"] by auto

theorem rollback_undoes_block_witness:
  "\<exists>s1 s2 changes. new_block sample_hash (\<lambda>_. []) 2 9 [sample_coin 2, sample_coin 3] [sample_coin 4] [[1], [4]]
       sample_store = (s1, Inr (block_additions 2 9 [sample_coin 2, sample_coin 3] [sample_coin 4])) \<and>
     rollback_to_block sample_hash (\<lambda>_. []) 1 s1 = (s2, Inr changes) \<and>
     store_records s2 = store_records sample_store"
  using rollback_undoes_block [OF sample_store_ok sample_additions_ok, of "[[1], [4]]"]
  by (auto simp: sample_store_records new_record_def)

theorem rollback_omits_unspent_witness:
  "\<exists>s' changes. rollback_to_block sample_hash (\<lambda>_. []) 2 spent_store = (s', Inr changes) \<and>
     coins sample_hash (\<lambda>_. []) s' [1] = Some (unspend_record (spend_record 3 (new_record 1 7 True (sample_coin 1)))) \<and>
     [1] \<notin> cr_name sample_hash (\<lambda>_. []) ` set changes"
  using rollback_omits_unspent [OF spent_store_ok, of 2] by (simp add: spend_record_def new_record_def)

theorem duplicate_stays_cached_witness:
  "\<exists>s'. add_coin_records sample_hash (\<lambda>_. []) [new_record 2 9 False (sample_coin 1)] sample_store =
       (s', Inl IntegrityError) \<and>
     coins sample_hash (\<lambda>_. []) s' [1] = Some (new_record 1 7 True (sample_coin 1)) \<and>
     snd (get_coin_record sample_hash (\<lambda>_. []) [1] s') = Inr (Some (new_record 2 9 False (sample_coin 1)))"
proof -
  have n: "cr_name sample_hash (\<lambda>_. []) (new_record 2 9 False (sample_coin 1)) = [1]"
    and c: "coins sample_hash (\<lambda>_. []) sample_store [1] = Some (new_record 1 7 True (sample_coin 1))"
    and w: "coin_record_wf (new_record 2 9 False (sample_coin 1))"
    and k: "1 \<le> lru_capacity (coin_record_cache sample_store)"
    by code_simp+
  show ?thesis
    using duplicate_stays_cached [OF sample_store_ok _ w k] c unfolding n by auto
qed

end
