(* ===== verification/Gold_Sub_Epoch.thy ===== *)
theory Gold_Sub_Epoch
  imports Gold_Difficulty
begin

text \<open>
  Functions of the consensus code that walk back over block records: the challenge of a block
  (\<^verbatim>\<open>get_block_challenge.py\<close>), the previous transaction block, the sub-epoch summary
  (\<^verbatim>\<open>make_sub_epoch_summary.py\<close>), the record of a block (\<^verbatim>\<open>full_block_to_block_record.py\<close>) and the
  VDF of a signage point (\<^verbatim>\<open>vdf_info_computation.py\<close>), all under \<^verbatim>\<open>src/chia/consensus/\<close>.
\<close>

section \<open>The classes of blocks\<close>

datatype any_block =
    AFull FullBlock
  | AHeader HeaderBlock
  | AUnfinished UnfinishedBlock
  | AUnfinishedHeader UnfinishedHeaderBlock

fun ab_finished_sub_slots :: "any_block \<Rightarrow> EndOfSubSlotBundle list" where
  "ab_finished_sub_slots (AFull b) = fb_finished_sub_slots b"
| "ab_finished_sub_slots (AHeader b) = hb_finished_sub_slots b"
| "ab_finished_sub_slots (AUnfinished b) = ub_finished_sub_slots b"
| "ab_finished_sub_slots (AUnfinishedHeader b) = uhb_finished_sub_slots b"

fun ab_prev_header_hash :: "any_block \<Rightarrow> bytes32" where
  "ab_prev_header_hash (AFull b) = fb_prev_header_hash b"
| "ab_prev_header_hash (AHeader b) = hb_prev_header_hash b"
| "ab_prev_header_hash (AUnfinished b) = ub_prev_header_hash b"
| "ab_prev_header_hash (AUnfinishedHeader b) = uhb_prev_header_hash b"

fun ab_total_iters :: "any_block \<Rightarrow> int" where
  "ab_total_iters (AFull b) = fb_total_iters b"
| "ab_total_iters (AHeader b) = hb_total_iters b"
| "ab_total_iters (AUnfinished b) = ub_total_iters b"
| "ab_total_iters (AUnfinishedHeader b) = uhb_total_iters b"

fun ab_signage_point_index :: "any_block \<Rightarrow> int" where
  "ab_signage_point_index (AFull b) = rcb_signage_point_index (fb_reward_chain_block b)"
| "ab_signage_point_index (AHeader b) = rcb_signage_point_index (hb_reward_chain_block b)"
| "ab_signage_point_index (AUnfinished b) = rcbu_signage_point_index (ub_reward_chain_block b)"
| "ab_signage_point_index (AUnfinishedHeader b) = rcbu_signage_point_index (uhb_reward_chain_block b)"

section \<open>The challenge of a block\<close>

definition close_overflow :: "int \<Rightarrow> int \<Rightarrow> BlockRecord \<Rightarrow> bool" where
  "close_overflow total_iters sub_slot_iters curr_b =
     (br_overflow curr_b \<and> total_iters - br_total_iters curr_b < sub_slot_iters div 2)"

definition eos_cond :: "BlockRecord \<times> bool \<Rightarrow> bool" where
  "eos_cond = (\<lambda>(curr_b, seen). \<not> br_first_in_sub_slot curr_b \<and> \<not> br_height curr_b = 0)"

definition eos_body :: "blockchain_view \<Rightarrow> int \<Rightarrow> int \<Rightarrow> BlockRecord \<times> bool \<Rightarrow> (BlockRecord \<times> bool) res" where
  "eos_body blocks total_iters sub_slot_iters = (\<lambda>(curr_b, seen).
     let seen = (if close_overflow total_iters sub_slot_iters curr_b then True else seen) in
     rbind (block_record blocks (br_prev_hash curr_b)) (\<lambda>b. Inr (b, seen)))"

definition final_eos_is_already_included :: "any_block \<Rightarrow> blockchain_view \<Rightarrow> int \<Rightarrow> bool comp" where
  "final_eos_is_already_included header_block blocks sub_slot_iters =
     (if length (ab_finished_sub_slots header_block) > 0 then cret False
      else
        cbind (Some (block_record blocks (ab_prev_header_hash header_block))) (\<lambda>curr_b.
        cbind (cwhile eos_cond (eos_body blocks (ab_total_iters header_block) sub_slot_iters)
                 (curr_b, close_overflow (ab_total_iters header_block) sub_slot_iters curr_b)) (\<lambda>(curr_b, seen).
        cret (br_first_in_sub_slot curr_b \<and> seen))))"

type_synonym challenge_state = "BlockRecord \<times> bytes32 list \<times> bool"

definition challenge_cond :: "nat \<Rightarrow> challenge_state \<Rightarrow> bool" where
  "challenge_cond challenges_to_look_for = (\<lambda>(curr_b, hashes, stop).
     \<not> stop \<and> length hashes < challenges_to_look_for)"

definition challenge_body :: "blockchain_view \<Rightarrow> challenge_state \<Rightarrow> challenge_state res" where
  "challenge_body blocks = (\<lambda>(curr_b, hashes, stop).
     let hashes = (case br_finished_challenge_slot_hashes curr_b of
         None \<Rightarrow> hashes | Some slot_hashes \<Rightarrow> hashes @ rev slot_hashes) in
     if br_height curr_b = 0 then
       rbind (not_none (br_finished_challenge_slot_hashes curr_b)) (\<lambda>slot_hashes.
       rbind (py_assert (length slot_hashes > 0)) (\<lambda>_. Inr (curr_b, hashes, True)))
     else rbind (block_record blocks (br_prev_hash curr_b)) (\<lambda>b. Inr (b, hashes, False)))"

definition get_block_challenge ::
    "(bytes \<Rightarrow> bytes) \<Rightarrow> ConsensusConstants \<Rightarrow> any_block \<Rightarrow> blockchain_view \<Rightarrow> bool \<Rightarrow> bool \<Rightarrow> bool \<Rightarrow> bytes32 comp" where
  "get_block_challenge std_hash c header_block blocks genesis_block overflow skip_overflow_last_ss_validation =
     (if length (ab_finished_sub_slots header_block) > 0 then
        cbind (Some (py_nth (ab_finished_sub_slots header_block) (-1))) (\<lambda>slot.
        if overflow then
          if skip_overflow_last_ss_validation then
            cret (ChallengeChainSubSlot_hash std_hash (eos_challenge_chain slot))
          else cret (vi_challenge (cc_challenge_chain_end_of_slot_vdf (eos_challenge_chain slot)))
        else cret (ChallengeChainSubSlot_hash std_hash (eos_challenge_chain slot)))
      else if genesis_block then cret (GENESIS_CHALLENGE c)
      else
        (let challenges_to_look_for =
               (if overflow then if skip_overflow_last_ss_validation then 1 else 2 else 1) in
         cbind (Some (block_record blocks (ab_prev_header_hash header_block))) (\<lambda>curr_b.
         cbind (cwhile (challenge_cond challenges_to_look_for) (challenge_body blocks) (curr_b, [], False))
           (\<lambda>(curr_b, hashes, stop).
         Some (py_nth hashes (int challenges_to_look_for - 1))))))"

section \<open>The previous transaction block\<close>

definition get_prev_transaction_block ::
    "BlockRecord \<Rightarrow> blockchain_view \<Rightarrow> int \<Rightarrow> (bool \<times> BlockRecord) comp" where
  "get_prev_transaction_block first_b blocks total_iters_sp =
     cbind (cwhile (\<lambda>b. \<not> br_is_transaction_block b) (\<lambda>b. block_record blocks (br_prev_hash b)) first_b) (\<lambda>curr_b.
     if total_iters_sp > br_total_iters curr_b then cret (True, curr_b) else cret (False, first_b))"

section \<open>Sub-epoch summaries\<close>

definition make_sub_epoch_summary ::
    "(bytes \<Rightarrow> bytes) \<Rightarrow> ConsensusConstants \<Rightarrow> blockchain_view \<Rightarrow> int \<Rightarrow> BlockRecord \<Rightarrow> int option \<Rightarrow> int option \<Rightarrow>
     SubEpochSummary comp" where
  "make_sub_epoch_summary std_hash c blocks blocks_included_height prev_prev_block new_difficulty new_sub_slot_iters =
     cbind (Some (py_assert (br_height prev_prev_block = blocks_included_height - 2))) (\<lambda>_.
     cbind (Some (floor_div (blocks_included_height + MAX_SUB_SLOT_BLOCKS c) (SUB_EPOCH_BLOCKS c))) (\<lambda>q.
     if q \<le> 1 then
       cret \<lparr>ses_prev_subepoch_summary_hash = GENESIS_CHALLENGE c, ses_reward_chain_hash = GENESIS_CHALLENGE c,
             ses_num_blocks_overflow = 0, ses_new_difficulty = None, ses_new_sub_slot_iters = None\<rparr>
     else
       cbind (cwhile (\<lambda>b. br_sub_epoch_summary_included b = None) (\<lambda>b. block_record blocks (br_prev_hash b))
                prev_prev_block) (\<lambda>curr_b.
       cbind (Some (not_none (br_finished_reward_slot_hashes curr_b))) (\<lambda>reward_hashes.
       cbind (Some (not_none (br_sub_epoch_summary_included curr_b))) (\<lambda>included.
       cbind (Some (py_nth reward_hashes (-1))) (\<lambda>reward_hash.
       cbind (Some (uint8 (br_height curr_b mod SUB_EPOCH_BLOCKS c))) (\<lambda>overflow_blocks.
       cret \<lparr>ses_prev_subepoch_summary_hash = SubEpochSummary_hash std_hash included,
             ses_reward_chain_hash = reward_hash, ses_num_blocks_overflow = overflow_blocks,
             ses_new_difficulty = new_difficulty, ses_new_sub_slot_iters = new_sub_slot_iters\<rparr>)))))))"

definition epoch_summary_included :: "BlockRecord \<Rightarrow> bool" where
  "epoch_summary_included b =
     (case br_sub_epoch_summary_included b of None \<Rightarrow> False | Some ses \<Rightarrow> ses_new_difficulty ses \<noteq> None)"

definition soon_body :: "blockchain_view \<Rightarrow> BlockRecord \<times> bool \<Rightarrow> (BlockRecord \<times> bool) res" where
  "soon_body blocks = (\<lambda>(curr_b, can_finish_epoch).
     let can_finish_epoch = (if epoch_summary_included curr_b then False else can_finish_epoch) in
     rbind (block_record blocks (br_prev_hash curr_b)) (\<lambda>b. Inr (b, can_finish_epoch)))"

text \<open>Whether the epoch can be finished soon.\<close>

definition can_finish_epoch_soon :: "ConsensusConstants \<Rightarrow> blockchain_view \<Rightarrow> BlockRecord \<Rightarrow> bool comp" where
  "can_finish_epoch_soon c blocks prev_b =
     cbind (Some (uint32 (br_height prev_b + 2))) (\<lambda>h.
     cbind (Some (height_can_be_first_in_epoch c h)) (\<lambda>first.
     if first then
       cbind (Some (py_mod (br_height prev_b + 2) (SUB_EPOCH_BLOCKS c))) (\<lambda>r.
       if r > 1 then
         cbind (cwhile (\<lambda>(b, f). br_height b mod SUB_EPOCH_BLOCKS c > 0) (soon_body blocks) (prev_b, True)) (\<lambda>(b, f).
         cret (if epoch_summary_included b then False else f))
       else cret True)
     else
       cbind (Some (uint32 (br_height prev_b + MAX_SUB_SLOT_BLOCKS c + 2))) (\<lambda>h.
       Some (height_can_be_first_in_epoch c h))))"

definition next_sub_epoch_summary ::
    "(bytes \<Rightarrow> bytes) \<Rightarrow> ConsensusConstants \<Rightarrow> blockchain_view \<Rightarrow> int \<Rightarrow> any_block \<Rightarrow> bool \<Rightarrow> SubEpochSummary option comp" where
  "next_sub_epoch_summary std_hash c blocks required_iters block can_finish_soon =
     (let slots = ab_finished_sub_slots block; sp_index = ab_signage_point_index block in
      cbind (Some (try_block_record blocks (ab_prev_header_hash block))) (\<lambda>found.
      case found of
        None \<Rightarrow> cret None
      | Some prev_b \<Rightarrow>
          if br_height prev_b = 0 then cret None
          else if slots \<noteq> [] \<and> cc_new_difficulty (eos_challenge_chain (hd slots)) \<noteq> None then cret None
          else
            cbind (get_next_sub_slot_iters_and_difficulty c (length slots > 0) (Some prev_b) blocks)
              (\<lambda>(sub_slot_iters, _).
            cbind (Some (is_overflow_block c sp_index)) (\<lambda>overflow.
            if slots \<noteq> [] \<and> cc_subepoch_summary_hash (eos_challenge_chain (hd slots)) \<noteq> None then cret None
            else
              cbind (if can_finish_soon then
                       cbind (can_finish_epoch_soon c blocks prev_b) (\<lambda>e. cret (0, True, e))
                     else
                       cbind (Some (uint32 (br_height prev_b + 1))) (\<lambda>h.
                       cbind (Some (calculate_deficit c h (Some prev_b) overflow (int (length slots)))) (\<lambda>deficit.
                       cbind (can_finish_sub_and_full_epoch c blocks h (Some (br_header_hash prev_b)) deficit False)
                         (\<lambda>(se, e). cret (deficit, se, e))))) (\<lambda>(deficit, can_finish_se, can_finish_epoch).
              if \<not> can_finish_se then cret None
              else
                cbind (if can_finish_epoch then
                         cbind (Some (calculate_sp_iters c sub_slot_iters sp_index)) (\<lambda>sp_iters.
                         cbind (Some (calculate_ip_iters c sub_slot_iters sp_index required_iters)) (\<lambda>ip_iters.
                         cbind (Some (uint32 (br_height prev_b + 1))) (\<lambda>h.
                         cbind (Some (block_record blocks (br_prev_hash prev_b))) (\<lambda>prev_prev_b.
                         cbind (Some (uint64 (br_weight prev_b - br_weight prev_prev_b))) (\<lambda>difficulty.
                         cbind (Some (uint128 (ab_total_iters block - ip_iters + sp_iters
                                  - (if overflow then sub_slot_iters else 0)))) (\<lambda>sp_total_iters.
                         cbind (get_next_difficulty c blocks (ab_prev_header_hash block) h difficulty deficit
                                  False True sp_total_iters True) (\<lambda>next_difficulty.
                         cbind (get_next_sub_slot_iters c blocks (ab_prev_header_hash block) h sub_slot_iters
                                  deficit False True sp_total_iters True) (\<lambda>next_sub_slot_iters.
                         cret (Some next_difficulty, Some next_sub_slot_iters)))))))))
                       else cret (None, None)) (\<lambda>(next_difficulty, next_sub_slot_iters).
                cbind (Some (uint32 (br_height prev_b + 2))) (\<lambda>h.
                cbind (make_sub_epoch_summary std_hash c blocks h prev_b next_difficulty next_sub_slot_iters) (\<lambda>ses.
                cret (Some ses)))))))))"

section \<open>The record of a block\<close>

datatype chain_record_source = FullB FullBlock | HeaderB HeaderBlock

fun src_block :: "chain_record_source \<Rightarrow> any_block" where
  "src_block (FullB b) = AFull b"
| "src_block (HeaderB b) = AHeader b"

fun src_reward_chain_block :: "chain_record_source \<Rightarrow> RewardChainBlock" where
  "src_reward_chain_block (FullB b) = fb_reward_chain_block b"
| "src_reward_chain_block (HeaderB b) = hb_reward_chain_block b"

fun src_foliage :: "chain_record_source \<Rightarrow> Foliage" where
  "src_foliage (FullB b) = fb_foliage b"
| "src_foliage (HeaderB b) = hb_foliage b"

fun src_foliage_transaction_block :: "chain_record_source \<Rightarrow> FoliageTransactionBlock option" where
  "src_foliage_transaction_block (FullB b) = fb_foliage_transaction_block b"
| "src_foliage_transaction_block (HeaderB b) = hb_foliage_transaction_block b"

fun src_transactions_info :: "chain_record_source \<Rightarrow> TransactionsInfo option" where
  "src_transactions_info (FullB b) = fb_transactions_info b"
| "src_transactions_info (HeaderB b) = hb_transactions_info b"

fun src_header_hash :: "(bytes \<Rightarrow> bytes) \<Rightarrow> chain_record_source \<Rightarrow> bytes32" where
  "src_header_hash std_hash (FullB b) = fb_header_hash std_hash b"
| "src_header_hash std_hash (HeaderB b) = hb_header_hash std_hash b"

definition header_block_to_sub_block_record ::
    "(bytes \<Rightarrow> bytes) \<Rightarrow> ConsensusConstants \<Rightarrow> int \<Rightarrow> chain_record_source \<Rightarrow> int \<Rightarrow> bool \<Rightarrow> int \<Rightarrow> int \<Rightarrow>
     SubEpochSummary option \<Rightarrow> BlockRecord" where
  "header_block_to_sub_block_record std_hash c required_iters block sub_slot_iters overflow deficit
       prev_transaction_block_height ses =
     (let rcb = src_reward_chain_block block; slots = ab_finished_sub_slots (src_block block);
          cbi = \<lparr>cbi_proof_of_space = rcb_proof_of_space rcb,
                 cbi_challenge_chain_sp_vdf = rcb_challenge_chain_sp_vdf rcb,
                 cbi_challenge_chain_sp_signature = rcb_challenge_chain_sp_signature rcb,
                 cbi_challenge_chain_ip_vdf = rcb_challenge_chain_ip_vdf rcb\<rparr>;
          (cc_hashes, rc_hashes, icc_hashes) =
            (if length slots > 0 then
               (Some (map (\<lambda>s. ChallengeChainSubSlot_hash std_hash (eos_challenge_chain s)) slots),
                Some (map (\<lambda>s. RewardChainSubSlot_hash std_hash (eos_reward_chain s)) slots),
                Some (map (InfusedChallengeChainSubSlot_hash std_hash)
                        (List.map_filter eos_infused_challenge_chain slots)))
             else if rcb_height rcb = 0 then (Some [GENESIS_CHALLENGE c], Some [GENESIS_CHALLENGE c], None)
             else (None, None, None))
      in \<lparr>br_header_hash = src_header_hash std_hash block,
          br_prev_hash = ab_prev_header_hash (src_block block),
          br_height = rcb_height rcb,
          br_weight = rcb_weight rcb,
          br_total_iters = rcb_total_iters rcb,
          br_signage_point_index = rcb_signage_point_index rcb,
          br_challenge_vdf_output = vi_output (rcb_challenge_chain_ip_vdf rcb),
          br_infused_challenge_vdf_output = map_option vi_output (rcb_infused_challenge_chain_ip_vdf rcb),
          br_reward_infusion_new_challenge = RewardChainBlock_hash std_hash rcb,
          br_challenge_block_info_hash = ChallengeBlockInfo_hash std_hash cbi,
          br_sub_slot_iters = sub_slot_iters,
          br_pool_puzzle_hash = pt_puzzle_hash (fbd_pool_target (fol_foliage_block_data (src_foliage block))),
          br_farmer_puzzle_hash = fbd_farmer_reward_puzzle_hash (fol_foliage_block_data (src_foliage block)),
          br_required_iters = required_iters,
          br_deficit = deficit,
          br_overflow = overflow,
          br_prev_transaction_block_height = prev_transaction_block_height,
          br_timestamp = map_option ftb_timestamp (src_foliage_transaction_block block),
          br_prev_transaction_block_hash =
            map_option ftb_prev_transaction_block_hash (src_foliage_transaction_block block),
          br_fees = map_option ti_fees (src_transactions_info block),
          br_reward_claims_incorporated = map_option ti_reward_claims_incorporated (src_transactions_info block),
          br_finished_challenge_slot_hashes = cc_hashes,
          br_finished_infused_challenge_slot_hashes = icc_hashes,
          br_finished_reward_slot_hashes = rc_hashes,
          br_sub_epoch_summary_included = ses,
          br_farmer_public_key = pos_farmer_public_key (rcb_proof_of_space rcb)\<rparr>)"

text \<open>The last summary hash among the finished sub-slots; an empty hash counts as none.\<close>

definition found_ses_hash :: "EndOfSubSlotBundle list \<Rightarrow> bytes32 option" where
  "found_ses_hash slots =
     (case fold (\<lambda>s found. case cc_subepoch_summary_hash (eos_challenge_chain s) of
                   None \<Rightarrow> found | Some h \<Rightarrow> Some h) slots None of
        None \<Rightarrow> None | Some h \<Rightarrow> if h = [] then None else Some h)"

definition prev_tx_cond :: "BlockRecord option \<Rightarrow> bool" where
  "prev_tx_cond curr_b = (case curr_b of None \<Rightarrow> False | Some b \<Rightarrow> \<not> br_is_transaction_block b)"

definition prev_tx_body :: "blockchain_view \<Rightarrow> BlockRecord option \<Rightarrow> BlockRecord option res" where
  "prev_tx_body blocks curr_b =
     (case curr_b of None \<Rightarrow> Inr None | Some b \<Rightarrow> try_block_record blocks (br_prev_hash b))"

definition block_to_block_record ::
    "(bytes \<Rightarrow> bytes) \<Rightarrow> ConsensusConstants \<Rightarrow> blockchain_view \<Rightarrow> int \<Rightarrow> chain_record_source option \<Rightarrow>
     HeaderBlock option \<Rightarrow> BlockRecord comp" where
  "block_to_block_record std_hash c blocks required_iters full_block header_block =
     cbind (case full_block of
              None \<Rightarrow> cbind (Some (not_none header_block)) (\<lambda>b. cret (HeaderB b))
            | Some b \<Rightarrow> cret b) (\<lambda>block.
     let rcb = src_reward_chain_block block; slots = ab_finished_sub_slots (src_block block);
         prev_hash = ab_prev_header_hash (src_block block) in
     cbind (Some (try_block_record blocks prev_hash)) (\<lambda>prev_b.
     cbind (Some (if rcb_height rcb > 0 then py_assert (prev_b \<noteq> None) else Inr ())) (\<lambda>_.
     cbind (get_next_sub_slot_iters_and_difficulty c (length slots > 0) prev_b blocks) (\<lambda>(sub_slot_iters, _).
     cbind (Some (is_overflow_block c (rcb_signage_point_index rcb))) (\<lambda>overflow.
     cbind (Some (calculate_deficit c (rcb_height rcb) prev_b overflow (int (length slots)))) (\<lambda>deficit.
     cbind (case found_ses_hash slots of
              None \<Rightarrow> cret None
            | Some h \<Rightarrow>
                cbind (Some (not_none prev_b)) (\<lambda>prev_b.
                cbind (Some (py_nth slots 0)) (\<lambda>slot.
                cbind (Some (block_record blocks (br_prev_hash prev_b))) (\<lambda>prev_prev_b.
                cbind (make_sub_epoch_summary std_hash c blocks (rcb_height rcb) prev_prev_b
                         (cc_new_difficulty (eos_challenge_chain slot))
                         (cc_new_sub_slot_iters (eos_challenge_chain slot))) (\<lambda>ses.
                cbind (Some (py_assert (SubEpochSummary_hash std_hash ses = h))) (\<lambda>_.
                cret (Some ses))))))) (\<lambda>ses.
     cbind (cwhile prev_tx_cond (prev_tx_body blocks) prev_b) (\<lambda>curr_b.
     let prev_transaction_block_height =
           (case curr_b of None \<Rightarrow> 0 | Some b \<Rightarrow> if br_is_transaction_block b then br_height b else 0) in
     cret (header_block_to_sub_block_record std_hash c required_iters block sub_slot_iters overflow deficit
             prev_transaction_block_height ses)))))))))"

section \<open>The VDF of a signage point\<close>

text \<open>
  The cases that start inside the sub-slot of the previous block (cases 4 and 6): challenge,
  reward chain challenge, input and iterations.
\<close>

definition vdf_from_prev ::
    "blockchain_view \<Rightarrow> BlockRecord \<Rightarrow> int \<Rightarrow> int \<Rightarrow> (bytes32 \<times> bytes32 \<times> ClassgroupElement \<times> int) comp" where
  "vdf_from_prev blocks prev_b sp_total_iters sp_iters =
     cbind (cwhile (\<lambda>b. \<not> br_first_in_sub_slot b \<and> br_total_iters b > sp_total_iters)
              (\<lambda>b. block_record blocks (br_prev_hash b)) prev_b) (\<lambda>curr_b.
     cbind (if br_total_iters curr_b < sp_total_iters then
              cbind (Some (uint64 (sp_total_iters - br_total_iters curr_b))) (\<lambda>iters.
              cret (iters, br_challenge_vdf_output curr_b, br_reward_infusion_new_challenge curr_b))
            else
              cbind (Some (not_none (br_finished_reward_slot_hashes curr_b))) (\<lambda>hashes.
              cbind (Some (py_nth hashes (-1))) (\<lambda>h.
              cret (sp_iters, get_default_element, h)))) (\<lambda>(sp_vdf_iters, cc_vdf_input, rc_vdf_challenge).
     cbind (cwhile (\<lambda>b. \<not> br_first_in_sub_slot b) (\<lambda>b. block_record blocks (br_prev_hash b)) curr_b) (\<lambda>curr_b.
     cbind (Some (not_none (br_finished_challenge_slot_hashes curr_b))) (\<lambda>hashes.
     cbind (Some (py_nth hashes (-1))) (\<lambda>cc_vdf_challenge.
     cret (cc_vdf_challenge, rc_vdf_challenge, cc_vdf_input, sp_vdf_iters))))))"

text \<open>The finished slots of a block, the last one first.\<close>

definition slots_of :: "BlockRecord \<Rightarrow> (bytes32 \<times> bytes32) list res" where
  "slots_of b =
     (if br_first_in_sub_slot b then
        rbind (not_none (br_finished_challenge_slot_hashes b)) (\<lambda>cc_hashes.
        rbind (not_none (br_finished_reward_slot_hashes b)) (\<lambda>rc_hashes.
        Inr (rev (zip cc_hashes rc_hashes))))
      else Inr [])"

type_synonym slots_state = "BlockRecord \<times> (bytes32 \<times> bytes32) list \<times> BlockRecord option"

definition slots_cond :: "slots_state \<Rightarrow> bool" where
  "slots_cond = (\<lambda>(curr_b, found_sub_slots, sp_pre_sb). length found_sub_slots < 2 \<and> br_height curr_b > 0)"

definition pre_sb :: "int \<Rightarrow> BlockRecord \<Rightarrow> BlockRecord option \<Rightarrow> BlockRecord option" where
  "pre_sb sp_total_iters curr_b sp_pre_sb =
     (if sp_pre_sb = None \<and> br_total_iters curr_b < sp_total_iters then Some curr_b else sp_pre_sb)"

definition slots_body :: "blockchain_view \<Rightarrow> int \<Rightarrow> slots_state \<Rightarrow> slots_state res" where
  "slots_body blocks sp_total_iters = (\<lambda>(curr_b, found_sub_slots, sp_pre_sb).
     rbind (block_record blocks (br_prev_hash curr_b)) (\<lambda>b.
     rbind (slots_of b) (\<lambda>slots.
     Inr (b, found_sub_slots @ slots, pre_sb sp_total_iters curr_b sp_pre_sb))))"

text \<open>The case of an overflow block in the sub-slot of the previous block (case 5).\<close>

definition vdf_from_overflow ::
    "blockchain_view \<Rightarrow> BlockRecord \<Rightarrow> int \<Rightarrow> int \<Rightarrow> (bytes32 \<times> bytes32 \<times> ClassgroupElement \<times> int) comp" where
  "vdf_from_overflow blocks prev_b sp_total_iters sp_iters =
     cbind (Some (slots_of prev_b)) (\<lambda>slots.
     cbind (cwhile slots_cond (slots_body blocks sp_total_iters) (prev_b, slots, None))
       (\<lambda>(curr_b, found_sub_slots, sp_pre_sb).
     cbind (case pre_sb sp_total_iters curr_b sp_pre_sb of
              Some b \<Rightarrow>
                cbind (Some (uint64 (sp_total_iters - br_total_iters b))) (\<lambda>iters.
                cret (iters, br_challenge_vdf_output b, br_reward_infusion_new_challenge b))
            | None \<Rightarrow>
                cbind (Some (py_nth found_sub_slots 1)) (\<lambda>slot.
                cret (sp_iters, get_default_element, snd slot))) (\<lambda>(sp_vdf_iters, cc_vdf_input, rc_vdf_challenge).
     cbind (Some (py_nth found_sub_slots 1)) (\<lambda>slot.
     cret (fst slot, rc_vdf_challenge, cc_vdf_input, sp_vdf_iters)))))"

definition get_signage_point_vdf_info ::
    "(bytes \<Rightarrow> bytes) \<Rightarrow> ConsensusConstants \<Rightarrow> EndOfSubSlotBundle list \<Rightarrow> bool \<Rightarrow> BlockRecord option \<Rightarrow>
     blockchain_view \<Rightarrow> int \<Rightarrow> int \<Rightarrow>
     (bytes32 \<times> bytes32 \<times> ClassgroupElement \<times> ClassgroupElement \<times> int \<times> int) comp" where
  "get_signage_point_vdf_info std_hash c finished_sub_slots overflow prev_b blocks sp_total_iters sp_iters =
     (let new_sub_slot = length finished_sub_slots > 0; genesis_block = (prev_b = None) in
      cbind (if new_sub_slot \<and> \<not> overflow then
               cbind (Some (py_nth finished_sub_slots (-1))) (\<lambda>slot.
               cret (ChallengeChainSubSlot_hash std_hash (eos_challenge_chain slot),
                     RewardChainSubSlot_hash std_hash (eos_reward_chain slot), get_default_element, sp_iters))
             else if new_sub_slot \<and> overflow \<and> length finished_sub_slots > 1 then
               cbind (Some (py_nth finished_sub_slots (-2))) (\<lambda>slot.
               cret (ChallengeChainSubSlot_hash std_hash (eos_challenge_chain slot),
                     RewardChainSubSlot_hash std_hash (eos_reward_chain slot), get_default_element, sp_iters))
             else if genesis_block then
               cret (GENESIS_CHALLENGE c, GENESIS_CHALLENGE c, get_default_element, sp_iters)
             else if new_sub_slot \<and> overflow \<and> length finished_sub_slots = 1 then
               cbind (Some (not_none prev_b)) (\<lambda>b. vdf_from_prev blocks b sp_total_iters sp_iters)
             else if \<not> new_sub_slot \<and> overflow then
               cbind (Some (not_none prev_b)) (\<lambda>b. vdf_from_overflow blocks b sp_total_iters sp_iters)
             else if \<not> new_sub_slot \<and> \<not> overflow then
               cbind (Some (not_none prev_b)) (\<lambda>b. vdf_from_prev blocks b sp_total_iters sp_iters)
             else craise AssertionError) (\<lambda>(cc_vdf_challenge, rc_vdf_challenge, cc_vdf_input, sp_vdf_iters).
      cret (cc_vdf_challenge, rc_vdf_challenge, cc_vdf_input, get_default_element, sp_vdf_iters, sp_vdf_iters)))"

end
