(* ===== verification/Gold_Sub_Epoch_Correct.thy ===== *)
theory Gold_Sub_Epoch_Correct
  imports Gold_Sub_Epoch Gold_Difficulty_Correct
begin

text \<open>
  The walks over previous blocks end on a well formed chain, and the record of a block is well typed and joins the chain.
\<close>

section \<open>Walking back ends\<close>

context rooted_chain
begin

lemma walk_returns:
  assumes "inv s" and "on_chain (view s) b"
  shows "returns (cwhile c (\<lambda>b. block_record (view s) (br_prev_hash b)) b)"
  by (rule returns_cwhile [where I = "on_chain (view s)" and m = "\<lambda>b. nat (br_height b)"])
    (use assms step_back [OF assms(1)] in auto)

lemma walk_on_chain:
  assumes "cwhile c (\<lambda>b. block_record (view s) (br_prev_hash b)) b = cret b'" and "inv s" and "on_chain (view s) b"
  shows "on_chain (view s) b'"
  using cwhile_Inr [OF assms(1), where I = "on_chain (view s)"] step_back [OF assms(2)] assms(3) by blast

lemma final_eos_returns:
  assumes "inv s"
  shows "returns (final_eos_is_already_included hb (view s) ssi)"
proof -
  have "returns (cwhile eos_cond (eos_body (view s) t ssi) (b, f))" if "on_chain (view s) b" for t b f
    by (rule returns_cwhile [where I = "\<lambda>(b, f). on_chain (view s) b" and m = "\<lambda>(b, f). nat (br_height b)"])
      (use that step_back [OF assms] in \<open>auto simp: eos_body_def rbind_eq_Inr Let_def\<close>)
  then show ?thesis
    unfolding final_eos_is_already_included_def
    using on_chain_record [OF assms] by (auto intro!: returns_intros split: prod.splits)
qed

lemma challenge_loop_returns:
  assumes "inv s" and "on_chain (view s) b"
  shows "returns (cwhile (challenge_cond n) (challenge_body (view s)) (b, hs, False))"
  by (rule returns_cwhile [where I = "\<lambda>(b, hs, f). on_chain (view s) b"
        and m = "\<lambda>(b, hs, f). nat (br_height b) + (if f then 0 else 1)"])
    (use assms step_back [OF assms(1)] in
      \<open>auto simp: challenge_body_def challenge_cond_def rbind_eq_Inr Let_def split: if_splits\<close>)

lemma block_challenge_returns:
  assumes "inv s"
  shows "returns (get_block_challenge sh c hb (view s) g ov sk)"
  unfolding get_block_challenge_def Let_def
  using on_chain_record [OF assms]
  by (auto intro!: returns_intros challenge_loop_returns [OF assms] split: prod.splits)

lemma make_summary_returns:
  assumes "inv s" and "on_chain (view s) b"
  shows "returns (make_sub_epoch_summary sh c (view s) h b d i)"
  unfolding make_sub_epoch_summary_def by (intro returns_intros walk_returns assms)

lemma vdf_from_prev_returns:
  assumes "inv s" and "on_chain (view s) b"
  shows "returns (vdf_from_prev (view s) b n i)"
  unfolding vdf_from_prev_def
proof (rule returns_cbind [OF walk_returns [OF assms]], goal_cases)
  case (1 b')
  have "on_chain (view s) b'" using 1 assms by (rule walk_on_chain)
  then show ?case by (auto intro!: returns_intros walk_returns [OF assms(1)] split: prod.splits)
qed

lemma vdf_from_overflow_returns:
  assumes "inv s" and "on_chain (view s) b"
  shows "returns (vdf_from_overflow (view s) b n i)"
proof -
  have "returns (cwhile slots_cond (slots_body (view s) n) (b, l, p))" for l p
    by (rule returns_cwhile [where I = "\<lambda>(b, l, p). on_chain (view s) b" and m = "\<lambda>(b, l, p). nat (br_height b)"])
      (use assms step_back [OF assms(1)] in \<open>auto simp: slots_body_def rbind_eq_Inr\<close>)
  then show ?thesis
    unfolding vdf_from_overflow_def by (auto intro!: returns_intros split: prod.splits option.splits)
qed

lemma vdf_info_returns:
  assumes "inv s" and "\<And>b. prev_b = Some b \<Longrightarrow> on_chain (view s) b"
  shows "returns (get_signage_point_vdf_info sh c slots ov prev_b (view s) n i)"
  unfolding get_signage_point_vdf_info_def Let_def
  using assms
  by (auto intro!: returns_intros vdf_from_prev_returns vdf_from_overflow_returns split: prod.splits)

end

text \<open>
  C24. On a well formed cache every walk over previous blocks returns: the search for an included
  end of slot, the challenge of a block, the sub-epoch summary and the VDF of a signage point.
\<close>

theorem chain_walks_terminate:
  assumes "cache_rooted s" and "on_chain (block_cache_view s) b"
  shows "(\<exists>r. final_eos_is_already_included hb (block_cache_view s) ssi = Some r) \<and>
    (\<exists>r. get_block_challenge sh c hb (block_cache_view s) genesis ov skip = Some r) \<and>
    (\<exists>r. make_sub_epoch_summary sh c (block_cache_view s) h b d i = Some r) \<and>
    (\<exists>r. get_signage_point_vdf_info sh c slots ov (Some b) (block_cache_view s) n k = Some r)"
  using rooted.final_eos_returns [OF assms(1), of hb ssi]
    rooted.block_challenge_returns [OF assms(1), of sh c hb genesis ov skip]
    rooted.make_summary_returns [OF assms, of sh c h d i]
    rooted.vdf_info_returns [OF assms(1), of "Some b" sh c slots ov n k] assms(2)
  by (simp add: returns_def)

lemma chain_walks_terminate_sample:
  "cache_rooted sample_cache" "on_chain (block_cache_view sample_cache) (sample_block [2] [1] 1)"
  using sample_cache_ok sample_cache_on_chain(1)
  by (simp_all add: cache_rooted_def sample_cache_def sample_block_def sample_record_def bc_contains_block_def)

theorem chain_walks_terminate_witness:
  "cache_rooted sample_cache \<and>
   (\<exists>r. make_sub_epoch_summary (\<lambda>b. b) DEFAULT_CONSTANTS (block_cache_view sample_cache) 3
     (sample_block [2] [1] 1) None None = Some r)"
  using chain_walks_terminate [OF chain_walks_terminate_sample] chain_walks_terminate_sample(1) by blast

section \<open>The record of a block\<close>

lemma block_to_block_record_cases:
  assumes "block_to_block_record sh c v ri (Some blk) hb = cret r"
  obtains prev_b ssi ov d ses pt where
    "r = header_block_to_sub_block_record sh c ri blk ssi ov d pt ses"
    "try_block_record v (ab_prev_header_hash (src_block blk)) = Inr prev_b"
    "0 < rcb_height (src_reward_chain_block blk) \<longrightarrow> prev_b \<noteq> None"
    "is_overflow_block c (rcb_signage_point_index (src_reward_chain_block blk)) = Inr ov"
    "calculate_deficit c (rcb_height (src_reward_chain_block blk)) prev_b ov
       (int (length (ab_finished_sub_slots (src_block blk)))) = Inr d"
  using assms unfolding block_to_block_record_def Let_def
  by (auto simp: cbind_eq_Inr split: if_splits prod.splits)

lemma deficit_range:
  assumes "1 \<le> MIN_BLOCKS_PER_CHALLENGE_BLOCK c" and "MIN_BLOCKS_PER_CHALLENGE_BLOCK c \<le> 255"
    and "calculate_deficit c h prev_b ov n = Inr d" and "\<And>p. prev_b = Some p \<Longrightarrow> deficit_ok c (br_deficit p)"
  shows "deficit_ok c d"
  using assms by (cases prev_b) (auto simp: calculate_deficit_def deficit_ok_def Let_def uint_values split: if_splits)

lemma header_record_fields:
  fixes sh c ri blk ssi ov d pt ses
  defines "r \<equiv> header_block_to_sub_block_record sh c ri blk ssi ov d pt ses"
  shows "br_header_hash r = src_header_hash sh blk" "br_prev_hash r = ab_prev_header_hash (src_block blk)"
    "br_height r = rcb_height (src_reward_chain_block blk)" "br_deficit r = d" "br_overflow r = ov"
    "br_signage_point_index r = rcb_signage_point_index (src_reward_chain_block blk)"
    "br_first_in_sub_slot r \<longleftrightarrow> ab_finished_sub_slots (src_block blk) \<noteq> [] \<or> br_height r = 0"
    "br_is_transaction_block r \<longleftrightarrow> src_foliage_transaction_block blk \<noteq> None"
  by (simp_all add: r_def header_block_to_sub_block_record_def Let_def br_first_in_sub_slot_def br_is_transaction_block_def)

text \<open>
  C13. The record made from a block is well typed and joins the chain: its deficit is in range, its
  overflow flag is that of its signage point, it is first in its sub-slot exactly when the block
  finishes slots or is genesis, and adding it to the cache that holds its parent keeps the cache
  well formed.
\<close>

theorem block_record_typed:
  assumes "block_to_block_record sh c (block_cache_view s) ri (Some blk) hb = cret r"
    and "1 \<le> MIN_BLOCKS_PER_CHALLENGE_BLOCK c" and "MIN_BLOCKS_PER_CHALLENGE_BLOCK c \<le> 255"
    and "\<And>p. bc_block_record s (br_prev_hash r) = Inr p \<Longrightarrow>
      deficit_ok c (br_deficit p) \<and> (br_height r \<noteq> 0 \<longrightarrow> br_height r = br_height p + 1)"
    and "cache_ok s" and "\<not> bc_contains_block s (br_header_hash r)" and "0 \<le> br_height r"
  shows "br_header_hash r = src_header_hash sh blk \<and> deficit_ok c (br_deficit r) \<and>
    is_overflow_block c (br_signage_point_index r) = Inr (br_overflow r) \<and>
    (br_first_in_sub_slot r \<longleftrightarrow> ab_finished_sub_slots (src_block blk) \<noteq> [] \<or> br_height r = 0) \<and>
    (br_is_transaction_block r \<longleftrightarrow> src_foliage_transaction_block blk \<noteq> None) \<and>
    cache_ok (bc_add_block_record s r)"
proof -
  from assms(1) obtain prev_b ssi ov d ses pt where r: "r = header_block_to_sub_block_record sh c ri blk ssi ov d pt ses"
    and prev: "try_block_record (block_cache_view s) (ab_prev_header_hash (src_block blk)) = Inr prev_b"
    and some: "0 < rcb_height (src_reward_chain_block blk) \<longrightarrow> prev_b \<noteq> None"
    and ov: "is_overflow_block c (rcb_signage_point_index (src_reward_chain_block blk)) = Inr ov"
    and d: "calculate_deficit c (rcb_height (src_reward_chain_block blk)) prev_b ov
       (int (length (ab_finished_sub_slots (src_block blk)))) = Inr d"
    by (rule block_to_block_record_cases)
  note fields = header_record_fields [of sh c ri blk ssi ov d pt ses, folded r]
  have parent: "bc_block_record s (br_prev_hash r) = Inr p" if "prev_b = Some p" for p
    using prev that by (auto simp: try_block_record_def block_cache_view_def fields rbind_eq_Inr split: if_splits)
  have "deficit_ok c d" using assms(2,3) d by (rule deficit_range) (use assms(4) parent in blast)
  moreover have "br_height r = 0 \<or>
      (\<exists>p. bc_block_record s (br_prev_hash r) = Inr p \<and> 0 \<le> br_height p \<and> br_height r = br_height p + 1)"
  proof (cases "br_height r = 0")
    case False
    then obtain p where p: "bc_block_record s (br_prev_hash r) = Inr p" using some parent assms(7) fields(3) by force
    moreover have "0 \<le> br_height p"
      using cache.height_nonneg [OF assms(5), of "br_prev_hash r" p] p by (simp add: block_cache_view_def)
    ultimately show ?thesis using assms(4) False by blast
  qed simp
  then have "cache_ok (bc_add_block_record s r)" using add_record_ok [OF assms(5,6)] by blast
  ultimately show ?thesis using fields ov by simp
qed

section \<open>An example block\<close>

definition sample_vdf :: VDFInfo where
  "sample_vdf = \<lparr>vi_challenge = [], vi_number_of_iterations = 1, vi_output = \<lparr>cg_data = []\<rparr>\<rparr>"

definition sample_vdf_proof :: VDFProof where
  "sample_vdf_proof = \<lparr>vp_witness_type = 0, vp_witness = [], vp_normalized_to_identity = False\<rparr>"

definition sample_reward_block :: RewardChainBlock where
  "sample_reward_block = \<lparr>rcb_weight = 7, rcb_height = 0, rcb_total_iters = 5, rcb_signage_point_index = 2,
     rcb_pos_ss_cc_challenge_hash = [], rcb_proof_of_space = sample_proof, rcb_challenge_chain_sp_vdf = None,
     rcb_challenge_chain_sp_signature = [], rcb_challenge_chain_ip_vdf = sample_vdf, rcb_reward_chain_sp_vdf = None,
     rcb_reward_chain_sp_signature = [], rcb_reward_chain_ip_vdf = sample_vdf,
     rcb_infused_challenge_chain_ip_vdf = None, rcb_is_transaction_block = False\<rparr>"

definition sample_foliage :: Foliage where
  "sample_foliage = \<lparr>fol_prev_block_hash = [0], fol_reward_block_hash = [],
     fol_foliage_block_data = \<lparr>fbd_unfinished_reward_block_hash = [],
       fbd_pool_target = \<lparr>pt_puzzle_hash = [], pt_max_height = 0\<rparr>, fbd_pool_signature = None,
       fbd_farmer_reward_puzzle_hash = [], fbd_extension_data = []\<rparr>,
     fol_foliage_block_data_signature = [], fol_foliage_transaction_block_hash = None,
     fol_foliage_transaction_block_signature = None\<rparr>"

definition sample_header :: HeaderBlock where
  "sample_header = \<lparr>hb_finished_sub_slots = [], hb_reward_chain_block = sample_reward_block,
     hb_challenge_chain_sp_proof = None, hb_challenge_chain_ip_proof = sample_vdf_proof,
     hb_reward_chain_sp_proof = None, hb_reward_chain_ip_proof = sample_vdf_proof,
     hb_infused_challenge_chain_ip_proof = None, hb_foliage = sample_foliage,
     hb_foliage_transaction_block = None, hb_transactions_filter = [], hb_transactions_info = None\<rparr>"

definition empty_cache :: BlockCache where
  "empty_cache = \<lparr>bc_block_records = [], bc_headers = [], bc_height_to_hash = [], bc_sub_epoch_summaries = []\<rparr>"

definition sample_header_record :: BlockRecord where
  "sample_header_record = header_block_to_sub_block_record (\<lambda>_. [9]) DEFAULT_CONSTANTS 1 (HeaderB sample_header)
     (SUB_SLOT_ITERS_STARTING DEFAULT_CONSTANTS) False (MIN_BLOCKS_PER_CHALLENGE_BLOCK DEFAULT_CONSTANTS - 1) 0 None"

lemma sample_header_to_record:
  "block_to_block_record (\<lambda>_. [9]) DEFAULT_CONSTANTS (block_cache_view empty_cache) 1
     (Some (HeaderB sample_header)) None = cret sample_header_record"
  by (simp add: block_to_block_record_def Let_def try_block_record_def block_cache_view_def bc_contains_block_def
      empty_cache_def get_next_sub_slot_iters_and_difficulty_def is_overflow_block_def calculate_deficit_def
      sample_header_def sample_reward_block_def uint_values found_ses_hash_def prev_tx_cond_def sample_header_record_def
      DEFAULT_CONSTANTS_def)

theorem block_record_typed_witness:
  "block_to_block_record (\<lambda>_. [9]) DEFAULT_CONSTANTS (block_cache_view empty_cache) 1
     (Some (HeaderB sample_header)) None = cret sample_header_record \<and>
   deficit_ok DEFAULT_CONSTANTS (br_deficit sample_header_record) \<and>
   cache_ok (bc_add_block_record empty_cache sample_header_record)"
proof -
  have h: "br_height sample_header_record = 0"
    by (simp add: sample_header_record_def header_record_fields sample_header_def sample_reward_block_def)
  show ?thesis
    using block_record_typed [OF sample_header_to_record] sample_header_to_record h
    by (simp add: empty_cache_def bc_block_record_def bc_contains_block_def cache_ok_def DEFAULT_CONSTANTS_def)
qed

end
