(* ===== verification/Gold_Errors.thy ===== *)
theory Gold_Errors
  imports Main
begin

text \<open>
  The error codes (\<^verbatim>\<open>src/chia/util/errors.py\<close>). A member of the enumeration is its value, and every member
  counts as true where the code tests an optional error. A \<^verbatim>\<open>ValidationError\<close> that is returned is its code;
  the text that goes with it is left out.
\<close>

datatype Err = Err int

definition Err_DOES_NOT_EXTEND :: Err where "Err_DOES_NOT_EXTEND = Err (-1)"
definition Err_BAD_HEADER_SIGNATURE :: Err where "Err_BAD_HEADER_SIGNATURE = Err (-2)"
definition Err_MISSING_FROM_STORAGE :: Err where "Err_MISSING_FROM_STORAGE = Err (-3)"
definition Err_INVALID_PROTOCOL_MESSAGE :: Err where "Err_INVALID_PROTOCOL_MESSAGE = Err (-4)"
definition Err_SELF_CONNECTION :: Err where "Err_SELF_CONNECTION = Err (-5)"
definition Err_INVALID_HANDSHAKE :: Err where "Err_INVALID_HANDSHAKE = Err (-6)"
definition Err_INVALID_ACK :: Err where "Err_INVALID_ACK = Err (-7)"
definition Err_INCOMPATIBLE_PROTOCOL_VERSION :: Err where "Err_INCOMPATIBLE_PROTOCOL_VERSION = Err (-8)"
definition Err_DUPLICATE_CONNECTION :: Err where "Err_DUPLICATE_CONNECTION = Err (-9)"
definition Err_BLOCK_NOT_IN_BLOCKCHAIN :: Err where "Err_BLOCK_NOT_IN_BLOCKCHAIN = Err (-10)"
definition Err_NO_PROOF_OF_SPACE_FOUND :: Err where "Err_NO_PROOF_OF_SPACE_FOUND = Err (-11)"
definition Err_PEERS_DONT_HAVE_BLOCK :: Err where "Err_PEERS_DONT_HAVE_BLOCK = Err (-12)"
definition Err_MAX_INBOUND_CONNECTIONS_REACHED :: Err where "Err_MAX_INBOUND_CONNECTIONS_REACHED = Err (-13)"
definition Err_UNKNOWN :: Err where "Err_UNKNOWN = Err 1"
definition Err_INVALID_BLOCK_SOLUTION :: Err where "Err_INVALID_BLOCK_SOLUTION = Err 2"
definition Err_INVALID_COIN_SOLUTION :: Err where "Err_INVALID_COIN_SOLUTION = Err 3"
definition Err_DUPLICATE_OUTPUT :: Err where "Err_DUPLICATE_OUTPUT = Err 4"
definition Err_DOUBLE_SPEND :: Err where "Err_DOUBLE_SPEND = Err 5"
definition Err_UNKNOWN_UNSPENT :: Err where "Err_UNKNOWN_UNSPENT = Err 6"
definition Err_BAD_AGGREGATE_SIGNATURE :: Err where "Err_BAD_AGGREGATE_SIGNATURE = Err 7"
definition Err_WRONG_PUZZLE_HASH :: Err where "Err_WRONG_PUZZLE_HASH = Err 8"
definition Err_BAD_FARMER_COIN_AMOUNT :: Err where "Err_BAD_FARMER_COIN_AMOUNT = Err 9"
definition Err_INVALID_CONDITION :: Err where "Err_INVALID_CONDITION = Err 10"
definition Err_ASSERT_MY_COIN_ID_FAILED :: Err where "Err_ASSERT_MY_COIN_ID_FAILED = Err 11"
definition Err_ASSERT_ANNOUNCE_CONSUMED_FAILED :: Err where "Err_ASSERT_ANNOUNCE_CONSUMED_FAILED = Err 12"
definition Err_ASSERT_HEIGHT_RELATIVE_FAILED :: Err where "Err_ASSERT_HEIGHT_RELATIVE_FAILED = Err 13"
definition Err_ASSERT_HEIGHT_ABSOLUTE_FAILED :: Err where "Err_ASSERT_HEIGHT_ABSOLUTE_FAILED = Err 14"
definition Err_ASSERT_SECONDS_ABSOLUTE_FAILED :: Err where "Err_ASSERT_SECONDS_ABSOLUTE_FAILED = Err 15"
definition Err_COIN_AMOUNT_EXCEEDS_MAXIMUM :: Err where "Err_COIN_AMOUNT_EXCEEDS_MAXIMUM = Err 16"
definition Err_SEXP_ERROR :: Err where "Err_SEXP_ERROR = Err 17"
definition Err_INVALID_FEE_LOW_FEE :: Err where "Err_INVALID_FEE_LOW_FEE = Err 18"
definition Err_MEMPOOL_CONFLICT :: Err where "Err_MEMPOOL_CONFLICT = Err 19"
definition Err_MINTING_COIN :: Err where "Err_MINTING_COIN = Err 20"
definition Err_EXTENDS_UNKNOWN_BLOCK :: Err where "Err_EXTENDS_UNKNOWN_BLOCK = Err 21"
definition Err_COINBASE_NOT_YET_SPENDABLE :: Err where "Err_COINBASE_NOT_YET_SPENDABLE = Err 22"
definition Err_BLOCK_COST_EXCEEDS_MAX :: Err where "Err_BLOCK_COST_EXCEEDS_MAX = Err 23"
definition Err_BAD_ADDITION_ROOT :: Err where "Err_BAD_ADDITION_ROOT = Err 24"
definition Err_BAD_REMOVAL_ROOT :: Err where "Err_BAD_REMOVAL_ROOT = Err 25"
definition Err_INVALID_POSPACE_HASH :: Err where "Err_INVALID_POSPACE_HASH = Err 26"
definition Err_INVALID_COINBASE_SIGNATURE :: Err where "Err_INVALID_COINBASE_SIGNATURE = Err 27"
definition Err_INVALID_PLOT_SIGNATURE :: Err where "Err_INVALID_PLOT_SIGNATURE = Err 28"
definition Err_TIMESTAMP_TOO_FAR_IN_PAST :: Err where "Err_TIMESTAMP_TOO_FAR_IN_PAST = Err 29"
definition Err_TIMESTAMP_TOO_FAR_IN_FUTURE :: Err where "Err_TIMESTAMP_TOO_FAR_IN_FUTURE = Err 30"
definition Err_INVALID_TRANSACTIONS_FILTER_HASH :: Err where "Err_INVALID_TRANSACTIONS_FILTER_HASH = Err 31"
definition Err_INVALID_POSPACE_CHALLENGE :: Err where "Err_INVALID_POSPACE_CHALLENGE = Err 32"
definition Err_INVALID_POSPACE :: Err where "Err_INVALID_POSPACE = Err 33"
definition Err_INVALID_HEIGHT :: Err where "Err_INVALID_HEIGHT = Err 34"
definition Err_INVALID_COINBASE_AMOUNT :: Err where "Err_INVALID_COINBASE_AMOUNT = Err 35"
definition Err_INVALID_MERKLE_ROOT :: Err where "Err_INVALID_MERKLE_ROOT = Err 36"
definition Err_INVALID_BLOCK_FEE_AMOUNT :: Err where "Err_INVALID_BLOCK_FEE_AMOUNT = Err 37"
definition Err_INVALID_WEIGHT :: Err where "Err_INVALID_WEIGHT = Err 38"
definition Err_INVALID_TOTAL_ITERS :: Err where "Err_INVALID_TOTAL_ITERS = Err 39"
definition Err_BLOCK_IS_NOT_FINISHED :: Err where "Err_BLOCK_IS_NOT_FINISHED = Err 40"
definition Err_INVALID_NUM_ITERATIONS :: Err where "Err_INVALID_NUM_ITERATIONS = Err 41"
definition Err_INVALID_POT :: Err where "Err_INVALID_POT = Err 42"
definition Err_INVALID_POT_CHALLENGE :: Err where "Err_INVALID_POT_CHALLENGE = Err 43"
definition Err_INVALID_TRANSACTIONS_GENERATOR_HASH :: Err where "Err_INVALID_TRANSACTIONS_GENERATOR_HASH = Err 44"
definition Err_INVALID_POOL_TARGET :: Err where "Err_INVALID_POOL_TARGET = Err 45"
definition Err_INVALID_COINBASE_PARENT :: Err where "Err_INVALID_COINBASE_PARENT = Err 46"
definition Err_INVALID_FEES_COIN_PARENT :: Err where "Err_INVALID_FEES_COIN_PARENT = Err 47"
definition Err_RESERVE_FEE_CONDITION_FAILED :: Err where "Err_RESERVE_FEE_CONDITION_FAILED = Err 48"
definition Err_NOT_BLOCK_BUT_HAS_DATA :: Err where "Err_NOT_BLOCK_BUT_HAS_DATA = Err 49"
definition Err_IS_TRANSACTION_BLOCK_BUT_NO_DATA :: Err where "Err_IS_TRANSACTION_BLOCK_BUT_NO_DATA = Err 50"
definition Err_INVALID_PREV_BLOCK_HASH :: Err where "Err_INVALID_PREV_BLOCK_HASH = Err 51"
definition Err_INVALID_TRANSACTIONS_INFO_HASH :: Err where "Err_INVALID_TRANSACTIONS_INFO_HASH = Err 52"
definition Err_INVALID_FOLIAGE_BLOCK_HASH :: Err where "Err_INVALID_FOLIAGE_BLOCK_HASH = Err 53"
definition Err_INVALID_REWARD_COINS :: Err where "Err_INVALID_REWARD_COINS = Err 54"
definition Err_INVALID_BLOCK_COST :: Err where "Err_INVALID_BLOCK_COST = Err 55"
definition Err_NO_END_OF_SLOT_INFO :: Err where "Err_NO_END_OF_SLOT_INFO = Err 56"
definition Err_INVALID_PREV_CHALLENGE_SLOT_HASH :: Err where "Err_INVALID_PREV_CHALLENGE_SLOT_HASH = Err 57"
definition Err_INVALID_SUB_EPOCH_SUMMARY_HASH :: Err where "Err_INVALID_SUB_EPOCH_SUMMARY_HASH = Err 58"
definition Err_NO_SUB_EPOCH_SUMMARY_HASH :: Err where "Err_NO_SUB_EPOCH_SUMMARY_HASH = Err 59"
definition Err_SHOULD_NOT_MAKE_CHALLENGE_BLOCK :: Err where "Err_SHOULD_NOT_MAKE_CHALLENGE_BLOCK = Err 60"
definition Err_SHOULD_MAKE_CHALLENGE_BLOCK :: Err where "Err_SHOULD_MAKE_CHALLENGE_BLOCK = Err 61"
definition Err_INVALID_CHALLENGE_CHAIN_DATA :: Err where "Err_INVALID_CHALLENGE_CHAIN_DATA = Err 62"
definition Err_INVALID_CC_EOS_VDF :: Err where "Err_INVALID_CC_EOS_VDF = Err 65"
definition Err_INVALID_RC_EOS_VDF :: Err where "Err_INVALID_RC_EOS_VDF = Err 66"
definition Err_INVALID_CHALLENGE_SLOT_HASH_RC :: Err where "Err_INVALID_CHALLENGE_SLOT_HASH_RC = Err 67"
definition Err_INVALID_PRIOR_POINT_RC :: Err where "Err_INVALID_PRIOR_POINT_RC = Err 68"
definition Err_INVALID_DEFICIT :: Err where "Err_INVALID_DEFICIT = Err 69"
definition Err_INVALID_SUB_EPOCH_SUMMARY :: Err where "Err_INVALID_SUB_EPOCH_SUMMARY = Err 70"
definition Err_INVALID_PREV_SUB_EPOCH_SUMMARY_HASH :: Err where "Err_INVALID_PREV_SUB_EPOCH_SUMMARY_HASH = Err 71"
definition Err_INVALID_REWARD_CHAIN_HASH :: Err where "Err_INVALID_REWARD_CHAIN_HASH = Err 72"
definition Err_INVALID_SUB_EPOCH_OVERFLOW :: Err where "Err_INVALID_SUB_EPOCH_OVERFLOW = Err 73"
definition Err_INVALID_NEW_DIFFICULTY :: Err where "Err_INVALID_NEW_DIFFICULTY = Err 74"
definition Err_INVALID_NEW_SUB_SLOT_ITERS :: Err where "Err_INVALID_NEW_SUB_SLOT_ITERS = Err 75"
definition Err_INVALID_CC_SP_VDF :: Err where "Err_INVALID_CC_SP_VDF = Err 76"
definition Err_INVALID_RC_SP_VDF :: Err where "Err_INVALID_RC_SP_VDF = Err 77"
definition Err_INVALID_CC_SIGNATURE :: Err where "Err_INVALID_CC_SIGNATURE = Err 78"
definition Err_INVALID_RC_SIGNATURE :: Err where "Err_INVALID_RC_SIGNATURE = Err 79"
definition Err_CANNOT_MAKE_CC_BLOCK :: Err where "Err_CANNOT_MAKE_CC_BLOCK = Err 80"
definition Err_INVALID_RC_SP_PREV_IP :: Err where "Err_INVALID_RC_SP_PREV_IP = Err 81"
definition Err_INVALID_RC_IP_PREV_IP :: Err where "Err_INVALID_RC_IP_PREV_IP = Err 82"
definition Err_INVALID_IS_TRANSACTION_BLOCK :: Err where "Err_INVALID_IS_TRANSACTION_BLOCK = Err 83"
definition Err_INVALID_URSB_HASH :: Err where "Err_INVALID_URSB_HASH = Err 84"
definition Err_OLD_POOL_TARGET :: Err where "Err_OLD_POOL_TARGET = Err 85"
definition Err_INVALID_POOL_SIGNATURE :: Err where "Err_INVALID_POOL_SIGNATURE = Err 86"
definition Err_INVALID_FOLIAGE_BLOCK_PRESENCE :: Err where "Err_INVALID_FOLIAGE_BLOCK_PRESENCE = Err 87"
definition Err_INVALID_CC_IP_VDF :: Err where "Err_INVALID_CC_IP_VDF = Err 88"
definition Err_INVALID_RC_IP_VDF :: Err where "Err_INVALID_RC_IP_VDF = Err 89"
definition Err_IP_SHOULD_BE_NONE :: Err where "Err_IP_SHOULD_BE_NONE = Err 90"
definition Err_INVALID_REWARD_BLOCK_HASH :: Err where "Err_INVALID_REWARD_BLOCK_HASH = Err 91"
definition Err_INVALID_MADE_NON_OVERFLOW_INFUSIONS :: Err where "Err_INVALID_MADE_NON_OVERFLOW_INFUSIONS = Err 92"
definition Err_NO_OVERFLOWS_IN_FIRST_SUB_SLOT_NEW_EPOCH :: Err where "Err_NO_OVERFLOWS_IN_FIRST_SUB_SLOT_NEW_EPOCH = Err 93"
definition Err_MEMPOOL_NOT_INITIALIZED :: Err where "Err_MEMPOOL_NOT_INITIALIZED = Err 94"
definition Err_SHOULD_NOT_HAVE_ICC :: Err where "Err_SHOULD_NOT_HAVE_ICC = Err 95"
definition Err_SHOULD_HAVE_ICC :: Err where "Err_SHOULD_HAVE_ICC = Err 96"
definition Err_INVALID_ICC_VDF :: Err where "Err_INVALID_ICC_VDF = Err 97"
definition Err_INVALID_ICC_HASH_CC :: Err where "Err_INVALID_ICC_HASH_CC = Err 98"
definition Err_INVALID_ICC_HASH_RC :: Err where "Err_INVALID_ICC_HASH_RC = Err 99"
definition Err_INVALID_ICC_EOS_VDF :: Err where "Err_INVALID_ICC_EOS_VDF = Err 100"
definition Err_INVALID_SP_INDEX :: Err where "Err_INVALID_SP_INDEX = Err 101"
definition Err_TOO_MANY_BLOCKS :: Err where "Err_TOO_MANY_BLOCKS = Err 102"
definition Err_INVALID_CC_CHALLENGE :: Err where "Err_INVALID_CC_CHALLENGE = Err 103"
definition Err_INVALID_PREFARM :: Err where "Err_INVALID_PREFARM = Err 104"
definition Err_ASSERT_SECONDS_RELATIVE_FAILED :: Err where "Err_ASSERT_SECONDS_RELATIVE_FAILED = Err 105"
definition Err_BAD_COINBASE_SIGNATURE :: Err where "Err_BAD_COINBASE_SIGNATURE = Err 106"
definition Err_NO_TRANSACTIONS_WHILE_SYNCING :: Err where "Err_NO_TRANSACTIONS_WHILE_SYNCING = Err 108"
definition Err_ALREADY_INCLUDING_TRANSACTION :: Err where "Err_ALREADY_INCLUDING_TRANSACTION = Err 109"
definition Err_INCOMPATIBLE_NETWORK_ID :: Err where "Err_INCOMPATIBLE_NETWORK_ID = Err 110"
definition Err_PRE_SOFT_FORK_MAX_GENERATOR_SIZE :: Err where "Err_PRE_SOFT_FORK_MAX_GENERATOR_SIZE = Err 111"
definition Err_INVALID_REQUIRED_ITERS :: Err where "Err_INVALID_REQUIRED_ITERS = Err 112"
definition Err_TOO_MANY_GENERATOR_REFS :: Err where "Err_TOO_MANY_GENERATOR_REFS = Err 113"
definition Err_ASSERT_MY_PARENT_ID_FAILED :: Err where "Err_ASSERT_MY_PARENT_ID_FAILED = Err 114"
definition Err_ASSERT_MY_PUZZLEHASH_FAILED :: Err where "Err_ASSERT_MY_PUZZLEHASH_FAILED = Err 115"
definition Err_ASSERT_MY_AMOUNT_FAILED :: Err where "Err_ASSERT_MY_AMOUNT_FAILED = Err 116"
definition Err_GENERATOR_RUNTIME_ERROR :: Err where "Err_GENERATOR_RUNTIME_ERROR = Err 117"
definition Err_INVALID_COST_RESULT :: Err where "Err_INVALID_COST_RESULT = Err 118"
definition Err_INVALID_TRANSACTIONS_GENERATOR_REFS_ROOT :: Err where "Err_INVALID_TRANSACTIONS_GENERATOR_REFS_ROOT = Err 119"
definition Err_FUTURE_GENERATOR_REFS :: Err where "Err_FUTURE_GENERATOR_REFS = Err 120"
definition Err_GENERATOR_REF_HAS_NO_GENERATOR :: Err where "Err_GENERATOR_REF_HAS_NO_GENERATOR = Err 121"
definition Err_DOUBLE_SPEND_IN_FORK :: Err where "Err_DOUBLE_SPEND_IN_FORK = Err 122"
definition Err_INVALID_FEE_TOO_CLOSE_TO_ZERO :: Err where "Err_INVALID_FEE_TOO_CLOSE_TO_ZERO = Err 123"
definition Err_COIN_AMOUNT_NEGATIVE :: Err where "Err_COIN_AMOUNT_NEGATIVE = Err 124"
definition Err_INTERNAL_PROTOCOL_ERROR :: Err where "Err_INTERNAL_PROTOCOL_ERROR = Err 125"
definition Err_INVALID_SPEND_BUNDLE :: Err where "Err_INVALID_SPEND_BUNDLE = Err 126"

lemmas err_defs =
  Err_DOES_NOT_EXTEND_def Err_BAD_HEADER_SIGNATURE_def Err_MISSING_FROM_STORAGE_def
  Err_INVALID_PROTOCOL_MESSAGE_def Err_SELF_CONNECTION_def Err_INVALID_HANDSHAKE_def Err_INVALID_ACK_def
  Err_INCOMPATIBLE_PROTOCOL_VERSION_def Err_DUPLICATE_CONNECTION_def Err_BLOCK_NOT_IN_BLOCKCHAIN_def
  Err_NO_PROOF_OF_SPACE_FOUND_def Err_PEERS_DONT_HAVE_BLOCK_def Err_MAX_INBOUND_CONNECTIONS_REACHED_def
  Err_UNKNOWN_def Err_INVALID_BLOCK_SOLUTION_def Err_INVALID_COIN_SOLUTION_def Err_DUPLICATE_OUTPUT_def
  Err_DOUBLE_SPEND_def Err_UNKNOWN_UNSPENT_def Err_BAD_AGGREGATE_SIGNATURE_def Err_WRONG_PUZZLE_HASH_def
  Err_BAD_FARMER_COIN_AMOUNT_def Err_INVALID_CONDITION_def Err_ASSERT_MY_COIN_ID_FAILED_def
  Err_ASSERT_ANNOUNCE_CONSUMED_FAILED_def Err_ASSERT_HEIGHT_RELATIVE_FAILED_def
  Err_ASSERT_HEIGHT_ABSOLUTE_FAILED_def Err_ASSERT_SECONDS_ABSOLUTE_FAILED_def Err_COIN_AMOUNT_EXCEEDS_MAXIMUM_def
  Err_SEXP_ERROR_def Err_INVALID_FEE_LOW_FEE_def Err_MEMPOOL_CONFLICT_def Err_MINTING_COIN_def
  Err_EXTENDS_UNKNOWN_BLOCK_def Err_COINBASE_NOT_YET_SPENDABLE_def Err_BLOCK_COST_EXCEEDS_MAX_def
  Err_BAD_ADDITION_ROOT_def Err_BAD_REMOVAL_ROOT_def Err_INVALID_POSPACE_HASH_def
  Err_INVALID_COINBASE_SIGNATURE_def Err_INVALID_PLOT_SIGNATURE_def Err_TIMESTAMP_TOO_FAR_IN_PAST_def
  Err_TIMESTAMP_TOO_FAR_IN_FUTURE_def Err_INVALID_TRANSACTIONS_FILTER_HASH_def Err_INVALID_POSPACE_CHALLENGE_def
  Err_INVALID_POSPACE_def Err_INVALID_HEIGHT_def Err_INVALID_COINBASE_AMOUNT_def Err_INVALID_MERKLE_ROOT_def
  Err_INVALID_BLOCK_FEE_AMOUNT_def Err_INVALID_WEIGHT_def Err_INVALID_TOTAL_ITERS_def Err_BLOCK_IS_NOT_FINISHED_def
  Err_INVALID_NUM_ITERATIONS_def Err_INVALID_POT_def Err_INVALID_POT_CHALLENGE_def
  Err_INVALID_TRANSACTIONS_GENERATOR_HASH_def Err_INVALID_POOL_TARGET_def Err_INVALID_COINBASE_PARENT_def
  Err_INVALID_FEES_COIN_PARENT_def Err_RESERVE_FEE_CONDITION_FAILED_def Err_NOT_BLOCK_BUT_HAS_DATA_def
  Err_IS_TRANSACTION_BLOCK_BUT_NO_DATA_def Err_INVALID_PREV_BLOCK_HASH_def Err_INVALID_TRANSACTIONS_INFO_HASH_def
  Err_INVALID_FOLIAGE_BLOCK_HASH_def Err_INVALID_REWARD_COINS_def Err_INVALID_BLOCK_COST_def
  Err_NO_END_OF_SLOT_INFO_def Err_INVALID_PREV_CHALLENGE_SLOT_HASH_def Err_INVALID_SUB_EPOCH_SUMMARY_HASH_def
  Err_NO_SUB_EPOCH_SUMMARY_HASH_def Err_SHOULD_NOT_MAKE_CHALLENGE_BLOCK_def Err_SHOULD_MAKE_CHALLENGE_BLOCK_def
  Err_INVALID_CHALLENGE_CHAIN_DATA_def Err_INVALID_CC_EOS_VDF_def Err_INVALID_RC_EOS_VDF_def
  Err_INVALID_CHALLENGE_SLOT_HASH_RC_def Err_INVALID_PRIOR_POINT_RC_def Err_INVALID_DEFICIT_def
  Err_INVALID_SUB_EPOCH_SUMMARY_def Err_INVALID_PREV_SUB_EPOCH_SUMMARY_HASH_def Err_INVALID_REWARD_CHAIN_HASH_def
  Err_INVALID_SUB_EPOCH_OVERFLOW_def Err_INVALID_NEW_DIFFICULTY_def Err_INVALID_NEW_SUB_SLOT_ITERS_def
  Err_INVALID_CC_SP_VDF_def Err_INVALID_RC_SP_VDF_def Err_INVALID_CC_SIGNATURE_def Err_INVALID_RC_SIGNATURE_def
  Err_CANNOT_MAKE_CC_BLOCK_def Err_INVALID_RC_SP_PREV_IP_def Err_INVALID_RC_IP_PREV_IP_def
  Err_INVALID_IS_TRANSACTION_BLOCK_def Err_INVALID_URSB_HASH_def Err_OLD_POOL_TARGET_def
  Err_INVALID_POOL_SIGNATURE_def Err_INVALID_FOLIAGE_BLOCK_PRESENCE_def Err_INVALID_CC_IP_VDF_def
  Err_INVALID_RC_IP_VDF_def Err_IP_SHOULD_BE_NONE_def Err_INVALID_REWARD_BLOCK_HASH_def
  Err_INVALID_MADE_NON_OVERFLOW_INFUSIONS_def Err_NO_OVERFLOWS_IN_FIRST_SUB_SLOT_NEW_EPOCH_def
  Err_MEMPOOL_NOT_INITIALIZED_def Err_SHOULD_NOT_HAVE_ICC_def Err_SHOULD_HAVE_ICC_def Err_INVALID_ICC_VDF_def
  Err_INVALID_ICC_HASH_CC_def Err_INVALID_ICC_HASH_RC_def Err_INVALID_ICC_EOS_VDF_def Err_INVALID_SP_INDEX_def
  Err_TOO_MANY_BLOCKS_def Err_INVALID_CC_CHALLENGE_def Err_INVALID_PREFARM_def
  Err_ASSERT_SECONDS_RELATIVE_FAILED_def Err_BAD_COINBASE_SIGNATURE_def Err_NO_TRANSACTIONS_WHILE_SYNCING_def
  Err_ALREADY_INCLUDING_TRANSACTION_def Err_INCOMPATIBLE_NETWORK_ID_def Err_PRE_SOFT_FORK_MAX_GENERATOR_SIZE_def
  Err_INVALID_REQUIRED_ITERS_def Err_TOO_MANY_GENERATOR_REFS_def Err_ASSERT_MY_PARENT_ID_FAILED_def
  Err_ASSERT_MY_PUZZLEHASH_FAILED_def Err_ASSERT_MY_AMOUNT_FAILED_def Err_GENERATOR_RUNTIME_ERROR_def
  Err_INVALID_COST_RESULT_def Err_INVALID_TRANSACTIONS_GENERATOR_REFS_ROOT_def Err_FUTURE_GENERATOR_REFS_def
  Err_GENERATOR_REF_HAS_NO_GENERATOR_def Err_DOUBLE_SPEND_IN_FORK_def Err_INVALID_FEE_TOO_CLOSE_TO_ZERO_def
  Err_COIN_AMOUNT_NEGATIVE_def Err_INTERNAL_PROTOCOL_ERROR_def Err_INVALID_SPEND_BUNDLE_def

end
