(* ===== verification/Gold_Conditions.thy ===== *)
theory Gold_Conditions
  imports Gold_Errors Gold_Coins Gold_Merkle_Set Gold_Float
begin

text \<open>
  Conditions of a spend: their types (\<^verbatim>\<open>src/chia/types/condition_opcodes.py\<close>,
  \<^verbatim>\<open>src/chia/types/condition_with_args.py\<close>, \<^verbatim>\<open>src/chia/types/name_puzzle_condition.py\<close>), what is read
  from them (\<^verbatim>\<open>src/chia/util/condition_tools.py\<close>, \<^verbatim>\<open>src/chia/util/generator_tools.py\<close>), their cost
  (\<^verbatim>\<open>src/chia/consensus/cost_calculator.py\<close>), the checks against the state of the chain
  (\<^verbatim>\<open>src/chia/full_node/mempool_check_conditions.py\<close>) and the roots of a block
  (\<^verbatim>\<open>src/chia/consensus/block_root_validation.py\<close>). The functions of the CLVM packages are arguments:
  \<open>int_to_bytes\<close> and \<open>int_from_bytes\<close> are the casts between integers and atoms.
\<close>

section \<open>Conditions\<close>

datatype ConditionOpcode =
    OP_AGG_SIG_UNSAFE
  | OP_AGG_SIG_ME
  | OP_CREATE_COIN
  | OP_RESERVE_FEE
  | OP_CREATE_COIN_ANNOUNCEMENT
  | OP_ASSERT_COIN_ANNOUNCEMENT
  | OP_CREATE_PUZZLE_ANNOUNCEMENT
  | OP_ASSERT_PUZZLE_ANNOUNCEMENT
  | OP_ASSERT_MY_COIN_ID
  | OP_ASSERT_MY_PARENT_ID
  | OP_ASSERT_MY_PUZZLEHASH
  | OP_ASSERT_MY_AMOUNT
  | OP_ASSERT_SECONDS_RELATIVE
  | OP_ASSERT_SECONDS_ABSOLUTE
  | OP_ASSERT_HEIGHT_RELATIVE
  | OP_ASSERT_HEIGHT_ABSOLUTE

fun opcode_value :: "ConditionOpcode \<Rightarrow> bytes" where
  "opcode_value OP_AGG_SIG_UNSAFE = [49]"
| "opcode_value OP_AGG_SIG_ME = [50]"
| "opcode_value OP_CREATE_COIN = [51]"
| "opcode_value OP_RESERVE_FEE = [52]"
| "opcode_value OP_CREATE_COIN_ANNOUNCEMENT = [60]"
| "opcode_value OP_ASSERT_COIN_ANNOUNCEMENT = [61]"
| "opcode_value OP_CREATE_PUZZLE_ANNOUNCEMENT = [62]"
| "opcode_value OP_ASSERT_PUZZLE_ANNOUNCEMENT = [63]"
| "opcode_value OP_ASSERT_MY_COIN_ID = [70]"
| "opcode_value OP_ASSERT_MY_PARENT_ID = [71]"
| "opcode_value OP_ASSERT_MY_PUZZLEHASH = [72]"
| "opcode_value OP_ASSERT_MY_AMOUNT = [73]"
| "opcode_value OP_ASSERT_SECONDS_RELATIVE = [80]"
| "opcode_value OP_ASSERT_SECONDS_ABSOLUTE = [81]"
| "opcode_value OP_ASSERT_HEIGHT_RELATIVE = [82]"
| "opcode_value OP_ASSERT_HEIGHT_ABSOLUTE = [83]"

record ConditionWithArgs =
  cwa_opcode :: ConditionOpcode
  cwa_vars :: "bytes list"

type_synonym conditions_dict = "(ConditionOpcode, ConditionWithArgs list) dict"

record NPC =
  npc_coin_name :: bytes32
  npc_puzzle_hash :: bytes32
  npc_conditions :: "(ConditionOpcode \<times> ConditionWithArgs list) list"

definition condition_dict :: "NPC \<Rightarrow> conditions_dict res" where
  "condition_dict npc =
     rfold (\<lambda>(opcode, l) d. rbind (py_assert (\<not> dmem opcode d)) (\<lambda>_. Inr (dput opcode l d))) (npc_conditions npc) []"

definition get_conditions :: "conditions_dict \<Rightarrow> ConditionOpcode \<Rightarrow> ConditionWithArgs list" where
  "get_conditions d opcode = (case dget d opcode of None \<Rightarrow> [] | Some l \<Rightarrow> l)"

record Announcement =
  ann_origin_info :: bytes32
  ann_message :: bytes

definition ann_name :: "(bytes \<Rightarrow> bytes) \<Rightarrow> Announcement \<Rightarrow> bytes32" where
  "ann_name std_hash a = std_hash (ann_origin_info a @ ann_message a)"

section \<open>Reading conditions\<close>

definition conditions_by_opcode :: "ConditionWithArgs list \<Rightarrow> conditions_dict" where
  "conditions_by_opcode conditions =
     fold (\<lambda>cvp d. dput (cwa_opcode cvp) (get_conditions d (cwa_opcode cvp) @ [cvp]) d) conditions []"

text \<open>The checks on the arguments of a signature condition, which give key and message.\<close>

definition agg_sig_args :: "ConditionWithArgs \<Rightarrow> (bytes \<times> bytes) res" where
  "agg_sig_args cwa =
     rbind (py_assert (length (cwa_vars cwa) = 2)) (\<lambda>_.
     rbind (py_nth (cwa_vars cwa) 0) (\<lambda>pk.
     rbind (py_nth (cwa_vars cwa) 1) (\<lambda>msg.
     rbind (py_assert (length pk = 48 \<and> length msg \<le> 1024)) (\<lambda>_.
     rbind (sized_bytes 48 pk) (\<lambda>pk.
     Inr (pk, msg))))))"

definition pkm_pairs_of :: "bytes32 \<Rightarrow> bytes \<Rightarrow> ConditionOpcode \<times> ConditionWithArgs list \<Rightarrow> (bytes \<times> bytes) list res" where
  "pkm_pairs_of input_name additional_data = (\<lambda>(opcode, l).
     if opcode = OP_AGG_SIG_UNSAFE then rmap agg_sig_args l
     else if opcode = OP_AGG_SIG_ME then
       rmap (\<lambda>cwa. rbind (agg_sig_args cwa) (\<lambda>(pk, msg). Inr (pk, msg @ input_name @ additional_data))) l
     else Inr [])"

definition pkm_pairs :: "NPC list \<Rightarrow> bytes \<Rightarrow> (bytes list \<times> bytes list) res" where
  "pkm_pairs npc_list additional_data =
     rbind (rmap (\<lambda>npc. rmap (pkm_pairs_of (npc_coin_name npc) additional_data) (npc_conditions npc)) npc_list) (\<lambda>ps.
     let pairs = concat (map concat ps) in Inr (map fst pairs, map snd pairs))"

definition pkm_pairs_for_conditions_dict :: "conditions_dict \<Rightarrow> bytes32 \<Rightarrow> bytes \<Rightarrow> (bytes \<times> bytes) list res" where
  "pkm_pairs_for_conditions_dict d input_name additional_data =
     rbind (pkm_pairs_of input_name additional_data (OP_AGG_SIG_UNSAFE, get_conditions d OP_AGG_SIG_UNSAFE)) (\<lambda>xs.
     rbind (pkm_pairs_of input_name additional_data (OP_AGG_SIG_ME, get_conditions d OP_AGG_SIG_ME)) (\<lambda>ys.
     Inr (xs @ ys)))"

text \<open>
  The constructor of a coin turns the puzzle hash into a sized byte string; when that fails it tries to
  parse it, and the parser asserts the size.
\<close>

definition created_coin :: "(bytes \<Rightarrow> int res) \<Rightarrow> bytes32 \<Rightarrow> ConditionWithArgs \<Rightarrow> Coin res" where
  "created_coin int_from_bytes input_coin_name cvp =
     rbind (py_nth (cwa_vars cvp) 0) (\<lambda>puzzle_hash.
     rbind (py_nth (cwa_vars cvp) 1) (\<lambda>amount_bin.
     rbind (int_from_bytes amount_bin) (\<lambda>amount.
     rbind (uint64 amount) (\<lambda>amount.
     rbind (py_assert (length puzzle_hash = 32)) (\<lambda>_.
     Inr \<lparr>coin_parent_coin_info = input_coin_name, coin_puzzle_hash = puzzle_hash, coin_amount = amount\<rparr>)))))"

definition created_outputs_for_conditions_dict :: "(bytes \<Rightarrow> int res) \<Rightarrow> conditions_dict \<Rightarrow> bytes32 \<Rightarrow> Coin list res" where
  "created_outputs_for_conditions_dict int_from_bytes d input_coin_name =
     rmap (created_coin int_from_bytes input_coin_name) (get_conditions d OP_CREATE_COIN)"

definition announcement_of :: "bytes32 \<Rightarrow> ConditionWithArgs \<Rightarrow> Announcement res" where
  "announcement_of origin cvp =
     rbind (py_nth (cwa_vars cvp) 0) (\<lambda>message.
     rbind (py_assert (length message \<le> 1024)) (\<lambda>_.
     Inr \<lparr>ann_origin_info = origin, ann_message = message\<rparr>))"

definition coin_announcements_for_conditions_dict ::
    "(bytes \<Rightarrow> bytes) \<Rightarrow> (int \<Rightarrow> bytes) \<Rightarrow> conditions_dict \<Rightarrow> Coin \<Rightarrow> Announcement set res" where
  "coin_announcements_for_conditions_dict std_hash int_to_bytes d input_coin =
     rbind (rmap (announcement_of (coin_name std_hash int_to_bytes input_coin))
       (get_conditions d OP_CREATE_COIN_ANNOUNCEMENT)) (\<lambda>l. Inr (set l))"

definition puzzle_announcements_for_conditions_dict :: "conditions_dict \<Rightarrow> Coin \<Rightarrow> Announcement set res" where
  "puzzle_announcements_for_conditions_dict d input_coin =
     rbind (rmap (announcement_of (coin_puzzle_hash input_coin)) (get_conditions d OP_CREATE_PUZZLE_ANNOUNCEMENT)) (\<lambda>l.
     Inr (set l))"

definition additions_for_npc :: "(bytes \<Rightarrow> int res) \<Rightarrow> NPC list \<Rightarrow> Coin list res" where
  "additions_for_npc int_from_bytes npc_list =
     rbind (rmap (\<lambda>npc. rbind (condition_dict npc) (\<lambda>d.
       created_outputs_for_conditions_dict int_from_bytes d (npc_coin_name npc))) npc_list) (\<lambda>cs. Inr (concat cs))"

definition tx_removals_and_additions ::
    "(bytes \<Rightarrow> int res) \<Rightarrow> NPC list option \<Rightarrow> (bytes32 list \<times> Coin list) res" where
  "tx_removals_and_additions int_from_bytes npc_list =
     (case npc_list of
        None \<Rightarrow> Inr ([], [])
      | Some l \<Rightarrow> rbind (additions_for_npc int_from_bytes l) (\<lambda>additions. Inr (map npc_coin_name l, additions)))"

section \<open>The cost of a program\<close>

record NPCResult =
  nr_error :: "int option"
  nr_npc_list :: "NPC list"
  nr_clvm_cost :: int

text \<open>Only signatures and new coins cost anything; the other costs of the enumeration are 0.\<close>

fun condition_cost :: "ConditionOpcode \<Rightarrow> int" where
  "condition_cost OP_AGG_SIG_UNSAFE = 1200000"
| "condition_cost OP_AGG_SIG_ME = 1200000"
| "condition_cost OP_CREATE_COIN = 1800000"
| "condition_cost _ = 0"

definition calculate_cost_of_program :: "bytes \<Rightarrow> NPCResult \<Rightarrow> int \<Rightarrow> int res" where
  "calculate_cost_of_program program npc_result cost_per_byte =
     rbind (rfold (\<lambda>npc total. rbind (condition_dict npc) (\<lambda>d.
         Inr (fold (\<lambda>(condition, cvp_list) total. total + int (length cvp_list) * condition_cost condition) d total)))
       (nr_npc_list npc_result) (nr_clvm_cost npc_result)) (\<lambda>total_cost.
     uint64 (total_cost + int (length program) * cost_per_byte))"

section \<open>Checks against the chain\<close>

text \<open>
  The number a condition asks for: \<open>None\<close> when reading it raises a \<^verbatim>\<open>ValueError\<close>, which the callers catch.
  Other exceptions pass.
\<close>

definition condition_number :: "(bytes \<Rightarrow> int res) \<Rightarrow> ConditionWithArgs \<Rightarrow> int option res" where
  "condition_number int_from_bytes condition =
     (case rbind (py_nth (cwa_vars condition) 0) int_from_bytes of
        Inl e \<Rightarrow> if e = ValueError then Inr None else Inl e
      | Inr v \<Rightarrow> Inr (Some v))"

definition exceeds :: "(bytes \<Rightarrow> int res) \<Rightarrow> ConditionWithArgs \<Rightarrow> int \<Rightarrow> int \<Rightarrow> Err \<Rightarrow> Err option res" where
  "exceeds int_from_bytes condition offset present err =
     rbind (condition_number int_from_bytes condition) (\<lambda>n. Inr (case n of
       None \<Rightarrow> Some Err_INVALID_CONDITION
     | Some v \<Rightarrow> if present < v + offset then Some err else None))"

definition mempool_assert_absolute_block_height_exceeds ::
    "(bytes \<Rightarrow> int res) \<Rightarrow> ConditionWithArgs \<Rightarrow> int \<Rightarrow> Err option res" where
  "mempool_assert_absolute_block_height_exceeds int_from_bytes condition prev_transaction_block_height =
     exceeds int_from_bytes condition 0 prev_transaction_block_height Err_ASSERT_HEIGHT_ABSOLUTE_FAILED"

definition mempool_assert_relative_block_height_exceeds ::
    "(bytes \<Rightarrow> int res) \<Rightarrow> ConditionWithArgs \<Rightarrow> CoinRecord \<Rightarrow> int \<Rightarrow> Err option res" where
  "mempool_assert_relative_block_height_exceeds int_from_bytes condition unspent prev_transaction_block_height =
     exceeds int_from_bytes condition (cr_confirmed_block_index unspent) prev_transaction_block_height
       Err_ASSERT_HEIGHT_RELATIVE_FAILED"

text \<open>The time is always given by the callers, so the branch that reads the clock is left out.\<close>

definition mempool_assert_absolute_time_exceeds ::
    "(bytes \<Rightarrow> int res) \<Rightarrow> ConditionWithArgs \<Rightarrow> int \<Rightarrow> Err option res" where
  "mempool_assert_absolute_time_exceeds int_from_bytes condition timestamp =
     exceeds int_from_bytes condition 0 timestamp Err_ASSERT_SECONDS_ABSOLUTE_FAILED"

definition mempool_assert_relative_time_exceeds ::
    "(bytes \<Rightarrow> int res) \<Rightarrow> ConditionWithArgs \<Rightarrow> CoinRecord \<Rightarrow> int \<Rightarrow> Err option res" where
  "mempool_assert_relative_time_exceeds int_from_bytes condition unspent timestamp =
     exceeds int_from_bytes condition (cr_timestamp unspent) timestamp Err_ASSERT_SECONDS_RELATIVE_FAILED"

definition check_condition ::
    "(bytes \<Rightarrow> int res) \<Rightarrow> CoinRecord \<Rightarrow> int \<Rightarrow> int \<Rightarrow> ConditionWithArgs \<Rightarrow> Err option res" where
  "check_condition int_from_bytes unspent height timestamp cvp =
     (case cwa_opcode cvp of
        OP_ASSERT_HEIGHT_ABSOLUTE \<Rightarrow> mempool_assert_absolute_block_height_exceeds int_from_bytes cvp height
      | OP_ASSERT_HEIGHT_RELATIVE \<Rightarrow> mempool_assert_relative_block_height_exceeds int_from_bytes cvp unspent height
      | OP_ASSERT_SECONDS_ABSOLUTE \<Rightarrow> mempool_assert_absolute_time_exceeds int_from_bytes cvp timestamp
      | OP_ASSERT_SECONDS_RELATIVE \<Rightarrow> mempool_assert_relative_time_exceeds int_from_bytes cvp unspent timestamp
      | OP_ASSERT_MY_COIN_ID \<Rightarrow> Inl AssertionError
      | OP_ASSERT_COIN_ANNOUNCEMENT \<Rightarrow> Inl AssertionError
      | OP_ASSERT_PUZZLE_ANNOUNCEMENT \<Rightarrow> Inl AssertionError
      | OP_ASSERT_MY_PARENT_ID \<Rightarrow> Inl AssertionError
      | OP_ASSERT_MY_PUZZLEHASH \<Rightarrow> Inl AssertionError
      | OP_ASSERT_MY_AMOUNT \<Rightarrow> Inl AssertionError
      | _ \<Rightarrow> Inr None)"

text \<open>The first error of a sequence of checks.\<close>

fun first_error :: "('a \<Rightarrow> Err option res) \<Rightarrow> 'a list \<Rightarrow> Err option res" where
  "first_error check [] = Inr None"
| "first_error check (x # xs) =
     rbind (check x) (\<lambda>error. case error of None \<Rightarrow> first_error check xs | Some e \<Rightarrow> Inr (Some e))"

definition mempool_check_conditions_dict ::
    "(bytes \<Rightarrow> int res) \<Rightarrow> CoinRecord \<Rightarrow> conditions_dict \<Rightarrow> int \<Rightarrow> int \<Rightarrow> Err option res" where
  "mempool_check_conditions_dict int_from_bytes unspent d prev_transaction_block_height timestamp =
     first_error (check_condition int_from_bytes unspent prev_transaction_block_height timestamp) (concat (dvalues d))"

section \<open>The roots of a block\<close>

definition group_by_puzzle :: "Coin list \<Rightarrow> (bytes32, Coin list) dict" where
  "group_by_puzzle coins =
     fold (\<lambda>coin d. case dget d (coin_puzzle_hash coin) of
       Some l \<Rightarrow> dput (coin_puzzle_hash coin) (l @ [coin]) d
     | None \<Rightarrow> dput (coin_puzzle_hash coin) [coin] d) coins []"

definition validate_block_merkle_roots :: "(bytes \<Rightarrow> bytes) \<Rightarrow> (int \<Rightarrow> bytes) \<Rightarrow> bytes32 \<Rightarrow> bytes32 \<Rightarrow>
    Coin list option \<Rightarrow> bytes32 list option \<Rightarrow> Err option res" where
  "validate_block_merkle_roots std_hash int_to_bytes block_additions_root block_removals_root tx_additions tx_removals =
     (let tx_removals = (case tx_removals of None \<Rightarrow> [] | Some l \<Rightarrow> l);
          tx_additions = (case tx_additions of None \<Rightarrow> [] | Some l \<Rightarrow> l) in
      rbind (rfold (add_already_hashed std_hash) tx_removals (MerkleSet None)) (\<lambda>removal_merkle_set.
      rbind (rfold (\<lambda>(puzzle, coins) s.
          rbind (add_already_hashed std_hash puzzle s)
            (add_already_hashed std_hash (fst (hash_coin_list std_hash int_to_bytes coins))))
        (group_by_puzzle tx_additions) (MerkleSet None)) (\<lambda>addition_merkle_set.
      rbind (get_root std_hash addition_merkle_set) (\<lambda>additions_root.
      rbind (get_root std_hash removal_merkle_set) (\<lambda>removals_root.
      Inr (if block_additions_root \<noteq> additions_root then Some Err_BAD_ADDITION_ROOT
           else if block_removals_root \<noteq> removals_root then Some Err_BAD_REMOVAL_ROOT
           else None))))))"

end
