(* ===== verification/Gold_Node_State.thy ===== *)
theory Gold_Node_State
  imports Gold_Coins Gold_Float
begin

text \<open>
  In-memory state of the full node: the record of what peers have (\<^verbatim>\<open>src/chia/full_node/sync_store.py\<close>),
  the transactions waiting to be retried (\<^verbatim>\<open>src/chia/full_node/pending_tx_cache.py\<close>) and the pool of
  transactions (\<^verbatim>\<open>src/chia/full_node/mempool.py\<close>).
\<close>

section \<open>The sync store\<close>

text \<open>
  The attribute \<^verbatim>\<open>peak_fork_point\<close>, set to an empty dictionary when the store is created and not
  used by any of its methods, is left out. \<open>peers_changed\<close> is whether the event is set.
\<close>

type_synonym peak = "bytes32 \<times> int \<times> int"

record SyncStore =
  sync_mode :: bool
  long_sync :: bool
  peak_to_peer :: "(bytes32, bytes32 set) dict"
  peer_to_peak :: "(bytes32, peak) dict"
  sync_target_header_hash :: "bytes32 option"
  sync_target_height :: "int option"
  peers_changed :: bool
  batch_syncing :: "bytes32 set"
  backtrack_syncing :: "(bytes32, int) dict"

definition sync_store_create :: SyncStore where
  "sync_store_create = \<lparr>sync_mode = False, long_sync = False, peak_to_peer = [], peer_to_peak = [],
     sync_target_header_hash = None, sync_target_height = None, peers_changed = False,
     batch_syncing = {}, backtrack_syncing = []\<rparr>"

definition set_peak_target :: "bytes32 \<Rightarrow> int \<Rightarrow> SyncStore \<Rightarrow> SyncStore" where
  "set_peak_target peak_hash target_height s =
     s\<lparr>sync_target_header_hash := Some peak_hash, sync_target_height := Some target_height\<rparr>"

definition set_sync_mode :: "bool \<Rightarrow> SyncStore \<Rightarrow> SyncStore" where
  "set_sync_mode mode s = s\<lparr>sync_mode := mode\<rparr>"

definition set_long_sync :: "bool \<Rightarrow> SyncStore \<Rightarrow> SyncStore" where
  "set_long_sync l s = s\<lparr>long_sync := l\<rparr>"

definition get_sync_target_hash :: "SyncStore \<Rightarrow> bytes32 option" where
  "get_sync_target_hash s = sync_target_header_hash s"

definition get_sync_target_height :: "SyncStore \<Rightarrow> int option" where
  "get_sync_target_height s = sync_target_height s"

definition get_sync_mode :: "SyncStore \<Rightarrow> bool" where
  "get_sync_mode s = sync_mode s"

definition get_long_sync :: "SyncStore \<Rightarrow> bool" where
  "get_long_sync s = long_sync s"

definition seen_header_hash :: "bytes32 \<Rightarrow> SyncStore \<Rightarrow> bool" where
  "seen_header_hash header_hash s = dmem header_hash (peak_to_peer s)"

definition peer_has_block :: "bytes32 \<Rightarrow> bytes32 \<Rightarrow> int \<Rightarrow> int \<Rightarrow> bool \<Rightarrow> SyncStore \<Rightarrow> SyncStore" where
  "peer_has_block header_hash peer_id weight height new_peak s =
     (let s = (if Some header_hash = sync_target_header_hash s then s\<lparr>peers_changed := True\<rparr> else s);
          s = (case dget (peak_to_peer s) header_hash of
                 Some peers \<Rightarrow> s\<lparr>peak_to_peer := dput header_hash (insert peer_id peers) (peak_to_peer s)\<rparr>
               | None \<Rightarrow> s\<lparr>peak_to_peer := dput header_hash {peer_id} (peak_to_peer s)\<rparr>)
      in if new_peak then s\<lparr>peer_to_peak := dput peer_id (header_hash, height, weight) (peer_to_peak s)\<rparr> else s)"

definition get_peers_that_have_peak :: "bytes32 list \<Rightarrow> SyncStore \<Rightarrow> bytes32 set" where
  "get_peers_that_have_peak header_hashes s =
     fold (\<lambda>h ids. case dget (peak_to_peer s) h of None \<Rightarrow> ids | Some peers \<Rightarrow> ids \<union> peers) header_hashes {}"

definition get_peak_of_each_peer :: "SyncStore \<Rightarrow> (bytes32, peak) dict" where
  "get_peak_of_each_peer s =
     fold (\<lambda>(peer_id, v) ret. if \<not> dmem (fst v) (peak_to_peer s) then ret else dput peer_id v ret)
       (peer_to_peak s) []"

definition heavier :: "SyncStore \<Rightarrow> bytes32 \<times> peak \<Rightarrow> bytes32 option \<times> int \<times> int option \<Rightarrow>
    bytes32 option \<times> int \<times> int option" where
  "heavier s = (\<lambda>(peer_id, (peak_hash, height, weight)) (best_hash, best_weight, best_height).
     if \<not> dmem peak_hash (peak_to_peer s) then (best_hash, best_weight, best_height)
     else if best_hash = None \<or> weight > best_weight then (Some peak_hash, weight, Some height)
     else (best_hash, best_weight, best_height))"

definition get_heaviest_peak :: "SyncStore \<Rightarrow> peak option res" where
  "get_heaviest_peak s =
     (if length (peer_to_peak s) = 0 then Inr None
      else
        (let (best_hash, best_weight, best_height) = fold (heavier s) (peer_to_peak s) (None, 0, None) in
         rbind (not_none best_hash) (\<lambda>h. rbind (not_none best_height) (\<lambda>n. Inr (Some (h, n, best_weight))))))"

definition clear_sync_info :: "SyncStore \<Rightarrow> SyncStore" where
  "clear_sync_info s = s\<lparr>peak_to_peer := []\<rparr>"

definition forget_peer :: "bytes32 \<Rightarrow> bytes32 \<times> bytes32 set \<Rightarrow> (bytes32 \<times> bytes32 set) res" where
  "forget_peer node_id = (\<lambda>(peak, peers).
     let peers = (if node_id \<in> peers then peers - {node_id} else peers) in
     rbind (py_assert (node_id \<notin> peers)) (\<lambda>_. Inr (peak, peers)))"

definition peer_disconnected :: "bytes32 \<Rightarrow> SyncStore \<Rightarrow> SyncStore res" where
  "peer_disconnected node_id s =
     (let s = (if dmem node_id (peer_to_peak s) then s\<lparr>peer_to_peak := ddel node_id (peer_to_peak s)\<rparr> else s) in
      rbind (rmap (forget_peer node_id) (peak_to_peer s)) (\<lambda>d.
      Inr (s\<lparr>peak_to_peer := d, peers_changed := True\<rparr>)))"

section \<open>Mempool items\<close>

text \<open>The spend bundle, its program and the result of running it are not looked at here.\<close>

record 'p MempoolItem =
  mi_payload :: 'p
  mi_fee :: int
  mi_cost :: int
  mi_spend_bundle_name :: bytes32
  mi_additions :: "Coin list"
  mi_removals :: "Coin list"

definition fee_per_cost :: "'p MempoolItem \<Rightarrow> pyfloat res" where
  "fee_per_cost item = true_div (mi_fee item) (mi_cost item)"

definition item_lt :: "'p MempoolItem \<Rightarrow> 'p MempoolItem \<Rightarrow> bool res" where
  "item_lt a b = rbind (fee_per_cost a) (\<lambda>x. rbind (fee_per_cost b) (\<lambda>y. Inr (x < y)))"

definition item_name :: "'p MempoolItem \<Rightarrow> bytes32" where
  "item_name item = mi_spend_bundle_name item"

section \<open>Pending transactions\<close>

record 'p PendingTxCache =
  cache_max_total_cost :: int
  cache_cost :: int
  pending_txs :: "(bytes32, 'p MempoolItem) dict"

definition pending_new :: "int \<Rightarrow> 'p PendingTxCache" where
  "pending_new cost_limit = \<lparr>cache_max_total_cost = cost_limit, cache_cost = 0, pending_txs = []\<rparr>"

definition pending_body :: "'p PendingTxCache \<Rightarrow> 'p PendingTxCache res" where
  "pending_body c =
     rbind (py_nth (dkeys (pending_txs c)) 0) (\<lambda>first_in.
     rbind (from_key (dget (pending_txs c) first_in)) (\<lambda>item.
     Inr (c\<lparr>cache_cost := cache_cost c - mi_cost item, pending_txs := ddel first_in (pending_txs c)\<rparr>)))"

definition pending_add :: "'p MempoolItem \<Rightarrow> 'p PendingTxCache \<Rightarrow> 'p PendingTxCache comp" where
  "pending_add item c =
     (if dmem (mi_spend_bundle_name item) (pending_txs c) then cret c
      else
        cwhile (\<lambda>c. cache_cost c > cache_max_total_cost c) pending_body
          (c\<lparr>pending_txs := dput (mi_spend_bundle_name item) item (pending_txs c),
             cache_cost := cache_cost c + mi_cost item\<rparr>))"

definition pending_drain :: "'p PendingTxCache \<Rightarrow> (bytes32, 'p MempoolItem) dict \<times> 'p PendingTxCache" where
  "pending_drain c = (pending_txs c, c\<lparr>pending_txs := [], cache_cost := 0\<rparr>)"

definition pending_cost :: "'p PendingTxCache \<Rightarrow> int" where
  "pending_cost c = cache_cost c"

section \<open>The mempool\<close>

text \<open>
  The sorted dictionary is a third-party container: \<open>items\<close> gives its items in the order in which
  it iterates. Dictionaries inside it are plain dictionaries. An operation that raises returns the
  exception only: what it had already changed of the pool is not part of the result.
\<close>

record 'p Mempool =
  mp_spends :: "(bytes32, 'p MempoolItem) dict"
  mp_sorted_spends :: "(pyfloat, (bytes32, 'p MempoolItem) dict) dict"
  mp_additions :: "(bytes32, 'p MempoolItem) dict"
  mp_removals :: "(bytes32, 'p MempoolItem) dict"
  max_size_in_cost :: int
  total_mempool_cost :: int

type_synonym 'p sorted_items =
  "(pyfloat, (bytes32, 'p MempoolItem) dict) dict \<Rightarrow> (pyfloat \<times> (bytes32, 'p MempoolItem) dict) list"

definition mempool_new :: "int \<Rightarrow> 'p Mempool" where
  "mempool_new max_size = \<lparr>mp_spends = [], mp_sorted_spends = [], mp_additions = [], mp_removals = [],
     max_size_in_cost = max_size, total_mempool_cost = 0\<rparr>"

definition at_full_capacity :: "int \<Rightarrow> 'p Mempool \<Rightarrow> bool" where
  "at_full_capacity cost m = (total_mempool_cost m + cost > max_size_in_cost m)"

fun min_rate_search :: "int \<Rightarrow> int \<Rightarrow> int \<Rightarrow> (pyfloat \<times> 'p MempoolItem) list \<Rightarrow> pyfloat res" where
  "min_rate_search cost max_size current_cost [] = Inl ValueError"
| "min_rate_search cost max_size current_cost ((fpc, item) # rest) =
     (let current_cost = current_cost - mi_cost item in
      if current_cost + cost \<le> max_size then Inr fpc else min_rate_search cost max_size current_cost rest)"

definition get_min_fee_rate :: "'p sorted_items \<Rightarrow> int \<Rightarrow> 'p Mempool \<Rightarrow> pyfloat res" where
  "get_min_fee_rate items cost m =
     (if at_full_capacity cost m then
        min_rate_search cost (max_size_in_cost m) (total_mempool_cost m)
          (concat (map (\<lambda>(fpc, spends). map (\<lambda>(n, item). (fpc, item)) spends) (items (mp_sorted_spends m))))
      else Inr 0)"

definition del_coins :: "(Coin \<Rightarrow> bytes32) \<Rightarrow> Coin list \<Rightarrow> (bytes32, 'v) dict \<Rightarrow> (bytes32, 'v) dict res" where
  "del_coins name coins d = rfold (\<lambda>c d. ddel_res (name c) d) coins d"

definition remove_from_pool :: "(Coin \<Rightarrow> bytes32) \<Rightarrow> 'p MempoolItem \<Rightarrow> 'p Mempool \<Rightarrow> 'p Mempool res" where
  "remove_from_pool name item m =
     rbind (del_coins name (mi_removals item) (mp_removals m)) (\<lambda>removals.
     rbind (del_coins name (mi_additions item) (mp_additions m)) (\<lambda>additions.
     rbind (ddel_res (item_name item) (mp_spends m)) (\<lambda>spends.
     rbind (fee_per_cost item) (\<lambda>fpc.
     rbind (from_key (dget (mp_sorted_spends m) fpc)) (\<lambda>dic.
     rbind (ddel_res (item_name item) dic) (\<lambda>dic.
     let sorted_spends =
           (if length dic = 0 then ddel fpc (mp_sorted_spends m) else dput fpc dic (mp_sorted_spends m));
         total = total_mempool_cost m - mi_cost item in
     rbind (py_assert (total \<ge> 0)) (\<lambda>_.
     Inr (m\<lparr>mp_removals := removals, mp_additions := additions, mp_spends := spends,
            mp_sorted_spends := sorted_spends, total_mempool_cost := total\<rparr>))))))))"

definition evict_body :: "(Coin \<Rightarrow> bytes32) \<Rightarrow> 'p sorted_items \<Rightarrow> 'p Mempool \<Rightarrow> 'p Mempool res" where
  "evict_body name items m =
     rbind (py_nth (items (mp_sorted_spends m)) 0) (\<lambda>(fpc, val).
     rbind (py_nth (dvalues val) 0) (\<lambda>to_remove.
     remove_from_pool name to_remove m))"

definition insert_item :: "(Coin \<Rightarrow> bytes32) \<Rightarrow> 'p MempoolItem \<Rightarrow> 'p Mempool \<Rightarrow> 'p Mempool res" where
  "insert_item name item m =
     rbind (fee_per_cost item) (\<lambda>fpc.
     let dic = (case dget (mp_sorted_spends m) fpc of None \<Rightarrow> [] | Some d \<Rightarrow> d) in
     Inr (m\<lparr>mp_spends := dput (item_name item) item (mp_spends m),
            mp_sorted_spends := dput fpc (dput (item_name item) item dic) (mp_sorted_spends m),
            mp_additions := fold (\<lambda>c. dput (name c) item) (mi_additions item) (mp_additions m),
            mp_removals := fold (\<lambda>c. dput (name c) item) (mi_removals item) (mp_removals m),
            total_mempool_cost := total_mempool_cost m + mi_cost item\<rparr>))"

definition add_to_pool ::
    "(Coin \<Rightarrow> bytes32) \<Rightarrow> 'p sorted_items \<Rightarrow> 'p MempoolItem \<Rightarrow> 'p Mempool \<Rightarrow> 'p Mempool comp" where
  "add_to_pool name items item m =
     cbind (cwhile (at_full_capacity (mi_cost item)) (evict_body name items) m) (\<lambda>m.
     Some (insert_item name item m))"

end
