(* ===== verification/Gold_Mempool_Manager.thy ===== *)
theory Gold_Mempool_Manager
  imports Gold_Conditions Gold_Coin_Store Gold_Node_State Gold_Block_Record
begin

text \<open>
  The mempool manager (\<^verbatim>\<open>src/chia/full_node/mempool_manager.py\<close>): it admits transactions to the pool
  against the coin store and the peak, remembers those that may become valid, picks the transactions
  of a new block and rebuilds the pool for a new peak. The manager runs under a lock, so an operation is a
  function on its state; an operation that raises returns the exception only. The validation of
  signatures and the run of the puzzles come before and are not part of it.
\<close>

section \<open>Transactions\<close>

record CoinSpend =
  csp_coin :: Coin
  csp_puzzle_reveal :: bytes
  csp_solution :: bytes

record SpendBundle =
  sb_coin_spends :: "CoinSpend list"
  sb_aggregated_signature :: G2Element

definition sb_removals :: "SpendBundle \<Rightarrow> Coin list" where
  "sb_removals b = map csp_coin (sb_coin_spends b)"

definition sb_aggregate :: "(G2Element list \<Rightarrow> G2Element) \<Rightarrow> SpendBundle list \<Rightarrow> SpendBundle" where
  "sb_aggregate aggregate_signatures spend_bundles =
     \<lparr>sb_coin_spends = concat (map sb_coin_spends spend_bundles),
      sb_aggregated_signature = aggregate_signatures (map sb_aggregated_signature spend_bundles)\<rparr>"

text \<open>
  The functions of the CLVM packages: the casts between integers and atoms, the serialised atoms, and the
  serialised quote operator.
\<close>

record clvm_lib =
  lib_int_to_bytes :: "int \<Rightarrow> bytes"
  lib_int_from_bytes :: "bytes \<Rightarrow> int res"
  lib_atom_bin :: "bytes \<Rightarrow> bytes"
  lib_int_bin :: "int \<Rightarrow> bytes"
  lib_quote_bin :: bytes

definition spend_bundle_to_serialized_coin_spend_entry_list :: "clvm_lib \<Rightarrow> SpendBundle \<Rightarrow> bytes" where
  "spend_bundle_to_serialized_coin_spend_entry_list L bundle =
     concat (map (\<lambda>s. [0xff] @ [0xff] @ lib_atom_bin L (coin_parent_coin_info (csp_coin s))
       @ [0xff] @ csp_puzzle_reveal s @ [0xff] @ lib_int_bin L (coin_amount (csp_coin s))
       @ [0xff] @ csp_solution s @ [0x80]) (sb_coin_spends bundle)) @ [0x80]"

text \<open>The program of the generator; its list of arguments is empty.\<close>

definition simple_solution_generator :: "clvm_lib \<Rightarrow> SpendBundle \<Rightarrow> bytes" where
  "simple_solution_generator L bundle =
     [0xff] @ lib_quote_bin L @ [0xff] @ spend_bundle_to_serialized_coin_spend_entry_list L bundle @ [0x80]"

text \<open>What an item of the pool carries besides the fields of the pool.\<close>

record tx_data =
  td_spend_bundle :: SpendBundle
  td_npc_result :: NPCResult
  td_program :: bytes

type_synonym tx_item = "tx_data MempoolItem"

datatype MempoolInclusionStatus = SUCCESS | PENDING | FAILED

section \<open>The manager\<close>

record MempoolManager =
  mm_constants :: ConsensusConstants
  mm_seen_bundle_hashes :: "(bytes32, bytes32) dict"
  mm_coin_store :: CoinStore
  mm_nonzero_fee_minimum_fpc :: int
  mm_limit_factor :: pyfloat
  mm_mempool_max_total_cost :: int
  mm_potential_cache :: "tx_data PendingTxCache"
  mm_seen_cache_size :: int
  mm_peak :: "BlockRecord option"
  mm_mempool :: "tx_data Mempool"

definition mempool_manager_new :: "CoinStore \<Rightarrow> ConsensusConstants \<Rightarrow> MempoolManager" where
  "mempool_manager_new coin_store constants =
     (let total = MAX_BLOCK_COST_CLVM constants * MEMPOOL_BLOCK_BUFFER constants in
      \<lparr>mm_constants = constants, mm_seen_bundle_hashes = [], mm_coin_store = coin_store,
       mm_nonzero_fee_minimum_fpc = 5, mm_limit_factor = 1 / 2, mm_mempool_max_total_cost = total,
       mm_potential_cache = pending_new (MAX_BLOCK_COST_CLVM constants * 5), mm_seen_cache_size = 10000,
       mm_peak = None, mm_mempool = mempool_new total\<rparr>)"

definition block_cost_limit :: "MempoolManager \<Rightarrow> pyfloat" where
  "block_cost_limit m = float_mul (mm_limit_factor m) (float_of_int (MAX_BLOCK_COST_CLVM (mm_constants m)))"

section \<open>Making a block\<close>

fun pick_items :: "pyfloat \<Rightarrow> int \<Rightarrow> int \<Rightarrow> int \<Rightarrow> tx_item list \<Rightarrow> tx_item list res" where
  "pick_items limit max_amount cost_sum fee_sum [] = Inr []"
| "pick_items limit max_amount cost_sum fee_sum (item # rest) =
     rbind (fee_per_cost item) (\<lambda>_.
     if of_int (mi_cost item + cost_sum) \<le> limit \<and> mi_fee item + fee_sum \<le> max_amount
     then rbind (pick_items limit max_amount (cost_sum + mi_cost item) (fee_sum + mi_fee item) rest) (\<lambda>items.
          Inr (item # items))
     else Inr [])"

definition by_falling_rate :: "tx_data sorted_items \<Rightarrow> tx_data Mempool \<Rightarrow> tx_item list" where
  "by_falling_rate items m = concat (map dvalues (rev (map snd (items (mp_sorted_spends m)))))"

definition create_bundle_from_mempool :: "(G2Element list \<Rightarrow> G2Element) \<Rightarrow> tx_data sorted_items \<Rightarrow> bytes32 \<Rightarrow>
    MempoolManager \<Rightarrow> (SpendBundle \<times> Coin list \<times> Coin list) option res" where
  "create_bundle_from_mempool aggregate_signatures items last_tb_header_hash m =
     (case mm_peak m of
        None \<Rightarrow> Inr None
      | Some peak \<Rightarrow>
          if br_header_hash peak \<noteq> last_tb_header_hash then Inr None
          else
            rbind (pick_items (block_cost_limit m) (MAX_COIN_AMOUNT (mm_constants m)) 0 0
              (by_falling_rate items (mm_mempool m))) (\<lambda>picked.
            if length picked > 0 then
              rbind (true_div (sum_list (map mi_cost picked)) (MAX_BLOCK_COST_CLVM (mm_constants m))) (\<lambda>_.
              Inr (Some (sb_aggregate aggregate_signatures (map (\<lambda>i. td_spend_bundle (mi_payload i)) picked),
                concat (map mi_additions picked), concat (map mi_removals picked))))
            else Inr None))"

text \<open>The filter of names is a third-party function of the list of names.\<close>

definition get_filter :: "(bytes list \<Rightarrow> bytes) \<Rightarrow> MempoolManager \<Rightarrow> bytes" where
  "get_filter bip158 m = bip158 (remdups (dkeys (mp_spends (mm_mempool m))))"

section \<open>Fees and seen transactions\<close>

definition is_fee_enough :: "tx_data sorted_items \<Rightarrow> int \<Rightarrow> int \<Rightarrow> MempoolManager \<Rightarrow> bool res" where
  "is_fee_enough items fees cost m =
     (if cost = 0 then Inr False
      else
        rbind (true_div fees cost) (\<lambda>fees_per_cost.
        if \<not> at_full_capacity cost (mm_mempool m) then Inr True
        else if fees_per_cost \<ge> of_int (mm_nonzero_fee_minimum_fpc m) then
          rbind (get_min_fee_rate items cost (mm_mempool m)) (\<lambda>rate. Inr (fees_per_cost > rate))
        else Inr False))"

definition pop_seen :: "MempoolManager \<Rightarrow> MempoolManager res" where
  "pop_seen m =
     rbind (py_nth (dkeys (mm_seen_bundle_hashes m)) 0) (\<lambda>first_in.
     Inr (m\<lparr>mm_seen_bundle_hashes := ddel first_in (mm_seen_bundle_hashes m)\<rparr>))"

definition add_and_maybe_pop_seen :: "bytes32 \<Rightarrow> MempoolManager \<Rightarrow> MempoolManager comp" where
  "add_and_maybe_pop_seen spend_name m =
     cwhile (\<lambda>m. int (length (mm_seen_bundle_hashes m)) > mm_seen_cache_size m) pop_seen
       (m\<lparr>mm_seen_bundle_hashes := dput spend_name spend_name (mm_seen_bundle_hashes m)\<rparr>)"

definition seen :: "bytes32 \<Rightarrow> MempoolManager \<Rightarrow> bool" where
  "seen bundle_hash m = dmem bundle_hash (mm_seen_bundle_hashes m)"

definition remove_seen :: "bytes32 \<Rightarrow> MempoolManager \<Rightarrow> MempoolManager" where
  "remove_seen bundle_hash m =
     (if dmem bundle_hash (mm_seen_bundle_hashes m)
      then m\<lparr>mm_seen_bundle_hashes := ddel bundle_hash (mm_seen_bundle_hashes m)\<rparr> else m)"

definition get_min_fee_increase :: int where
  "get_min_fee_increase = 10000000"

definition can_replace :: "(Coin \<Rightarrow> bytes32) \<Rightarrow> (bytes32, tx_item) dict \<Rightarrow> (bytes32, CoinRecord) dict \<Rightarrow>
    int \<Rightarrow> pyfloat \<Rightarrow> bool res" where
  "can_replace name conflicting_items removals fees fees_per_cost =
     (if list_ex (\<lambda>item. list_ex (\<lambda>coin. \<not> dmem (name coin) removals) (mi_removals item)) (dvalues conflicting_items)
      then Inr False
      else
        (let conflicting_fees = sum_list (map mi_fee (dvalues conflicting_items));
             conflicting_cost = sum_list (map mi_cost (dvalues conflicting_items)) in
         rbind (true_div conflicting_fees conflicting_cost) (\<lambda>conflicting_fees_per_cost.
         Inr (\<not> fees_per_cost \<le> conflicting_fees_per_cost \<and> \<not> fees - conflicting_fees < get_min_fee_increase))))"

section \<open>Admitting a transaction\<close>

text \<open>
  The stages of \<^verbatim>\<open>add_spendbundle\<close>. A stage that may return early gives \<open>Inl\<close> of the error it returns
  with, inside a result that may also be an exception.
\<close>

fun addition_total :: "int \<Rightarrow> Coin list \<Rightarrow> int \<Rightarrow> (Err + int) res" where
  "addition_total max_amount [] acc = Inr (Inr acc)"
| "addition_total max_amount (coin # rest) acc =
     (if coin_amount coin < 0 then Inr (Inl Err_COIN_AMOUNT_NEGATIVE)
      else if coin_amount coin > max_amount then Inr (Inl Err_COIN_AMOUNT_EXCEEDS_MAXIMUM)
      else rbind (uint64 (acc + coin_amount coin)) (addition_total max_amount rest))"

definition ephemeral_record :: "BlockRecord \<Rightarrow> Coin \<Rightarrow> CoinRecord res" where
  "ephemeral_record peak coin =
     rbind (not_none (br_timestamp peak)) (\<lambda>timestamp.
     rbind (uint32 (br_height peak + 1)) (\<lambda>height.
     rbind (uint64 (timestamp + 1)) (\<lambda>timestamp.
     Inr (new_record height timestamp False coin))))"

text \<open>The records of the removed coins and their total, with the coin store after the lookups.\<close>

fun removal_records :: "(bytes \<Rightarrow> bytes) \<Rightarrow> (int \<Rightarrow> bytes) \<Rightarrow> BlockRecord \<Rightarrow> (bytes32, Coin) dict \<Rightarrow> bytes32 list \<Rightarrow>
    CoinStore \<Rightarrow> (bytes32, CoinRecord) dict \<Rightarrow> int \<Rightarrow> (CoinStore \<times> (Err + (bytes32, CoinRecord) dict \<times> int)) res" where
  "removal_records std_hash int_to_bytes peak additions_dict [] store records amount =
     Inr (store, Inr (records, amount))"
| "removal_records std_hash int_to_bytes peak additions_dict (name # names) store records amount =
     (case get_coin_record std_hash int_to_bytes name store of
        (store, Inl e) \<Rightarrow> Inl e
      | (store, Inr found) \<Rightarrow>
          if found = None \<and> \<not> dmem name additions_dict then Inr (store, Inl Err_UNKNOWN_UNSPENT)
          else
            rbind (case dget additions_dict name of
                Some coin \<Rightarrow> ephemeral_record peak coin
              | None \<Rightarrow> not_none found) (\<lambda>record.
            rbind (uint64 (amount + coin_amount (cr_coin record))) (\<lambda>amount.
            removal_records std_hash int_to_bytes peak additions_dict names store (dput name record records) amount)))"

fun fee_list_total :: "(bytes \<Rightarrow> int res) \<Rightarrow> ConditionWithArgs list \<Rightarrow> int \<Rightarrow> (Err + int) res" where
  "fee_list_total int_from_bytes [] acc = Inr (Inr acc)"
| "fee_list_total int_from_bytes (cvp # rest) acc =
     rbind (py_nth (cwa_vars cvp) 0) (\<lambda>b.
     rbind (int_from_bytes b) (\<lambda>fee.
     if fee < 0 then Inr (Inl Err_RESERVE_FEE_CONDITION_FAILED)
     else fee_list_total int_from_bytes rest (acc + fee)))"

fun reserved_fees :: "(bytes \<Rightarrow> int res) \<Rightarrow> NPC list \<Rightarrow> int \<Rightarrow> (Err + int) res" where
  "reserved_fees int_from_bytes [] acc = Inr (Inr acc)"
| "reserved_fees int_from_bytes (npc # rest) acc =
     rbind (condition_dict npc) (\<lambda>d.
     rbind (fee_list_total int_from_bytes (get_conditions d OP_RESERVE_FEE) acc) (\<lambda>r.
     case r of Inl e \<Rightarrow> Inr (Inl e) | Inr acc \<Rightarrow> reserved_fees int_from_bytes rest acc))"

definition capacity_error :: "tx_data sorted_items \<Rightarrow> int \<Rightarrow> pyfloat \<Rightarrow> MempoolManager \<Rightarrow> Err option res" where
  "capacity_error items cost fees_per_cost m =
     (if at_full_capacity cost (mm_mempool m) then
        (if fees_per_cost < of_int (mm_nonzero_fee_minimum_fpc m) then Inr (Some Err_INVALID_FEE_TOO_CLOSE_TO_ZERO)
         else rbind (get_min_fee_rate items cost (mm_mempool m)) (\<lambda>rate.
              Inr (if fees_per_cost \<le> rate then Some Err_INVALID_FEE_LOW_FEE else None)))
      else Inr None)"

definition check_removals :: "(Coin \<Rightarrow> bytes32) \<Rightarrow> (bytes32, CoinRecord) dict \<Rightarrow> MempoolManager \<Rightarrow>
    (Err option \<times> Coin list) res" where
  "check_removals name removals m =
     rbind (py_assert (mm_peak m \<noteq> None)) (\<lambda>_.
     if list_ex cr_spent (dvalues removals) then Inr (Some Err_DOUBLE_SPEND, [])
     else
       (let conflicts = filter (\<lambda>coin. dmem (name coin) (mp_removals (mm_mempool m))) (map cr_coin (dvalues removals)) in
        Inr (if length conflicts > 0 then (Some Err_MEMPOOL_CONFLICT, conflicts) else (None, []))))"

definition conflicting_items :: "(Coin \<Rightarrow> bytes32) \<Rightarrow> Coin list \<Rightarrow> MempoolManager \<Rightarrow> (bytes32, tx_item) dict res" where
  "conflicting_items name conflicts m =
     rfold (\<lambda>coin d. rbind (from_key (dget (mp_removals (mm_mempool m)) (name coin))) (\<lambda>sb.
       Inr (dput (item_name sb) sb d))) conflicts []"

definition npc_error :: "(bytes \<Rightarrow> int res) \<Rightarrow> BlockRecord \<Rightarrow> (bytes32, CoinRecord) dict \<Rightarrow> NPC \<Rightarrow> Err option res" where
  "npc_error int_from_bytes peak records npc =
     rbind (from_key (dget records (npc_coin_name npc))) (\<lambda>coin_record.
     if npc_puzzle_hash npc \<noteq> coin_puzzle_hash (cr_coin coin_record) then Inr (Some Err_WRONG_PUZZLE_HASH)
     else
       rbind (not_none (br_timestamp peak)) (\<lambda>timestamp.
       rbind (condition_dict npc) (\<lambda>d.
       rbind (uint32 (if \<not> br_is_transaction_block peak then br_prev_transaction_block_height peak else br_height peak))
         (\<lambda>chialisp_height.
       mempool_check_conditions_dict int_from_bytes coin_record d chialisp_height timestamp))))"

type_synonym outcome = "int option \<times> MempoolInclusionStatus \<times> Err option"

definition failed :: "Err \<Rightarrow> outcome" where
  "failed e = (None, FAILED, Some e)"

definition keep_pending :: "tx_item \<Rightarrow> Err \<Rightarrow> MempoolManager \<Rightarrow> (MempoolManager \<times> outcome) comp" where
  "keep_pending potential e m =
     cbind (pending_add potential (mm_potential_cache m)) (\<lambda>c.
     cret (m\<lparr>mm_potential_cache := c\<rparr>, (Some (mi_cost potential), PENDING, Some e)))"

definition replace_items :: "(Coin \<Rightarrow> bytes32) \<Rightarrow> tx_data sorted_items \<Rightarrow> (bytes32, tx_item) dict \<Rightarrow> tx_item \<Rightarrow>
    MempoolManager \<Rightarrow> (MempoolManager \<times> outcome) comp" where
  "replace_items name items conflicting item m =
     cbind (Some (rfold (remove_from_pool name) (dvalues conflicting) (mm_mempool m))) (\<lambda>pool.
     cbind (add_to_pool name items item pool) (\<lambda>pool.
     cret (m\<lparr>mm_mempool := pool\<rparr>, (Some (mi_cost item), SUCCESS, None))))"

text \<open>The last stages, once fees and cost are known: conflicts, conditions, and the change of the pool.\<close>

definition admit :: "(bytes \<Rightarrow> bytes) \<Rightarrow> clvm_lib \<Rightarrow> tx_data sorted_items \<Rightarrow> BlockRecord \<Rightarrow> tx_item \<Rightarrow>
    (bytes32, CoinRecord) dict \<Rightarrow> NPC list \<Rightarrow> pyfloat \<Rightarrow> MempoolManager \<Rightarrow> (MempoolManager \<times> outcome) comp" where
  "admit std_hash L items peak item records npc_list fees_per_cost m =
     (let name = coin_name std_hash (lib_int_to_bytes L) in
      cbind (Some (check_removals name records m)) (\<lambda>(fail_reason, conflicts).
      if fail_reason \<noteq> None \<and> fail_reason \<noteq> Some Err_MEMPOOL_CONFLICT then cret (m, (None, FAILED, fail_reason))
      else
        cbind (Some (if fail_reason = Some Err_MEMPOOL_CONFLICT then conflicting_items name conflicts m else Inr []))
          (\<lambda>conflicting.
        cbind (Some (if fail_reason = Some Err_MEMPOOL_CONFLICT
                     then can_replace name conflicting records (mi_fee item) fees_per_cost else Inr True)) (\<lambda>replace.
        if \<not> replace then keep_pending item Err_MEMPOOL_CONFLICT m
        else
          cbind (Some (first_error (npc_error (lib_int_from_bytes L) peak records) npc_list)) (\<lambda>error.
          case error of
            Some e \<Rightarrow>
              if e = Err_ASSERT_HEIGHT_ABSOLUTE_FAILED \<or> e = Err_ASSERT_HEIGHT_RELATIVE_FAILED
              then keep_pending item e m else cret (m, failed e)
          | None \<Rightarrow>
              replace_items name items conflicting item m)))))"

definition add_spendbundle :: "(bytes \<Rightarrow> bytes) \<Rightarrow> clvm_lib \<Rightarrow> tx_data sorted_items \<Rightarrow> SpendBundle \<Rightarrow> NPCResult \<Rightarrow>
    bytes32 \<Rightarrow> bytes option \<Rightarrow> MempoolManager \<Rightarrow> (MempoolManager \<times> outcome) comp" where
  "add_spendbundle std_hash L items new_spend npc_result spend_name program m =
     (let name = coin_name std_hash (lib_int_to_bytes L);
          npc_list = nr_npc_list npc_result;
          max_amount = MAX_COIN_AMOUNT (mm_constants m) in
      case mm_peak m of
        None \<Rightarrow> cret (m, failed Err_MEMPOOL_NOT_INITIALIZED)
      | Some peak \<Rightarrow>
      cbind (Some (py_assert (nr_error npc_result = None))) (\<lambda>_.
      let program = (case program of None \<Rightarrow> simple_solution_generator L new_spend | Some p \<Rightarrow> p) in
      cbind (Some (calculate_cost_of_program program npc_result (COST_PER_BYTE (mm_constants m)))) (\<lambda>cost.
      if cost > int_of_float (block_cost_limit m) then cret (m, failed Err_BLOCK_COST_EXCEEDS_MAX)
      else
      let removal_names = map npc_coin_name npc_list in
      if set removal_names \<noteq> set (map name (sb_removals new_spend)) then cret (m, failed Err_INVALID_SPEND_BUNDLE)
      else
      cbind (Some (additions_for_npc (lib_int_from_bytes L) npc_list)) (\<lambda>additions.
      let additions_dict = fold (\<lambda>add. dput (name add) add) additions [] in
      cbind (Some (addition_total max_amount additions 0)) (\<lambda>total.
      case total of Inl e \<Rightarrow> cret (m, failed e) | Inr addition_amount \<Rightarrow>
      if \<not> distinct (map name additions) then cret (m, failed Err_DUPLICATE_OUTPUT)
      else if \<not> distinct removal_names then cret (m, failed Err_DOUBLE_SPEND)
      else if dmem spend_name (mp_spends (mm_mempool m)) then cret (m, (Some cost, SUCCESS, None))
      else
      cbind (Some (removal_records std_hash (lib_int_to_bytes L) peak additions_dict removal_names (mm_coin_store m) [] 0))
        (\<lambda>(store, found).
      let m = m\<lparr>mm_coin_store := store\<rparr> in
      case found of Inl e \<Rightarrow> cret (m, failed e) | Inr (records, removal_amount) \<Rightarrow>
      if addition_amount > removal_amount then cret (m, failed Err_MINTING_COIN)
      else
      cbind (Some (uint64 (removal_amount - addition_amount))) (\<lambda>fees.
      cbind (Some (reserved_fees (lib_int_from_bytes L) npc_list 0)) (\<lambda>reserved.
      case reserved of Inl e \<Rightarrow> cret (m, failed e) | Inr assert_fee_sum \<Rightarrow>
      if fees < assert_fee_sum then cret (m, failed Err_RESERVE_FEE_CONDITION_FAILED)
      else if cost = 0 then cret (m, failed Err_UNKNOWN)
      else
      cbind (Some (true_div fees cost)) (\<lambda>fees_per_cost.
      cbind (Some (capacity_error items cost fees_per_cost m)) (\<lambda>low.
      case low of Some e \<Rightarrow> cret (m, failed e) | None \<Rightarrow>
      admit std_hash L items peak
        \<lparr>mi_payload = \<lparr>td_spend_bundle = new_spend, td_npc_result = npc_result, td_program = program\<rparr>,
         mi_fee = fees, mi_cost = cost, mi_spend_bundle_name = spend_name,
         mi_additions = additions, mi_removals = map cr_coin (dvalues records)\<rparr>
        records npc_list fees_per_cost m))))))))))"

section \<open>Queries and a new peak\<close>

definition get_mempool_item :: "bytes32 \<Rightarrow> MempoolManager \<Rightarrow> tx_item option" where
  "get_mempool_item bundle_hash m = dget (mp_spends (mm_mempool m)) bundle_hash"

definition get_spendbundle :: "bytes32 \<Rightarrow> MempoolManager \<Rightarrow> SpendBundle option" where
  "get_spendbundle bundle_hash m =
     map_option (\<lambda>item. td_spend_bundle (mi_payload item)) (dget (mp_spends (mm_mempool m)) bundle_hash)"

fun keep_unchanged :: "(Coin \<Rightarrow> bytes32) \<Rightarrow> tx_data sorted_items \<Rightarrow> bytes32 set \<Rightarrow> tx_item list \<Rightarrow>
    MempoolManager \<Rightarrow> MempoolManager comp" where
  "keep_unchanged name items changed [] m = cret m"
| "keep_unchanged name items changed (item # rest) m =
     (if \<not> list_ex (\<lambda>coin. name coin \<in> changed) (mi_removals item) then
        cbind (add_to_pool name items item (mm_mempool m)) (\<lambda>pool.
        keep_unchanged name items changed rest (m\<lparr>mm_mempool := pool\<rparr>))
      else keep_unchanged name items changed rest (remove_seen (mi_spend_bundle_name item) m))"

definition re_add :: "(bytes \<Rightarrow> bytes) \<Rightarrow> clvm_lib \<Rightarrow> tx_data sorted_items \<Rightarrow> tx_item \<Rightarrow> MempoolManager \<Rightarrow>
    (MempoolManager \<times> outcome) comp" where
  "re_add std_hash L items item m =
     add_spendbundle std_hash L items (td_spend_bundle (mi_payload item)) (td_npc_result (mi_payload item))
       (mi_spend_bundle_name item) (Some (td_program (mi_payload item))) m"

fun re_add_all :: "(bytes \<Rightarrow> bytes) \<Rightarrow> clvm_lib \<Rightarrow> tx_data sorted_items \<Rightarrow> tx_item list \<Rightarrow> MempoolManager \<Rightarrow>
    MempoolManager comp" where
  "re_add_all std_hash L items [] m = cret m"
| "re_add_all std_hash L items (item # rest) m =
     cbind (re_add std_hash L items item m) (\<lambda>(m, _, result, _).
     re_add_all std_hash L items rest
       (if result \<noteq> SUCCESS then remove_seen (mi_spend_bundle_name item) m else m))"

fun retry_pending :: "(bytes \<Rightarrow> bytes) \<Rightarrow> clvm_lib \<Rightarrow> tx_data sorted_items \<Rightarrow> tx_item list \<Rightarrow> MempoolManager \<Rightarrow>
    (MempoolManager \<times> tx_item list) comp" where
  "retry_pending std_hash L items [] m = cret (m, [])"
| "retry_pending std_hash L items (item # rest) m =
     cbind (re_add std_hash L items item m) (\<lambda>(m, _, status, _).
     cbind (retry_pending std_hash L items rest m) (\<lambda>(m, added).
     cret (m, if status = SUCCESS then item # added else added)))"

text \<open>
  The transactions added from the pending cache are returned as their items, which hold the bundle, the
  result and the name that the code returns.
\<close>

definition manager_new_peak :: "(bytes \<Rightarrow> bytes) \<Rightarrow> clvm_lib \<Rightarrow> tx_data sorted_items \<Rightarrow> BlockRecord option \<Rightarrow>
    CoinRecord list \<Rightarrow> MempoolManager \<Rightarrow> (MempoolManager \<times> tx_item list) comp" where
  "manager_new_peak std_hash L items new_peak coin_changes m =
     (let name = coin_name std_hash (lib_int_to_bytes L) in
      case new_peak of
        None \<Rightarrow> cret (m, [])
      | Some peak \<Rightarrow>
          if \<not> br_is_transaction_block peak \<or> mm_peak m = Some peak then cret (m, [])
          else
            cbind (Some (not_none (br_timestamp peak))) (\<lambda>_.
            let use_optimization = (case mm_peak m of
                    None \<Rightarrow> False
                  | Some old \<Rightarrow> br_prev_transaction_block_hash peak = Some (br_header_hash old));
                old_items = dvalues (mp_spends (mm_mempool m));
                m = m\<lparr>mm_peak := Some peak, mm_mempool := mempool_new (mm_mempool_max_total_cost m)\<rparr> in
            cbind (if use_optimization
                   then keep_unchanged name items (set (map (\<lambda>r. name (cr_coin r)) coin_changes)) old_items m
                   else re_add_all std_hash L items old_items m) (\<lambda>m.
            let (potential_txs, cache) = pending_drain (mm_potential_cache m) in
            cbind (retry_pending std_hash L items (dvalues potential_txs) (m\<lparr>mm_potential_cache := cache\<rparr>)) (\<lambda>(m, txs_added).
            cbind (Some (get_min_fee_rate items 100000 (mm_mempool m))) (\<lambda>_.
            cret (m, txs_added))))))"

fun pick_unmatched :: "(bytes \<Rightarrow> bool) \<Rightarrow> int \<Rightarrow> int \<Rightarrow> tx_item list \<Rightarrow> tx_item list" where
  "pick_unmatched match_name limit counter [] = []"
| "pick_unmatched match_name limit counter (item # rest) =
     (if counter = limit then []
      else if match_name (mi_spend_bundle_name item) then pick_unmatched match_name limit counter rest
      else item # pick_unmatched match_name limit (counter + 1) rest)"

definition get_items_not_in_filter :: "tx_data sorted_items \<Rightarrow> (bytes \<Rightarrow> bool) \<Rightarrow> int \<Rightarrow> MempoolManager \<Rightarrow> tx_item list" where
  "get_items_not_in_filter items match_name limit m =
     pick_unmatched match_name limit 0 (concat (map (\<lambda>q. dvalues (snd q)) (items (mp_sorted_spends (mm_mempool m)))))"

end
