(* ===== verification/Gold_Node_State_Correct.thy ===== *)
theory Gold_Node_State_Correct
  imports Gold_Node_State Gold_Coin_Rows
begin

text \<open>
  The sync store answers with the heaviest known peak and forgets disconnected peers; the pending cache
  stays within its limit by dropping its oldest transactions.
\<close>

section \<open>The sync store\<close>

definition seen_peaks :: "SyncStore \<Rightarrow> peak set" where
  "seen_peaks s = {p. \<exists>peer. (peer, p) \<in> set (peer_to_peak s) \<and> dmem (fst p) (peak_to_peer s)}"

lemma heavier_fold:
  assumes "case b of (Some h, w, Some n) \<Rightarrow> (h, n, w) \<in> S \<and> (\<forall>(h', n', w') \<in> S. w' \<le> w)
    | (None, w, None) \<Rightarrow> S = {} | _ \<Rightarrow> False"
  shows "case fold (heavier s) ps b of
      (Some h, w, Some n) \<Rightarrow> (h, n, w) \<in> S \<union> {p. \<exists>peer. (peer, p) \<in> set ps \<and> dmem (fst p) (peak_to_peer s)} \<and>
        (\<forall>(h', n', w') \<in> S \<union> {p. \<exists>peer. (peer, p) \<in> set ps \<and> dmem (fst p) (peak_to_peer s)}. w' \<le> w)
    | (None, w, None) \<Rightarrow> S \<union> {p. \<exists>peer. (peer, p) \<in> set ps \<and> dmem (fst p) (peak_to_peer s)} = {}
    | _ \<Rightarrow> False"
  using assms
proof (induction ps arbitrary: b S)
  case Nil
  then show ?case by (auto split: prod.splits option.splits)
next
  case (Cons q ps)
  obtain peer h n w where q: "q = (peer, h, n, w)" by (cases q) auto
  define S' where "S' = (if dmem h (peak_to_peer s) then insert (h, n, w) S else S)"
  have step: "case heavier s q b of (Some h, w, Some n) \<Rightarrow> (h, n, w) \<in> S' \<and> (\<forall>(h', n', w') \<in> S'. w' \<le> w)
    | (None, w, None) \<Rightarrow> S' = {} | _ \<Rightarrow> False"
    using Cons.prems unfolding q S'_def heavier_def
    by (cases b) (force split: option.splits if_splits)
  have eq: "S \<union> {p. \<exists>peer. (peer, p) \<in> set (q # ps) \<and> dmem (fst p) (peak_to_peer s)} =
      S' \<union> {p. \<exists>peer. (peer, p) \<in> set ps \<and> dmem (fst p) (peak_to_peer s)}"
    by (auto simp: q S'_def)
  show ?case using Cons.IH [OF step] unfolding eq by simp
qed

text \<open>
  C27. The heaviest peak is that of a peer, known to the store, and no known peak of a peer is heavier.
  There is no answer only without peers, and the assertion fails exactly when there are peers and none
  of their peaks is known.
\<close>

theorem heaviest_peak_correct:
  "case get_heaviest_peak s of
     Inr None \<Rightarrow> peer_to_peak s = []
   | Inr (Some (h, n, w)) \<Rightarrow> (h, n, w) \<in> seen_peaks s \<and> (\<forall>(h', n', w') \<in> seen_peaks s. w' \<le> w)
   | Inl e \<Rightarrow> e = AssertionError \<and> peer_to_peak s \<noteq> [] \<and> seen_peaks s = {}"
  using heavier_fold [where b = "(None, 0, None)" and S = "{}" and s = s and ps = "peer_to_peak s"]
  by (auto simp: get_heaviest_peak_def seen_peaks_def not_none_def split: prod.splits option.splits)

definition sample_sync :: SyncStore where
  "sample_sync = peer_has_block [2] [8] 3 7 True (peer_has_block [1] [9] 5 2 True sync_store_create)"

theorem heaviest_peak_correct_witness:
  "get_heaviest_peak sample_sync = Inr (Some ([1], 2, 5)) \<and> ([1], 2, 5) \<in> seen_peaks sample_sync \<and>
   ([2], 7, 3) \<in> seen_peaks sample_sync"
proof -
  have e: "get_heaviest_peak sample_sync = Inr (Some ([1], 2, 5))"
    by code_simp
  have "([2], 7, 3) \<in> seen_peaks sample_sync"
    by (auto simp: seen_peaks_def sample_sync_def peer_has_block_def sync_store_create_def)
  then show ?thesis using heaviest_peak_correct [of sample_sync] e by simp
qed

text \<open>
  C32. After the sync information is cleared, asking for the heaviest peak fails with an assertion
  when a peer has announced a peak: the peaks of the peers are kept while the blocks they name are not.
\<close>

theorem cleared_heaviest_peak_raises:
  "peer_to_peak s \<noteq> [] \<Longrightarrow> get_heaviest_peak (clear_sync_info s) = Inl AssertionError"
proof -
  assume ne: "peer_to_peak s \<noteq> []"
  have "fold (heavier (clear_sync_info s)) ps (None, 0, None) = (None, 0, None)" for ps
    by (induction ps) (auto simp: heavier_def clear_sync_info_def)
  with ne show ?thesis by (simp add: get_heaviest_peak_def not_none_def) (simp add: clear_sync_info_def)
qed

theorem cleared_heaviest_peak_raises_witness:
  "get_heaviest_peak (clear_sync_info (peer_has_block [1] [9] 5 2 True sync_store_create)) = Inl AssertionError"
  by (rule cleared_heaviest_peak_raises) code_simp

lemma forget_peer_total: "forget_peer n q = Inr (fst q, snd q - {n})"
  by (cases q) (auto simp: forget_peer_def py_assert_def)

lemma dget_map_snd: "dget (map (\<lambda>q. (fst q, f (snd q))) d) k = map_option f (dget d k)"
  by (induction d) auto

lemma peers_fold:
  "fold (\<lambda>h ids. case dget d h of None \<Rightarrow> ids | Some peers \<Rightarrow> ids \<union> peers) hs A =
    A \<union> (\<Union>h \<in> set hs. case dget d h of None \<Rightarrow> {} | Some peers \<Rightarrow> peers)"
  by (induction hs arbitrary: A) (auto split: option.splits)

text \<open>
  C30. Disconnecting a peer succeeds, removes it and nothing else from the peers of every block, and
  forgets its peak and no other.
\<close>

theorem disconnected_peer_forgotten:
  "\<exists>s'. peer_disconnected n s = Inr s' \<and> peers_changed s' \<and>
     (\<forall>hs. get_peers_that_have_peak hs s' = get_peers_that_have_peak hs s - {n}) \<and>
     (\<forall>p. dget (peer_to_peak s') p = (if p = n then None else dget (peer_to_peak s) p))"
proof -
  have r: "rmap (forget_peer n) d = Inr (map (\<lambda>q. (fst q, snd q - {n})) d)" for d
    by (rule rmap_total) (rule forget_peer_total)
  show ?thesis
    by (auto simp: peer_disconnected_def r get_peers_that_have_peak_def peers_fold not_dmem_dget
        dget_map_snd [of "\<lambda>x. x - {n}"] split: option.splits)
qed

section \<open>Pending transactions\<close>

definition items_cost :: "(bytes32, 'p MempoolItem) dict \<Rightarrow> int" where
  "items_cost d = sum_list (map (\<lambda>q. mi_cost (snd q)) d)"

lemma items_cost_simps [simp]:
  "items_cost [] = 0" "items_cost (q # d) = mi_cost (snd q) + items_cost d"
  "items_cost (d @ d') = items_cost d + items_cost d'"
  by (simp_all add: items_cost_def)

definition pending_ok :: "'p PendingTxCache \<Rightarrow> bool" where
  "pending_ok c = (dict_wf (pending_txs c) \<and> cache_cost c = items_cost (pending_txs c) \<and>
     cache_cost c \<le> cache_max_total_cost c)"

lemma pending_body_first:
  assumes "pending_txs c = (n, i) # d" and "dict_wf (pending_txs c)"
  shows "pending_body c = Inr (c\<lparr>cache_cost := cache_cost c - mi_cost i, pending_txs := d\<rparr>)"
  using assms by (simp add: pending_body_def py_nth_def dkeys_def from_key_def ddel_absent)

lemma pending_loop:
  assumes "dict_wf (pending_txs c)" and "cache_cost c = items_cost (pending_txs c)" and "0 \<le> cache_max_total_cost c"
  shows "\<exists>k. cwhile (\<lambda>c. cache_cost c > cache_max_total_cost c) pending_body c =
      cret (c\<lparr>cache_cost := items_cost (drop k (pending_txs c)), pending_txs := drop k (pending_txs c)\<rparr>) \<and>
    items_cost (drop k (pending_txs c)) \<le> cache_max_total_cost c \<and>
    (\<forall>j < k. items_cost (drop j (pending_txs c)) > cache_max_total_cost c)"
  using assms
proof (induction "pending_txs c" arbitrary: c)
  case Nil
  then show ?case by (intro exI [of _ 0]) simp
next
  case (Cons q d)
  obtain n i where q: "q = (n, i)" by (cases q)
  show ?case
  proof (cases "cache_cost c > cache_max_total_cost c")
    case False
    with Cons.prems show ?thesis by (intro exI [of _ 0]) simp
  next
    case True
    define c' where "c' = c\<lparr>cache_cost := cache_cost c - mi_cost i, pending_txs := d\<rparr>"
    have txs: "pending_txs c = (n, i) # d" using Cons.hyps(2) q by simp
    have step: "pending_body c = Inr c'"
      unfolding c'_def by (rule pending_body_first [OF txs Cons.prems(1)])
    have pre: "d = pending_txs c'" "dict_wf (pending_txs c')" "cache_cost c' = items_cost (pending_txs c')"
      "0 \<le> cache_max_total_cost c'"
      using Cons.prems txs by (simp_all add: c'_def)
    obtain k where k: "cwhile (\<lambda>c. cache_cost c > cache_max_total_cost c) pending_body c' =
        cret (c'\<lparr>cache_cost := items_cost (drop k d), pending_txs := drop k d\<rparr>)"
      "items_cost (drop k d) \<le> cache_max_total_cost c" "\<forall>j < k. items_cost (drop j d) > cache_max_total_cost c"
      using Cons.hyps(1) [OF pre] by (auto simp: c'_def)
    have "\<forall>j < Suc k. items_cost (drop j (pending_txs c)) > cache_max_total_cost c"
      using k(3) True Cons.prems(2) txs by (auto simp: less_Suc_eq_0_disj)
    moreover have "cwhile (\<lambda>c. cache_cost c > cache_max_total_cost c) pending_body c =
        cret (c\<lparr>cache_cost := items_cost (drop (Suc k) (pending_txs c)), pending_txs := drop (Suc k) (pending_txs c)\<rparr>)"
      using cwhile_step [where c = "\<lambda>c. cache_cost c > cache_max_total_cost c" and s = c and s' = c' and b = pending_body,
        OF True step] k(1)
      by (simp add: txs c'_def)
    ultimately show ?thesis using k(2) txs by (intro exI [of _ "Suc k"]) simp
  qed
qed

lemma pending_add_ok:
  assumes "pending_ok c" and "0 \<le> cache_max_total_cost c"
  shows "\<exists>c'. pending_add item c = cret c' \<and> pending_ok c' \<and> cache_max_total_cost c' = cache_max_total_cost c \<and>
    (if dmem (mi_spend_bundle_name item) (pending_txs c) then c' = c
     else (\<exists>k. pending_txs c' = drop k (pending_txs c @ [(mi_spend_bundle_name item, item)]) \<and>
       (\<forall>j < k. items_cost (drop j (pending_txs c @ [(mi_spend_bundle_name item, item)])) > cache_max_total_cost c)))"
proof (cases "dmem (mi_spend_bundle_name item) (pending_txs c)")
  case True
  with assms show ?thesis by (simp add: pending_add_def)
next
  case False
  define txs where "txs = pending_txs c @ [(mi_spend_bundle_name item, item)]"
  define c1 where "c1 = c\<lparr>pending_txs := txs, cache_cost := cache_cost c + mi_cost item\<rparr>"
  have c1: "pending_add item c = cwhile (\<lambda>c. cache_cost c > cache_max_total_cost c) pending_body c1"
    using False by (simp add: pending_add_def c1_def txs_def dput_new)
  have wf: "dict_wf txs" using assms(1) False by (simp add: txs_def pending_ok_def dict_wf_append)
  have pre: "dict_wf (pending_txs c1)" "cache_cost c1 = items_cost (pending_txs c1)" "0 \<le> cache_max_total_cost c1"
    using wf assms by (simp_all add: c1_def txs_def pending_ok_def)
  obtain k where k: "pending_add item c = cret (c1\<lparr>cache_cost := items_cost (drop k txs), pending_txs := drop k txs\<rparr>)"
    "items_cost (drop k txs) \<le> cache_max_total_cost c" "\<forall>j < k. items_cost (drop j txs) > cache_max_total_cost c"
    using pending_loop [OF pre] unfolding c1 by (auto simp: c1_def)
  have "dict_wf (drop k txs)" using wf by (simp add: dict_wf_def drop_map [symmetric])
  with k False show ?thesis unfolding txs_def [symmetric] by (auto simp: pending_ok_def c1_def)
qed

text \<open>
  C25. Adding a transaction to the pending cache always returns, keeps the recorded cost equal to the
  sum of the costs and within the limit, and drops the oldest transactions, and no more of them than
  needed.
\<close>

theorem pending_add_bounded:
  assumes "pending_ok c" and "0 \<le> cache_max_total_cost c"
  shows "\<exists>c'. pending_add item c = cret c' \<and> pending_ok c' \<and> cache_max_total_cost c' = cache_max_total_cost c \<and>
    (if dmem (mi_spend_bundle_name item) (pending_txs c) then c' = c
     else (\<exists>k. pending_txs c' = drop k (pending_txs c @ [(mi_spend_bundle_name item, item)]) \<and>
       (\<forall>j < k. items_cost (drop j (pending_txs c @ [(mi_spend_bundle_name item, item)])) > cache_max_total_cost c)))"
  by (rule pending_add_ok [OF assms])

definition sample_item :: "int \<Rightarrow> int \<Rightarrow> bytes32 \<Rightarrow> unit MempoolItem" where
  "sample_item fee cost n = \<lparr>mi_payload = (), mi_fee = fee, mi_cost = cost, mi_spend_bundle_name = n,
     mi_additions = [], mi_removals = []\<rparr>"

definition sample_pending :: "unit PendingTxCache" where
  "sample_pending = \<lparr>cache_max_total_cost = 10, cache_cost = 9,
     pending_txs = [([1], sample_item 1 4 [1]), ([2], sample_item 1 5 [2])]\<rparr>"

theorem pending_add_bounded_witness:
  "pending_ok sample_pending \<and>
   (\<exists>c'. pending_add (sample_item 1 3 [3]) sample_pending = cret c' \<and>
     pending_txs c' = [([2], sample_item 1 5 [2]), ([3], sample_item 1 3 [3])])"
proof -
  have ok: "pending_ok sample_pending" by code_simp
  have m: "0 \<le> cache_max_total_cost sample_pending" by code_simp
  define txs where "txs = [([1], sample_item 1 4 [1]), ([2], sample_item 1 5 [2]), ([3 :: byte], sample_item 1 3 [3])]"
  have txs: "pending_txs sample_pending @ [(mi_spend_bundle_name (sample_item 1 3 [3]), sample_item 1 3 [3])] = txs"
    by (simp add: sample_pending_def sample_item_def txs_def)
  have new: "\<not> dmem (mi_spend_bundle_name (sample_item 1 3 [3])) (pending_txs sample_pending)"
    by code_simp
  obtain c' k where c': "pending_add (sample_item 1 3 [3]) sample_pending = cret c'" "pending_ok c'"
    "pending_txs c' = drop k txs" "\<forall>j < k. items_cost (drop j txs) > cache_max_total_cost sample_pending"
    "cache_max_total_cost c' = cache_max_total_cost sample_pending"
    using pending_add_bounded [OF ok m, of "sample_item 1 3 [3]"] new unfolding txs by auto
  have lim: "cache_max_total_cost c' = 10"
    using c'(5) by (simp add: sample_pending_def)
  have "items_cost (drop k txs) \<le> 10" using c'(2,3) lim by (simp add: pending_ok_def)
  moreover have "\<not> items_cost (drop 0 txs) \<le> 10" by (simp add: txs_def sample_item_def)
  ultimately have "k \<noteq> 0" by metis
  moreover have "\<not> 1 < k" using c'(4) by (auto simp: txs_def sample_item_def sample_pending_def)
  ultimately have "k = 1" by simp
  with ok c'(1,3) show ?thesis by (auto simp: txs_def)
qed

end
