(* ===== verification/Gold_Mempool_Correct.thy ===== *)
theory Gold_Mempool_Correct
  imports Gold_Node_State_Correct
begin

text \<open>
  The pool of transactions: its indexes stay coherent, a transaction that fits gets in at the expense of
  the lowest fee rates, and the minimum fee rate is the threshold of that eviction.
\<close>

section \<open>The indexes of the pool\<close>

text \<open>
  An index maps the name of every coin an item adds (or removes) to that item, and nothing else. The
  items are also grouped by fee rate, with no empty group.
\<close>

definition index_ok :: "(Coin \<Rightarrow> bytes32) \<Rightarrow> ('p MempoolItem \<Rightarrow> Coin list) \<Rightarrow>
    (bytes32, 'p MempoolItem) dict \<Rightarrow> (bytes32, 'p MempoolItem) dict \<Rightarrow> bool" where
  "index_ok name sel sp d = (dict_wf d \<and>
     (\<forall>k i. dget d k = Some i \<longleftrightarrow> dget sp (item_name i) = Some i \<and> k \<in> name ` set (sel i)) \<and>
     (\<forall>n i. dget sp n = Some i \<longrightarrow> distinct (map name (sel i))))"

definition rates_ok :: "(bytes32, 'p MempoolItem) dict \<Rightarrow>
    (pyfloat, (bytes32, 'p MempoolItem) dict) dict \<Rightarrow> bool" where
  "rates_ok sp ss = (dict_wf ss \<and> (\<forall>f d. dget ss f = Some d \<longrightarrow> d \<noteq> [] \<and> dict_wf d) \<and>
     (\<forall>f n i. (\<exists>d. dget ss f = Some d \<and> dget d n = Some i) \<longleftrightarrow> dget sp n = Some i \<and> fee_per_cost i = Inr f))"

definition mempool_ok :: "(Coin \<Rightarrow> bytes32) \<Rightarrow> 'p Mempool \<Rightarrow> bool" where
  "mempool_ok name m = (dict_wf (mp_spends m) \<and>
     (\<forall>n i. dget (mp_spends m) n = Some i \<longrightarrow> item_name i = n \<and> 0 < mi_cost i) \<and>
     index_ok name mi_additions (mp_spends m) (mp_additions m) \<and>
     index_ok name mi_removals (mp_spends m) (mp_removals m) \<and>
     rates_ok (mp_spends m) (mp_sorted_spends m) \<and>
     total_mempool_cost m = items_cost (mp_spends m))"

text \<open>What the sorted dictionary documents: the same items, in the order of their keys.\<close>

definition items_sorted :: "'p sorted_items \<Rightarrow> bool" where
  "items_sorted items = (\<forall>d. dict_wf d \<longrightarrow> set (items d) = set d \<and> sorted (map fst (items d)) \<and> dict_wf (items d))"

lemma mempool_new_ok: "mempool_ok name (mempool_new c)"
  by (simp add: mempool_ok_def mempool_new_def index_ok_def rates_ok_def)

lemma del_coins_present:
  assumes "distinct (map name cs)" and "\<forall>c \<in> set cs. dmem (name c) d"
  shows "\<exists>d'. del_coins name cs d = Inr d' \<and> (dict_wf d \<longrightarrow> dict_wf d') \<and>
    (\<forall>k. dget d' k = (if k \<in> name ` set cs then None else dget d k))"
  using assms
proof (induction cs arbitrary: d)
  case Nil
  then show ?case by (simp add: del_coins_def)
next
  case (Cons c cs)
  have "name c' \<noteq> name c" if "c' \<in> set cs" for c'
    using Cons.prems(1) that by (metis distinct.simps(2) image_eqI list.set_map list.simps(9))
  with Cons.prems(2) have "\<forall>c' \<in> set cs. dmem (name c') (ddel (name c) d)" by simp
  then obtain d' where d': "del_coins name cs (ddel (name c) d) = Inr d'"
    "dict_wf (ddel (name c) d) \<longrightarrow> dict_wf d'"
    "\<forall>k. dget d' k = (if k \<in> name ` set cs then None else dget (ddel (name c) d) k)"
    using Cons.IH [of "ddel (name c) d"] Cons.prems(1) by auto
  have "del_coins name (c # cs) d = Inr d'"
    using d'(1) Cons.prems(2) by (simp add: del_coins_def ddel_res_present)
  moreover have "dict_wf d \<longrightarrow> dict_wf d'" using d'(2) by simp
  moreover have "dget d' k = (if k \<in> name ` set (c # cs) then None else dget d k)" for k
    using d'(3) [rule_format, of k] by simp
  ultimately show ?case by (intro exI [of _ d'] conjI allI)
qed

lemma index_remove:
  assumes ix: "index_ok name sel sp d" and i: "dget sp (item_name i) = Some i"
  shows "\<exists>d'. del_coins name (sel i) d = Inr d' \<and> index_ok name sel (ddel (item_name i) sp) d'"
proof -
  have iff: "dget d k = Some j \<longleftrightarrow> dget sp (item_name j) = Some j \<and> k \<in> name ` set (sel j)" for k j
    using ix by (simp add: index_ok_def)
  have "dmem (name c) d" if "c \<in> set (sel i)" for c
  proof -
    have "dget d (name c) = Some i" using iff [of "name c" i] i that by simp
    then show ?thesis unfolding dmem_dget by blast
  qed
  moreover have "distinct (map name (sel i))" using ix i unfolding index_ok_def by blast
  ultimately obtain d' where d': "del_coins name (sel i) d = Inr d'" "dict_wf d \<longrightarrow> dict_wf d'"
    "\<forall>k. dget d' k = (if k \<in> name ` set (sel i) then None else dget d k)"
    using del_coins_present [of name "sel i" d] by blast
  have "dget d' k = Some j \<longleftrightarrow> dget (ddel (item_name i) sp) (item_name j) = Some j \<and> k \<in> name ` set (sel j)" for k j
  proof (cases "item_name j = item_name i")
    case True
    have "dget d' k \<noteq> Some j"
    proof
      assume d'k: "dget d' k = Some j"
      then have k: "k \<notin> name ` set (sel i)" "dget d k = Some j" using d'(3) [rule_format, of k] by (simp_all split: if_splits)
      from k(2) have "dget sp (item_name j) = Some j" "k \<in> name ` set (sel j)" using iff [of k j] by simp_all
      with True i k(1) show False by simp
    qed
    with True show ?thesis by simp
  next
    case False
    have "dget d k = Some i" if "k \<in> name ` set (sel i)" using iff [of k i] i that by simp
    then have "dget d' k = Some j \<longleftrightarrow> dget d k = Some j"
      using d'(3) [rule_format, of k] False by (cases "k \<in> name ` set (sel i)") auto
    with False iff [of k j] show ?thesis by simp
  qed
  moreover have "dict_wf d'" using d'(2) ix by (simp add: index_ok_def)
  moreover have "distinct (map name (sel j))" if "dget (ddel (item_name i) sp) n = Some j" for n j
  proof -
    from that have "dget sp n = Some j" by (simp split: if_splits)
    with ix show ?thesis unfolding index_ok_def by blast
  qed
  ultimately have "index_ok name sel (ddel (item_name i) sp) d'"
    unfolding index_ok_def by (intro conjI allI impI)
  with d'(1) show ?thesis by blast
qed

lemma rates_remove:
  assumes r: "rates_ok sp ss" and i: "dget sp n = Some i" "fee_per_cost i = Inr f"
  shows "\<exists>dic. dget ss f = Some dic \<and> dmem n dic \<and>
    rates_ok (ddel n sp) (if ddel n dic = [] then ddel f ss else dput f (ddel n dic) ss)"
proof -
  have iff: "(\<exists>d. dget ss f = Some d \<and> dget d n = Some i) \<longleftrightarrow> dget sp n = Some i \<and> fee_per_cost i = Inr f" for f n i
    using r by (simp add: rates_ok_def)
  obtain dic where dic: "dget ss f = Some dic" "dget dic n = Some i" using iff [of f n i] i by blast
  have wf: "dict_wf ss" "\<And>f d. dget ss f = Some d \<Longrightarrow> d \<noteq> [] \<and> dict_wf d" using r by (auto simp: rates_ok_def)
  define ss' where "ss' = (if ddel n dic = [] then ddel f ss else dput f (ddel n dic) ss)"
  have lookup: "(\<exists>d. dget ss' f' = Some d \<and> dget d n' = Some j) \<longleftrightarrow>
      (\<exists>d. dget ss f' = Some d \<and> dget d n' = Some j) \<and> \<not> (f' = f \<and> n' = n)" for f' n' j
  proof -
    have "ddel n dic = [] \<Longrightarrow> n' \<noteq> n \<Longrightarrow> dget dic n' = None"
      using dget_ddel [of n dic n'] by simp
    with dic show ?thesis by (auto simp: ss'_def)
  qed
  have "n' \<noteq> n \<or> f' = f" if "dget sp n' = Some j" "fee_per_cost j = Inr f'" for n' j f'
    using that i by auto
  with iff have "(\<exists>d. dget ss' f' = Some d \<and> dget d n' = Some j) \<longleftrightarrow>
      dget (ddel n sp) n' = Some j \<and> fee_per_cost j = Inr f'" for f' n' j
    unfolding lookup by auto
  moreover have "dict_wf ss'" using wf(1) by (simp add: ss'_def)
  moreover have "d \<noteq> [] \<and> dict_wf d" if "dget ss' f' = Some d" for f' d
    using that wf(2) [of f' d] wf(2) [OF dic(1)] by (auto simp: ss'_def split: if_splits)
  ultimately have "rates_ok (ddel n sp) ss'" by (simp add: rates_ok_def)
  with dic show ?thesis by (auto simp: ss'_def dmem_dget)
qed

lemma items_cost_ddel: "dict_wf d \<Longrightarrow> dget d n = Some i \<Longrightarrow> items_cost (ddel n d) = items_cost d - mi_cost i"
  by (induction d) (auto simp: ddel_absent split: if_splits)

lemma items_cost_nonneg: "(\<And>n i. (n, i) \<in> set d \<Longrightarrow> 0 < mi_cost i) \<Longrightarrow> 0 \<le> items_cost d"
proof (induction d)
  case (Cons q d)
  from Cons.IH have "0 \<le> items_cost d" using Cons.prems by (meson list.set_intros(2))
  moreover have "0 < mi_cost (snd q)" using Cons.prems [of "fst q" "snd q"] by simp
  ultimately show ?case by simp
qed simp

lemma fee_per_cost_defined: "0 < mi_cost i \<Longrightarrow> \<exists>f. fee_per_cost i = Inr f"
  by (simp add: fee_per_cost_def true_div_def)

lemma mempool_okD:
  assumes "mempool_ok name m"
  shows "dict_wf (mp_spends m)" "\<And>n i. dget (mp_spends m) n = Some i \<Longrightarrow> item_name i = n \<and> 0 < mi_cost i"
    "index_ok name mi_additions (mp_spends m) (mp_additions m)"
    "index_ok name mi_removals (mp_spends m) (mp_removals m)"
    "rates_ok (mp_spends m) (mp_sorted_spends m)" "total_mempool_cost m = items_cost (mp_spends m)"
  using assms by (simp_all add: mempool_ok_def)

lemma remove_ok:
  assumes ok: "mempool_ok name m" and i: "dget (mp_spends m) (item_name i) = Some i"
  shows "\<exists>m'. remove_from_pool name i m = Inr m' \<and> mempool_ok name m' \<and>
    mp_spends m' = ddel (item_name i) (mp_spends m) \<and> max_size_in_cost m' = max_size_in_cost m"
proof -
  let ?sp = "ddel (item_name i) (mp_spends m)"
  note ok = mempool_okD [OF ok]
  obtain f where f: "fee_per_cost i = Inr f" using ok(2) [OF i] fee_per_cost_defined [of i] by blast
  obtain rs where rs: "del_coins name (mi_removals i) (mp_removals m) = Inr rs" "index_ok name mi_removals ?sp rs"
    using index_remove [OF ok(4) i] by blast
  obtain as where as: "del_coins name (mi_additions i) (mp_additions m) = Inr as" "index_ok name mi_additions ?sp as"
    using index_remove [OF ok(3) i] by blast
  obtain dic where dic: "dget (mp_sorted_spends m) f = Some dic" "dmem (item_name i) dic"
    and rates: "rates_ok ?sp (if ddel (item_name i) dic = [] then ddel f (mp_sorted_spends m)
       else dput f (ddel (item_name i) dic) (mp_sorted_spends m))"
    using rates_remove [OF ok(5) i f] by blast
  have cost: "total_mempool_cost m - mi_cost i = items_cost ?sp"
    using ok(6) items_cost_ddel [OF ok(1) i] by simp
  have nn: "0 \<le> items_cost ?sp"
  proof (rule items_cost_nonneg)
    fix n j assume "(n, j) \<in> set ?sp"
    then have "(n, j) \<in> set (mp_spends m)" by (simp add: set_ddel)
    from ok(2) [OF dict_wf_dget [OF ok(1) this]] show "0 < mi_cost j" by simp
  qed
  have mem: "dmem (item_name i) (mp_spends m)" using i unfolding dmem_dget by blast
  define m' where "m' = m\<lparr>mp_removals := rs, mp_additions := as, mp_spends := ?sp,
    mp_sorted_spends := (if ddel (item_name i) dic = [] then ddel f (mp_sorted_spends m)
       else dput f (ddel (item_name i) dic) (mp_sorted_spends m)),
    total_mempool_cost := items_cost ?sp\<rparr>"
  have run: "remove_from_pool name i m = Inr m'"
    unfolding remove_from_pool_def rs(1) as(1) f rbind_Inr ddel_res_present [OF mem] dic(1) from_key_def option.case
      ddel_res_present [OF dic(2)] Let_def cost length_0_conv m'_def
    using nn by (simp add: py_assert_def)
  have items: "item_name j = n \<and> 0 < mi_cost j" if "dget ?sp n = Some j" for n j
  proof -
    have "dget (mp_spends m) n = Some j" using that by (simp split: if_splits)
    then show ?thesis by (rule ok(2))
  qed
  have fields: "mp_spends m' = ?sp" "mp_additions m' = as" "mp_removals m' = rs" "total_mempool_cost m' = items_cost ?sp"
    "mp_sorted_spends m' = (if ddel (item_name i) dic = [] then ddel f (mp_sorted_spends m)
       else dput f (ddel (item_name i) dic) (mp_sorted_spends m))" "max_size_in_cost m' = max_size_in_cost m"
    by (simp_all add: m'_def)
  have "mempool_ok name m'" unfolding mempool_ok_def fields
    by (intro conjI allI impI refl rs(2) as(2) rates dict_wf_ddel [OF ok(1)]) (use items in blast)+
  with run show ?thesis using fields(1,6) by blast
qed

text \<open>An item that may enter: new, of positive cost, with coins that no item of the pool adds or removes.\<close>

definition fresh_item :: "(Coin \<Rightarrow> bytes32) \<Rightarrow> 'p MempoolItem \<Rightarrow> 'p Mempool \<Rightarrow> bool" where
  "fresh_item name i m = (\<not> dmem (item_name i) (mp_spends m) \<and> 0 < mi_cost i \<and>
     distinct (map name (mi_additions i)) \<and> (\<forall>c \<in> set (mi_additions i). \<not> dmem (name c) (mp_additions m)) \<and>
     distinct (map name (mi_removals i)) \<and> (\<forall>c \<in> set (mi_removals i). \<not> dmem (name c) (mp_removals m)))"

lemma dget_fold_put:
  "dget (fold (\<lambda>c. dput (name c) i) cs d) k = (if k \<in> name ` set cs then Some i else dget d k)"
  by (induction cs arbitrary: d) auto

lemma dict_wf_fold_put: "dict_wf d \<Longrightarrow> dict_wf (fold (\<lambda>c. dput (name c) i) cs d)"
  by (induction cs arbitrary: d) auto

lemma index_insert:
  assumes ix: "index_ok name sel sp d" and new: "\<not> dmem (item_name i) sp" and dist: "distinct (map name (sel i))"
    and free: "\<forall>c \<in> set (sel i). \<not> dmem (name c) d"
  shows "index_ok name sel (dput (item_name i) i sp) (fold (\<lambda>c. dput (name c) i) (sel i) d)"
proof -
  have iff: "dget d k = Some j \<longleftrightarrow> dget sp (item_name j) = Some j \<and> k \<in> name ` set (sel j)" for k j
    using ix by (simp add: index_ok_def)
  have "dget (fold (\<lambda>c. dput (name c) i) (sel i) d) k = Some j \<longleftrightarrow>
      dget (dput (item_name i) i sp) (item_name j) = Some j \<and> k \<in> name ` set (sel j)" for k j
  proof (cases "k \<in> name ` set (sel i)")
    case True
    then have none: "dget d k = None" using free by (auto simp: dget_None_iff)
    have "\<not> (dget sp (item_name j) = Some j \<and> k \<in> name ` set (sel j))"
      using iff [of k j] none by simp
    with True show ?thesis by (auto simp: dget_fold_put)
  next
    case False
    have "item_name j = item_name i \<Longrightarrow> dget d k \<noteq> Some j"
      using iff [of k j] new by (simp add: not_dmem_dget)
    with False iff [of k j] show ?thesis by (auto simp: dget_fold_put)
  qed
  moreover have "distinct (map name (sel j))" if "dget (dput (item_name i) i sp) n = Some j" for n j
  proof (cases "n = item_name i")
    case False
    with that have "dget sp n = Some j" by simp
    with ix show ?thesis unfolding index_ok_def by blast
  qed (use that dist in simp)
  moreover have "dict_wf d" using ix by (simp add: index_ok_def)
  ultimately show ?thesis unfolding index_ok_def by (intro conjI allI impI dict_wf_fold_put)
qed

lemma dput_not_Nil: "dput k v d \<noteq> []"
  by (cases d) (auto split: if_splits)

lemma rates_insert:
  assumes r: "rates_ok sp ss" and new: "\<not> dmem n sp" and f: "fee_per_cost i = Inr f"
  shows "rates_ok (dput n i sp) (dput f (dput n i (case dget ss f of None \<Rightarrow> [] | Some d \<Rightarrow> d)) ss)"
proof -
  have iff: "(\<exists>d. dget ss f = Some d \<and> dget d n = Some i) \<longleftrightarrow> dget sp n = Some i \<and> fee_per_cost i = Inr f" for f n i
    using r by (simp add: rates_ok_def)
  have wf: "dict_wf ss" "\<And>f d. dget ss f = Some d \<Longrightarrow> d \<noteq> [] \<and> dict_wf d" using r by (auto simp: rates_ok_def)
  define dic where "dic = (case dget ss f of None \<Rightarrow> [] | Some d \<Rightarrow> d)"
  have dic: "dget dic n' = Some j \<longleftrightarrow> (\<exists>d. dget ss f = Some d \<and> dget d n' = Some j)" for n' j
    by (simp add: dic_def split: option.splits)
  have "(\<exists>d. dget (dput f (dput n i dic) ss) f' = Some d \<and> dget d n' = Some j) \<longleftrightarrow>
      dget (dput n i sp) n' = Some j \<and> fee_per_cost j = Inr f'" for f' n' j
  proof (cases "n' = n")
    case True
    have "\<not> (\<exists>d. dget ss f' = Some d \<and> dget d n = Some j)"
      using iff [of f' n j] new by (simp add: not_dmem_dget)
    with True f show ?thesis by auto
  next
    case False
    have "(\<exists>d. dget (dput f (dput n i dic) ss) f' = Some d \<and> dget d n' = Some j) \<longleftrightarrow>
        (\<exists>d. dget ss f' = Some d \<and> dget d n' = Some j)"
      using False dic [of n' j] by (cases "f' = f") simp_all
    with False iff [of f' n' j] show ?thesis by simp
  qed
  moreover have "dict_wf dic" using wf(2) [of f] by (simp add: dic_def split: option.splits)
  then have "d \<noteq> [] \<and> dict_wf d" if "dget (dput f (dput n i dic) ss) f' = Some d" for f' d
    using that wf(2) [of f' d] dput_not_Nil [of n i dic] by (auto split: if_splits)
  ultimately show ?thesis unfolding rates_ok_def dic_def [symmetric] using wf(1)
    by (intro conjI allI impI dict_wf_dput) blast+
qed

lemma insert_ok:
  assumes ok: "mempool_ok name m" and new: "fresh_item name i m"
  shows "\<exists>m'. insert_item name i m = Inr m' \<and> mempool_ok name m' \<and>
    mp_spends m' = dput (item_name i) i (mp_spends m) \<and> max_size_in_cost m' = max_size_in_cost m \<and>
    total_mempool_cost m' = total_mempool_cost m + mi_cost i"
proof -
  note ok = mempool_okD [OF ok]
  note new = new [unfolded fresh_item_def]
  obtain f where f: "fee_per_cost i = Inr f" using new fee_per_cost_defined [of i] by blast
  define m' where "m' = m\<lparr>mp_spends := dput (item_name i) i (mp_spends m),
    mp_sorted_spends := dput f (dput (item_name i) i
      (case dget (mp_sorted_spends m) f of None \<Rightarrow> [] | Some d \<Rightarrow> d)) (mp_sorted_spends m),
    mp_additions := fold (\<lambda>c. dput (name c) i) (mi_additions i) (mp_additions m),
    mp_removals := fold (\<lambda>c. dput (name c) i) (mi_removals i) (mp_removals m),
    total_mempool_cost := total_mempool_cost m + mi_cost i\<rparr>"
  have run: "insert_item name i m = Inr m'" by (simp add: insert_item_def f m'_def Let_def)
  have cost: "total_mempool_cost m + mi_cost i = items_cost (dput (item_name i) i (mp_spends m))"
    using new ok(6) by (simp add: dput_new)
  have items: "item_name j = n \<and> 0 < mi_cost j" if "dget (dput (item_name i) i (mp_spends m)) n = Some j" for n j
  proof (cases "n = item_name i")
    case False
    with that have "dget (mp_spends m) n = Some j" by simp
    then show ?thesis by (rule ok(2))
  qed (use that new in simp)
  have "index_ok name mi_additions (mp_spends m') (mp_additions m')"
    using index_insert [OF ok(3)] new by (simp add: m'_def)
  moreover have "index_ok name mi_removals (mp_spends m') (mp_removals m')"
    using index_insert [OF ok(4)] new by (simp add: m'_def)
  moreover have "rates_ok (mp_spends m') (mp_sorted_spends m')"
    using rates_insert [OF ok(5) _ f] new by (simp add: m'_def)
  moreover have "total_mempool_cost m' = items_cost (mp_spends m')" using cost by (simp add: m'_def)
  moreover have "dict_wf (mp_spends m')" using dict_wf_dput [OF ok(1)] by (simp add: m'_def)
  moreover have "item_name j = n \<and> 0 < mi_cost j" if "dget (mp_spends m') n = Some j" for n j
    by (rule items) (use that in \<open>simp add: m'_def\<close>)
  ultimately have "mempool_ok name m'" unfolding mempool_ok_def by (intro conjI allI impI) blast+
  with run show ?thesis by (intro exI [of _ m'] conjI) (simp_all add: m'_def)
qed

section \<open>Eviction\<close>

lemma evict_lowest:
  assumes ok: "mempool_ok name m" and srt: "items_sorted items" and ne: "mp_spends m \<noteq> []"
  shows "\<exists>j m'. evict_body name items m = Inr m' \<and> mempool_ok name m' \<and>
    dget (mp_spends m) (item_name j) = Some j \<and> mp_spends m' = ddel (item_name j) (mp_spends m) \<and>
    max_size_in_cost m' = max_size_in_cost m \<and>
    (\<forall>n i f g. dget (mp_spends m) n = Some i \<longrightarrow> fee_per_cost j = Inr f \<longrightarrow> fee_per_cost i = Inr g \<longrightarrow> f \<le> g)"
proof -
  note okD = mempool_okD [OF ok]
  let ?ss = "mp_sorted_spends m"
  have iff: "(\<exists>d. dget ?ss f = Some d \<and> dget d n = Some i) \<longleftrightarrow> dget (mp_spends m) n = Some i \<and> fee_per_cost i = Inr f"
    for f n i using okD(5) by (simp add: rates_ok_def)
  have wf: "dict_wf ?ss" "\<And>f d. dget ?ss f = Some d \<Longrightarrow> d \<noteq> [] \<and> dict_wf d" using okD(5) by (auto simp: rates_ok_def)
  have st: "set (items ?ss) = set ?ss" "sorted (map fst (items ?ss))" using srt wf(1) by (auto simp: items_sorted_def)
  obtain n0 i0 sp where "mp_spends m = (n0, i0) # sp" using ne by (cases "mp_spends m") auto
  then have i0: "dget (mp_spends m) n0 = Some i0" by simp
  obtain f0 where "fee_per_cost i0 = Inr f0" using okD(2) [OF i0] fee_per_cost_defined [of i0] by blast
  with i0 iff [of f0 n0 i0] obtain d0 where "dget ?ss f0 = Some d0" by blast
  then have "items ?ss \<noteq> []" using st(1) dget_in_set [of ?ss f0 d0] by auto
  then obtain f val rest where hd: "items ?ss = (f, val) # rest" by (cases "items ?ss") auto
  have val: "dget ?ss f = Some val" using st(1) hd dict_wf_dget [OF wf(1), of f val] by auto
  then obtain n j d where v: "val = (n, j) # d" using wf(2) by (cases val) auto
  with val iff [of f n j] have j: "dget (mp_spends m) n = Some j" "fee_per_cost j = Inr f" by auto
  have nm: "item_name j = n" using okD(2) [OF j(1)] by simp
  obtain m' where m': "remove_from_pool name j m = Inr m'" "mempool_ok name m'"
    "mp_spends m' = ddel (item_name j) (mp_spends m)" "max_size_in_cost m' = max_size_in_cost m"
    using remove_ok [OF ok, of j] j(1) nm by blast
  have run: "evict_body name items m = Inr m'"
    using m'(1) by (simp add: evict_body_def hd py_nth_def v dvalues_def)
  have low: "f \<le> g" if prem: "dget (mp_spends m) n' = Some i" "fee_per_cost i = Inr g" for n' i g
  proof -
    obtain d' where "dget ?ss g = Some d'" using iff [of g n' i] prem by blast
    then have "(g, d') \<in> set (items ?ss)" using st(1) dget_in_set [of ?ss g d'] by blast
    then show ?thesis using st(2) hd by auto
  qed
  from run m' j nm low show ?thesis by (intro exI [of _ j] exI [of _ m'] conjI) auto
qed

definition evicted_from :: "'p Mempool \<Rightarrow> 'p Mempool \<Rightarrow> bool" where
  "evicted_from m0 m = (max_size_in_cost m = max_size_in_cost m0 \<and> dget (mp_spends m) \<subseteq>\<^sub>m dget (mp_spends m0) \<and>
     (\<forall>n i n' i' f f'. dget (mp_spends m0) n = Some i \<longrightarrow> dget (mp_spends m) n = None \<longrightarrow>
        dget (mp_spends m) n' = Some i' \<longrightarrow> fee_per_cost i = Inr f \<longrightarrow> fee_per_cost i' = Inr f' \<longrightarrow> f \<le> f'))"

lemma evicted_step:
  assumes ev: "evicted_from m0 m" and j: "dget (mp_spends m) (item_name j) = Some j"
    and m': "mp_spends m' = ddel (item_name j) (mp_spends m)" "max_size_in_cost m' = max_size_in_cost m"
    and low: "\<forall>n i f g. dget (mp_spends m) n = Some i \<longrightarrow> fee_per_cost j = Inr f \<longrightarrow> fee_per_cost i = Inr g \<longrightarrow> f \<le> g"
  shows "evicted_from m0 m'"
proof -
  have sub: "dget (mp_spends m) \<subseteq>\<^sub>m dget (mp_spends m0)" using ev by (simp add: evicted_from_def)
  have less: "dget (mp_spends m') n = Some i \<Longrightarrow> dget (mp_spends m) n = Some i" for n i
    by (simp add: m'(1) split: if_splits)
  have "f \<le> f'" if "dget (mp_spends m0) n = Some i" "dget (mp_spends m') n = None"
    "dget (mp_spends m') n' = Some i'" "fee_per_cost i = Inr f" "fee_per_cost i' = Inr f'" for n i n' i' f f'
  proof (cases "dget (mp_spends m) n")
    case None
    with ev that(1,4,5) less [OF that(3)] show ?thesis unfolding evicted_from_def by blast
  next
    case (Some i2)
    then have "n = item_name j" using that(2) by (simp add: m'(1) split: if_splits)
    moreover have "dget (mp_spends m0) (item_name j) = Some j" using sub j unfolding map_le_def by force
    ultimately have "i = j" using that(1) by simp
    with low less [OF that(3)] that(4,5) show ?thesis by blast
  qed
  moreover have "dget (mp_spends m') \<subseteq>\<^sub>m dget (mp_spends m0)"
    using sub by (force simp: map_le_def m'(1) split: if_splits)
  ultimately show ?thesis using ev m'(2) unfolding evicted_from_def by (intro conjI allI impI) auto
qed

lemma evict_loop:
  assumes ok: "mempool_ok name m" and srt: "items_sorted items" and fits: "cost \<le> max_size_in_cost m"
  shows "\<exists>m'. cwhile (at_full_capacity cost) (evict_body name items) m = cret m' \<and> mempool_ok name m' \<and>
    evicted_from m m' \<and> \<not> at_full_capacity cost m'"
proof -
  let ?I = "\<lambda>s. mempool_ok name s \<and> evicted_from m s"
  have step: "\<exists>s'. evict_body name items s = Inr s' \<and> ?I s' \<and> length (mp_spends s') < length (mp_spends s)"
    if I: "?I s" and full: "at_full_capacity cost s" for s
  proof -
    have "mp_spends s \<noteq> []"
      using full fits I mempool_okD(6) [of name s] by (auto simp: at_full_capacity_def evicted_from_def)
    with I srt obtain j s' where s': "evict_body name items s = Inr s'" "mempool_ok name s'"
      "dget (mp_spends s) (item_name j) = Some j" "mp_spends s' = ddel (item_name j) (mp_spends s)"
      "max_size_in_cost s' = max_size_in_cost s"
      "\<forall>n i f g. dget (mp_spends s) n = Some i \<longrightarrow> fee_per_cost j = Inr f \<longrightarrow> fee_per_cost i = Inr g \<longrightarrow> f \<le> g"
      using evict_lowest [of name s items] by blast
    have "dmem (item_name j) (mp_spends s)" using s'(3) unfolding dmem_dget by blast
    then have "length (mp_spends s') < length (mp_spends s)"
      using length_ddel [of "mp_spends s" "item_name j"] I mempool_okD(1) [of name s] s'(4) by simp
    with s'(1,2) evicted_step [OF _ s'(3-6)] I show ?thesis by blast
  qed
  have start: "?I m" using ok by (auto simp: evicted_from_def)
  have "(\<exists>s'. cwhile (at_full_capacity cost) (evict_body name items) m = cret s' \<and> ?I s' \<and> \<not> at_full_capacity cost s') \<or>
    (\<exists>s' e. cwhile (at_full_capacity cost) (evict_body name items) m = craise e \<and> ?I s' \<and> at_full_capacity cost s' \<and>
      evict_body name items s' = Inl e)"
    by (rule cwhile_total [where I = ?I and m = "\<lambda>s. length (mp_spends s)"]) (use start step in fastforce)+
  with step show ?thesis by fastforce
qed

lemma fresh_evicted:
  assumes ok: "mempool_ok name m" "mempool_ok name m'" and ev: "evicted_from m m'" and new: "fresh_item name i m"
  shows "fresh_item name i m'"
proof -
  have sub: "dget (mp_spends m') n = Some j \<Longrightarrow> dget (mp_spends m) n = Some j" for n j
    using ev by (auto simp: evicted_from_def map_le_def dom_def)
  have index: "\<not> dmem k d'" if "index_ok name sel (mp_spends m) d" "index_ok name sel (mp_spends m') d'" "\<not> dmem k d"
    for sel d d' k
  proof
    assume "dmem k d'"
    then obtain j where "dget d' k = Some j" unfolding dmem_dget by blast
    then have "dget (mp_spends m') (item_name j) = Some j" "k \<in> name ` set (sel j)"
      using that(2) by (simp_all add: index_ok_def)
    then have "dget d k = Some j" using that(1) sub by (simp add: index_ok_def)
    with that(3) show False unfolding dmem_dget by blast
  qed
  have "\<not> dmem (item_name i) (mp_spends m')" using new sub unfolding fresh_item_def dmem_dget by blast
  with new index [OF mempool_okD(3) [OF ok(1)] mempool_okD(3) [OF ok(2)]]
    index [OF mempool_okD(4) [OF ok(1)] mempool_okD(4) [OF ok(2)]] show ?thesis
    unfolding fresh_item_def by blast
qed

lemma add_to_pool_ok:
  assumes "mempool_ok name m" and "items_sorted items" and "fresh_item name item m"
    and "mi_cost item \<le> max_size_in_cost m"
  shows "\<exists>m'. add_to_pool name items item m = cret m' \<and> mempool_ok name m' \<and>
    max_size_in_cost m' = max_size_in_cost m \<and> total_mempool_cost m' \<le> max_size_in_cost m' \<and>
    dget (mp_spends m') (item_name item) = Some item \<and>
    (\<forall>n i. dget (mp_spends m') n = Some i \<longrightarrow> n = item_name item \<or> dget (mp_spends m) n = Some i) \<and>
    (\<forall>n i n' i' f f'. dget (mp_spends m) n = Some i \<longrightarrow> dget (mp_spends m') n = None \<longrightarrow>
       dget (mp_spends m') n' = Some i' \<longrightarrow> n' \<noteq> item_name item \<longrightarrow>
       fee_per_cost i = Inr f \<longrightarrow> fee_per_cost i' = Inr f' \<longrightarrow> f \<le> f')"
proof -
  obtain m1 where m1: "cwhile (at_full_capacity (mi_cost item)) (evict_body name items) m = cret m1"
    "mempool_ok name m1" "evicted_from m m1" "\<not> at_full_capacity (mi_cost item) m1"
    using evict_loop [OF assms(1,2,4)] by blast
  have "fresh_item name item m1" by (rule fresh_evicted [OF assms(1) m1(2,3) assms(3)])
  then obtain m' where m': "insert_item name item m1 = Inr m'" "mempool_ok name m'"
    "mp_spends m' = dput (item_name item) item (mp_spends m1)" "max_size_in_cost m' = max_size_in_cost m1"
    "total_mempool_cost m' = total_mempool_cost m1 + mi_cost item"
    using insert_ok [OF m1(2)] by blast
  have run: "add_to_pool name items item m = cret m'" by (simp add: add_to_pool_def m1(1) m'(1))
  have sub: "dget (mp_spends m1) n = Some i \<Longrightarrow> dget (mp_spends m) n = Some i" for n i
    using m1(3) by (auto simp: evicted_from_def map_le_def dom_def)
  have order: "f \<le> f'" if "dget (mp_spends m) n = Some i" "dget (mp_spends m') n = None"
    "dget (mp_spends m') n' = Some i'" "n' \<noteq> item_name item" "fee_per_cost i = Inr f" "fee_per_cost i' = Inr f'"
    for n i n' i' f f'
  proof -
    have "dget (mp_spends m1) n = None" "dget (mp_spends m1) n' = Some i'"
      using that(2-4) by (simp_all add: m'(3) split: if_splits)
    with m1(3) that(1,5,6) show ?thesis unfolding evicted_from_def by blast
  qed
  have "total_mempool_cost m' \<le> max_size_in_cost m'" using m1(4) m'(4,5) by (simp add: at_full_capacity_def)
  moreover have "max_size_in_cost m' = max_size_in_cost m" using m'(4) m1(3) by (simp add: evicted_from_def)
  moreover have "dget (mp_spends m') (item_name item) = Some item" by (simp add: m'(3))
  moreover have "n = item_name item \<or> dget (mp_spends m) n = Some i" if "dget (mp_spends m') n = Some i" for n i
    using that sub [of n i] by (auto simp: m'(3) split: if_splits)
  ultimately show ?thesis using run m'(2) order by (intro exI [of _ m'] conjI allI impI) blast+
qed

text \<open>
  C8. Adding a new transaction of positive cost that fits in an empty pool always ends and the pool
  then holds it. The pool stays coherent: the indexes of coins and of fee rates hold exactly its
  items and the recorded cost is the sum of theirs, at most the limit. Every other item was there
  before, and no item was dropped while one with a lower fee rate was kept.
\<close>

theorem add_to_pool_admits:
  assumes "mempool_ok name m" and "items_sorted items" and "fresh_item name item m"
    and "mi_cost item \<le> max_size_in_cost m"
  shows "\<exists>m'. add_to_pool name items item m = cret m' \<and> mempool_ok name m' \<and>
    max_size_in_cost m' = max_size_in_cost m \<and> total_mempool_cost m' \<le> max_size_in_cost m' \<and>
    dget (mp_spends m') (item_name item) = Some item \<and>
    (\<forall>n i. dget (mp_spends m') n = Some i \<longrightarrow> n = item_name item \<or> dget (mp_spends m) n = Some i) \<and>
    (\<forall>n i n' i' f f'. dget (mp_spends m) n = Some i \<longrightarrow> dget (mp_spends m') n = None \<longrightarrow>
       dget (mp_spends m') n' = Some i' \<longrightarrow> n' \<noteq> item_name item \<longrightarrow>
       fee_per_cost i = Inr f \<longrightarrow> fee_per_cost i' = Inr f' \<longrightarrow> f \<le> f')"
  by (rule add_to_pool_ok [OF assms])

section \<open>The minimum fee rate\<close>

definition cost_with :: "(pyfloat \<Rightarrow> bool) \<Rightarrow> 'p Mempool \<Rightarrow> int" where
  "cost_with P m = sum_list (map (\<lambda>q. mi_cost (snd q))
     (filter (\<lambda>q. case fee_per_cost (snd q) of Inl e \<Rightarrow> False | Inr g \<Rightarrow> P g) (mp_spends m)))"

definition listed_cost :: "(pyfloat \<Rightarrow> bool) \<Rightarrow> (pyfloat \<times> 'p MempoolItem) list \<Rightarrow> int" where
  "listed_cost P qs = sum_list (map (\<lambda>q. mi_cost (snd q)) (filter (\<lambda>q. P (fst q)) qs))"

lemma listed_cost_simps [simp]:
  "listed_cost P [] = 0" "listed_cost P (q # qs) = (if P (fst q) then mi_cost (snd q) else 0) + listed_cost P qs"
  by (simp_all add: listed_cost_def)

lemma listed_cost_mono:
  assumes "\<forall>q \<in> set qs. 0 < mi_cost (snd q)" and "\<And>x. P x \<Longrightarrow> Q x"
  shows "listed_cost P qs \<le> listed_cost Q qs"
  using assms by (induction qs) force+

lemma min_rate_search_spec:
  assumes "sorted (map fst qs)" and "\<forall>q \<in> set qs. 0 < mi_cost (snd q)" and "current = listed_cost (\<lambda>x. True) qs"
    and "cost \<le> cap" and "cap < current + cost"
  shows "\<exists>f \<in> fst ` set qs. min_rate_search cost cap current qs = Inr f \<and>
    listed_cost (\<lambda>g. f < g) qs + cost \<le> cap \<and> cap < listed_cost (\<lambda>g. f \<le> g) qs + cost"
  using assms
proof (induction qs arbitrary: current)
  case (Cons q qs)
  obtain g i where q: "q = (g, i)" by (cases q)
  have cur: "current - mi_cost i = listed_cost (\<lambda>x. True) qs" using Cons.prems(3) q by simp
  have low: "\<forall>p \<in> set qs. g \<le> fst p" using Cons.prems(1) q by auto
  show ?case
  proof (cases "listed_cost (\<lambda>x. True) qs + cost \<le> cap")
    case True
    have "listed_cost (\<lambda>x. g < x) qs \<le> listed_cost (\<lambda>x. True) qs"
      by (rule listed_cost_mono) (use Cons.prems(2) in auto)
    moreover have "listed_cost (\<lambda>x. g \<le> x) qs = listed_cost (\<lambda>x. True) qs"
      using low by (simp add: listed_cost_def)
    ultimately show ?thesis using True Cons.prems(3,5) q cur by (intro bexI [of _ g]) auto
  next
    case False
    obtain f where f: "f \<in> fst ` set qs" "min_rate_search cost cap (listed_cost (\<lambda>x. True) qs) qs = Inr f"
      "listed_cost (\<lambda>g. f < g) qs + cost \<le> cap" "cap < listed_cost (\<lambda>g. f \<le> g) qs + cost"
      using Cons.IH [of "listed_cost (\<lambda>x. True) qs"] Cons.prems False by auto
    have "g \<le> f" using low f(1) by auto
    with f False q cur Cons.prems(2) show ?thesis by (intro bexI [of _ f]) auto
  qed
qed simp

definition listing :: "'p sorted_items \<Rightarrow> 'p Mempool \<Rightarrow> (pyfloat \<times> 'p MempoolItem) list" where
  "listing items m =
     concat (map (\<lambda>(fpc, spends). map (\<lambda>(n, item). (fpc, item)) spends) (items (mp_sorted_spends m)))"

lemma sorted_groups:
  "sorted (map fst gs) \<Longrightarrow> sorted (map fst (concat (map (\<lambda>(f, sp). map (\<lambda>(n, i). (f, i)) sp) gs)))"
  by (induction gs) (auto simp: sorted_append comp_def case_prod_unfold map_replicate_const)

definition triples :: "(pyfloat \<times> (bytes32, 'p MempoolItem) dict) list \<Rightarrow> (pyfloat \<times> bytes32 \<times> 'p MempoolItem) list" where
  "triples gs = concat (map (\<lambda>(f, sp). map (Pair f) sp) gs)"

lemma set_triples: "set (triples gs) = {(f, n, i). \<exists>sp. (f, sp) \<in> set gs \<and> (n, i) \<in> set sp}"
  by (force simp: triples_def)

lemma distinct_triples:
  "dict_wf gs \<Longrightarrow> \<forall>g \<in> set gs. dict_wf (snd g) \<Longrightarrow> distinct (triples gs)"
proof (induction gs)
  case (Cons g gs)
  obtain f sp where g: "g = (f, sp)" by (cases g)
  have "distinct sp" using Cons.prems(2) g by (simp add: dict_wf_def distinct_map)
  then have "distinct (map (Pair f) sp)" by (simp add: distinct_map inj_on_def)
  moreover have "set (map (Pair f) sp) \<inter> set (triples gs) = {}"
    using Cons.prems(1) g in_set_dmem [of f _ gs] by (auto simp: set_triples)
  moreover have "distinct (triples gs)" using Cons g by simp
  ultimately show ?case using g by (simp add: triples_def)
qed (simp add: triples_def)

lemma listing_triples: "listing items m = map (\<lambda>(f, n, i). (f, i)) (triples (items (mp_sorted_spends m)))"
  by (simp add: listing_def triples_def map_concat comp_def case_prod_unfold)

lemma listed_cost_listing:
  assumes ok: "mempool_ok name m" and srt: "items_sorted items"
  shows "listed_cost P (listing items m) = cost_with P m"
proof -
  note okD = mempool_okD [OF ok]
  let ?gs = "items (mp_sorted_spends m)"
  have iff: "(\<exists>d. dget (mp_sorted_spends m) f = Some d \<and> dget d n = Some i) \<longleftrightarrow>
      dget (mp_spends m) n = Some i \<and> fee_per_cost i = Inr f" for f n i using okD(5) by (simp add: rates_ok_def)
  have wf: "dict_wf (mp_sorted_spends m)" "\<And>f d. dget (mp_sorted_spends m) f = Some d \<Longrightarrow> dict_wf d"
    using okD(5) by (auto simp: rates_ok_def)
  have st: "set ?gs = set (mp_sorted_spends m)" "dict_wf ?gs" using srt wf(1) by (auto simp: items_sorted_def)
  have gd: "(f, d) \<in> set ?gs \<longleftrightarrow> dget (mp_sorted_spends m) f = Some d" for f d
    unfolding st(1) dict_wf_dget_iff [OF wf(1)] ..
  have "\<forall>g \<in> set ?gs. dict_wf (snd g)" using gd wf(2) by (metis prod.collapse)
  then have dist: "distinct (triples ?gs)" by (rule distinct_triples [OF st(2)])
  have mem: "(f, n, i) \<in> set (triples ?gs) \<longleftrightarrow> (n, i) \<in> set (mp_spends m) \<and> fee_per_cost i = Inr f" for f n i
  proof -
    have "(f, n, i) \<in> set (triples ?gs) \<longleftrightarrow> (\<exists>d. dget (mp_sorted_spends m) f = Some d \<and> dget d n = Some i)"
      unfolding set_triples by (simp add: gd) (metis dict_wf_dget_iff wf(2))
    then show ?thesis unfolding iff dict_wf_dget_iff [OF okD(1)] .
  qed
  let ?T = "{t \<in> set (triples ?gs). P (fst t)}"
  let ?S = "{q \<in> set (mp_spends m). case fee_per_cost (snd q) of Inl e \<Rightarrow> False | Inr g \<Rightarrow> P g}"
  have "snd ` ?T = ?S"
  proof (intro equalityI subsetI)
    fix q assume "q \<in> ?S"
    then obtain g where "q \<in> set (mp_spends m)" "fee_per_cost (snd q) = Inr g" "P g" by (auto split: sum.splits)
    then have "(g, q) \<in> ?T" using mem [of g "fst q" "snd q"] by simp
    then show "q \<in> snd ` ?T" by force
  qed (use mem in force)
  moreover have "inj_on snd ?T" using mem by (force simp: inj_on_def)
  ultimately have "(\<Sum>t \<in> ?T. mi_cost (snd (snd t))) = (\<Sum>q \<in> ?S. mi_cost (snd q))"
    using sum.reindex [of snd ?T "\<lambda>q. mi_cost (snd q)"] by (simp add: comp_def)
  moreover have "listed_cost P (listing items m) = (\<Sum>t \<in> ?T. mi_cost (snd (snd t)))"
    using sum_list_distinct_conv_sum_set [of "filter (\<lambda>t. P (fst t)) (triples ?gs)" "\<lambda>t. mi_cost (snd (snd t))"] dist
    by (simp add: listed_cost_def listing_triples filter_map comp_def case_prod_unfold)
  moreover have "distinct (mp_spends m)" using okD(1) by (simp add: dict_wf_def distinct_map)
  then have "cost_with P m = (\<Sum>q \<in> ?S. mi_cost (snd q))"
    unfolding cost_with_def by (subst sum_list_distinct_conv_sum_set) simp_all
  ultimately show ?thesis by simp
qed

lemma cost_with_all:
  assumes "mempool_ok name m"
  shows "cost_with (\<lambda>x. True) m = total_mempool_cost m"
proof -
  note okD = mempool_okD [OF assms]
  have "\<exists>g. fee_per_cost (snd q) = Inr g" if "q \<in> set (mp_spends m)" for q
  proof -
    have "dget (mp_spends m) (fst q) = Some (snd q)" using that dict_wf_dget [OF okD(1)] by simp
    from okD(2) [OF this] show ?thesis using fee_per_cost_defined by blast
  qed
  then have "filter (\<lambda>q. case fee_per_cost (snd q) of Inl e \<Rightarrow> False | Inr g \<Rightarrow> True) (mp_spends m) = mp_spends m"
    by (intro filter_True) force
  then show ?thesis using okD(6) by (simp add: cost_with_def items_cost_def)
qed

lemma listing_positive:
  assumes ok: "mempool_ok name m" and srt: "items_sorted items"
  shows "\<forall>q \<in> set (listing items m). 0 < mi_cost (snd q)"
proof
  fix q assume "q \<in> set (listing items m)"
  note okD = mempool_okD [OF ok]
  have wf: "dict_wf (mp_sorted_spends m)" "\<And>f d. dget (mp_sorted_spends m) f = Some d \<Longrightarrow> dict_wf d"
    using okD(5) by (auto simp: rates_ok_def)
  from \<open>q \<in> set (listing items m)\<close> obtain f n i sp where q: "q = (f, i)" "(f, sp) \<in> set (mp_sorted_spends m)" "(n, i) \<in> set sp"
    using srt wf(1) by (auto simp: listing_triples set_triples items_sorted_def)
  from q(2) have sp: "dget (mp_sorted_spends m) f = Some sp" by (rule dict_wf_dget [OF wf(1)])
  with q(3) have "dget sp n = Some i" using dict_wf_dget [OF wf(2)] by blast
  with sp okD(5) have "dget (mp_spends m) n = Some i" unfolding rates_ok_def by blast
  from okD(2) [OF this] q(1) show "0 < mi_cost (snd q)" by simp
qed

text \<open>
  C19. The minimum fee rate of a coherent pool is zero while there is room. When there is none it is
  a threshold: the items that pay more leave room for the new cost, and those that pay at least that
  rate do not. The search always finds it for a cost that fits in an empty pool.
\<close>

theorem min_fee_rate_threshold:
  assumes "mempool_ok name m" and "items_sorted items" and "cost \<le> max_size_in_cost m"
  shows "\<exists>f. get_min_fee_rate items cost m = Inr f \<and>
    (if total_mempool_cost m + cost \<le> max_size_in_cost m then f = 0
     else cost_with (\<lambda>g. f < g) m + cost \<le> max_size_in_cost m \<and>
       max_size_in_cost m < cost_with (\<lambda>g. f \<le> g) m + cost)"
proof (cases "at_full_capacity cost m")
  case False
  then show ?thesis by (simp add: get_min_fee_rate_def at_full_capacity_def)
next
  case True
  have wf: "dict_wf (mp_sorted_spends m)" using mempool_okD(5) [OF assms(1)] by (simp add: rates_ok_def)
  have "sorted (map fst (listing items m))"
    unfolding listing_def by (rule sorted_groups) (use assms(2) wf in \<open>simp add: items_sorted_def\<close>)
  then obtain f where "min_rate_search cost (max_size_in_cost m) (total_mempool_cost m) (listing items m) = Inr f"
    "cost_with (\<lambda>g. f < g) m + cost \<le> max_size_in_cost m" "max_size_in_cost m < cost_with (\<lambda>g. f \<le> g) m + cost"
    using min_rate_search_spec [OF _ listing_positive [OF assms(1,2)] _ assms(3), of "total_mempool_cost m"] True
    unfolding listed_cost_listing [OF assms(1,2)] cost_with_all [OF assms(1)] at_full_capacity_def by auto
  with True show ?thesis by (auto simp: get_min_fee_rate_def at_full_capacity_def listing_def)
qed

section \<open>A concrete pool\<close>

definition sample_coin :: "bytes32 \<Rightarrow> Coin" where
  "sample_coin p = \<lparr>coin_parent_coin_info = p, coin_puzzle_hash = [], coin_amount = 1\<rparr>"

definition pool_item :: "int \<Rightarrow> int \<Rightarrow> bytes32 \<Rightarrow> unit MempoolItem" where
  "pool_item fee cost n = \<lparr>mi_payload = (), mi_fee = fee, mi_cost = cost, mi_spend_bundle_name = n,
     mi_additions = [sample_coin (0 # n)], mi_removals = [sample_coin (1 # n), sample_coin (2 # n)]\<rparr>"

definition by_rate :: "unit sorted_items" where
  "by_rate d = sort_key fst d"

lemma by_rate_sorted: "items_sorted by_rate"
  by (simp add: items_sorted_def by_rate_def dict_wf_def distinct_map)

lemma sample_added:
  "case add_to_pool coin_parent_coin_info by_rate (pool_item 6 6 [1]) (mempool_new 10) of
     Some (Inr m) \<Rightarrow> fresh_item coin_parent_coin_info (pool_item 70 7 [2]) m | _ \<Rightarrow> False"
  by code_simp

lemma sample_fresh: "fresh_item coin_parent_coin_info (pool_item 6 6 [1]) (mempool_new 10)"
  by code_simp

theorem add_to_pool_admits_witness:
  "\<exists>m1 m2. add_to_pool coin_parent_coin_info by_rate (pool_item 6 6 [1]) (mempool_new 10) = cret m1 \<and>
     dget (mp_spends m1) [1] = Some (pool_item 6 6 [1]) \<and>
     add_to_pool coin_parent_coin_info by_rate (pool_item 70 7 [2]) m1 = cret m2 \<and>
     dget (mp_spends m2) [2] = Some (pool_item 70 7 [2]) \<and> total_mempool_cost m2 \<le> 10"
proof -
  have name: "item_name (pool_item fee c n) = n" and cost: "mi_cost (pool_item fee c n) = c" for fee c n
    by (simp_all add: item_name_def pool_item_def)
  have lim0: "mi_cost (pool_item 6 6 [1]) \<le> max_size_in_cost (mempool_new 10)" by code_simp
  obtain m1 where m1: "add_to_pool coin_parent_coin_info by_rate (pool_item 6 6 [1]) (mempool_new 10) = cret m1"
    "mempool_ok coin_parent_coin_info m1" "max_size_in_cost m1 = 10" "dget (mp_spends m1) [1] = Some (pool_item 6 6 [1])"
    using add_to_pool_admits [OF mempool_new_ok by_rate_sorted sample_fresh lim0]
    by (auto simp: name mempool_new_def)
  have fresh: "fresh_item coin_parent_coin_info (pool_item 70 7 [2]) m1" using sample_added m1(1) by simp
  have lim1: "mi_cost (pool_item 70 7 [2]) \<le> max_size_in_cost m1" using m1(3) by (simp add: cost)
  obtain m2 where "add_to_pool coin_parent_coin_info by_rate (pool_item 70 7 [2]) m1 = cret m2"
    "total_mempool_cost m2 \<le> 10" "dget (mp_spends m2) [2] = Some (pool_item 70 7 [2])"
    using add_to_pool_admits [OF m1(2) by_rate_sorted fresh lim1] m1(3) by (auto simp: name)
  with m1 show ?thesis by blast
qed

theorem min_fee_rate_threshold_witness:
  "\<exists>m f. insert_item coin_parent_coin_info (pool_item 6 6 [1]) (mempool_new 10) = Inr m \<and>
     get_min_fee_rate by_rate 7 m = Inr f \<and> cost_with (\<lambda>g. f < g) m + 7 \<le> 10 \<and> 10 < cost_with (\<lambda>g. f \<le> g) m + 7"
proof -
  obtain m where m: "insert_item coin_parent_coin_info (pool_item 6 6 [1]) (mempool_new 10) = Inr m"
    "mempool_ok coin_parent_coin_info m" "max_size_in_cost m = 10" "total_mempool_cost m = 6"
    using insert_ok [OF mempool_new_ok sample_fresh] by (auto simp: mempool_new_def pool_item_def)
  have fits: "7 \<le> max_size_in_cost m" using m(3) by simp
  show ?thesis using min_fee_rate_threshold [OF m(2) by_rate_sorted fits] m by auto
qed

end
