(* ===== verification/Gold_Mempool_Manager_Correct.thy ===== *)
theory Gold_Mempool_Manager_Correct
  imports Gold_Mempool_Manager Gold_Mempool_Correct Gold_Coin_Store_Correct
    Gold_Block_Record_Correct
begin

text \<open>
  The correctness of the mempool manager: what is admitted to the pool is a valid spend, and the pool makes
  blocks that spend no coin twice, conserve value and keep to the cost limit.
\<close>

section \<open>Postconditions\<close>

text \<open>
  A computation ends, and if it returns, its result satisfies a predicate. The rules follow the shape of the
  program, so that a proof visits every early return.
\<close>

named_theorems post_intros

definition post :: "('a \<Rightarrow> bool) \<Rightarrow> 'a comp \<Rightarrow> bool" where
  "post R x = (\<exists>r. x = Some r \<and> (\<forall>a. r = Inr a \<longrightarrow> R a))"

lemma post_ret [post_intros]: "R a \<Longrightarrow> post R (cret a)"
  by (simp add: post_def)

lemma post_lift [post_intros]: "(\<And>a. x = Inr a \<Longrightarrow> post R (f a)) \<Longrightarrow> post R (cbind (Some x) f)"
  by (cases x) (auto simp: post_def)

lemma post_bind: "post Q x \<Longrightarrow> (\<And>a. x = cret a \<Longrightarrow> Q a \<Longrightarrow> post R (f a)) \<Longrightarrow> post R (cbind x f)"
  by (auto simp: post_def cbind_def split: sum.splits)

lemma post_if [post_intros]: "(b \<Longrightarrow> post R x) \<Longrightarrow> (\<not> b \<Longrightarrow> post R y) \<Longrightarrow> post R (if b then x else y)"
  by simp

lemma post_option [post_intros]:
  "(x = None \<Longrightarrow> post R a) \<Longrightarrow> (\<And>v. x = Some v \<Longrightarrow> post R (f v)) \<Longrightarrow> post R (case x of None \<Rightarrow> a | Some v \<Rightarrow> f v)"
  by (cases x) simp_all

lemma post_sum [post_intros]:
  "(\<And>e. x = Inl e \<Longrightarrow> post R (f e)) \<Longrightarrow> (\<And>v. x = Inr v \<Longrightarrow> post R (g v)) \<Longrightarrow>
    post R (case x of Inl e \<Rightarrow> f e | Inr v \<Rightarrow> g v)"
  by (cases x) simp_all

lemma post_prod [post_intros]: "(\<And>a b. x = (a, b) \<Longrightarrow> post R (f a b)) \<Longrightarrow> post R (case x of (a, b) \<Rightarrow> f a b)"
  by (cases x) simp

lemma post_let [post_intros]: "post R (f x) \<Longrightarrow> post R (let y = x in f y)"
  by simp

section \<open>The state of the manager\<close>

text \<open>
  A pool of transactions: coherent, and every item conserves value and creates its coins from the coins it
  spends.
\<close>

definition conserves :: "tx_item \<Rightarrow> bool" where
  "conserves i = (0 \<le> mi_fee i \<and>
     sum_list (map coin_amount (mi_removals i)) = sum_list (map coin_amount (mi_additions i)) + mi_fee i)"

definition parents_spent :: "(Coin \<Rightarrow> bytes32) \<Rightarrow> tx_item \<Rightarrow> bool" where
  "parents_spent name i = (\<forall>c \<in> set (mi_additions i). coin_parent_coin_info c \<in> name ` set (mi_removals i))"

definition pool_ok :: "(Coin \<Rightarrow> bytes32) \<Rightarrow> tx_data Mempool \<Rightarrow> bool" where
  "pool_ok name p = (mempool_ok name p \<and> total_mempool_cost p \<le> max_size_in_cost p \<and>
     (\<forall>n i. dget (mp_spends p) n = Some i \<longrightarrow> conserves i \<and> parents_spent name i))"

definition manager_ok :: "(bytes \<Rightarrow> bytes) \<Rightarrow> (int \<Rightarrow> bytes) \<Rightarrow> MempoolManager \<Rightarrow> bool" where
  "manager_ok sh ib m = (pool_ok (coin_name sh ib) (mm_mempool m) \<and> store_ok sh ib (mm_coin_store m) \<and>
     pending_ok (mm_potential_cache m) \<and> 0 \<le> cache_max_total_cost (mm_potential_cache m) \<and>
     max_size_in_cost (mm_mempool m) = mm_mempool_max_total_cost m \<and>
     int_of_float (block_cost_limit m) \<le> mm_mempool_max_total_cost m)"

lemma pool_okD:
  assumes "pool_ok name p"
  shows "mempool_ok name p" "total_mempool_cost p \<le> max_size_in_cost p"
    "\<And>n i. dget (mp_spends p) n = Some i \<Longrightarrow> conserves i" "\<And>n i. dget (mp_spends p) n = Some i \<Longrightarrow> parents_spent name i"
  using assms by (simp_all add: pool_ok_def)

lemma manager_okD:
  assumes "manager_ok sh ib m"
  shows "pool_ok (coin_name sh ib) (mm_mempool m)" "store_ok sh ib (mm_coin_store m)"
    "pending_ok (mm_potential_cache m)" "0 \<le> cache_max_total_cost (mm_potential_cache m)"
    "max_size_in_cost (mm_mempool m) = mm_mempool_max_total_cost m"
    "int_of_float (block_cost_limit m) \<le> mm_mempool_max_total_cost m"
  using assms by (simp_all add: manager_ok_def)

text \<open>An index holds exactly the coins of the items of the pool.\<close>

lemma index_iff:
  assumes "index_ok name sel sp d"
  shows "dget d k = Some i \<longleftrightarrow> dget sp (item_name i) = Some i \<and> k \<in> name ` set (sel i)"
  using assms by (simp add: index_ok_def)

lemma index_memD:
  assumes "index_ok name sel sp d" and "dmem k d"
  obtains i where "dget sp (item_name i) = Some i" and "k \<in> name ` set (sel i)"
  using assms index_iff [OF assms(1)] unfolding dmem_dget by blast

section \<open>Reading the transaction\<close>

lemma rmap_mem: "rmap f xs = Inr ys \<Longrightarrow> y \<in> set ys \<Longrightarrow> \<exists>x \<in> set xs. f x = Inr y"
  by (induction xs arbitrary: ys) (auto simp: rbind_eq_Inr)

lemma created_coin_parent: "created_coin ifb n cvp = Inr c \<Longrightarrow> coin_parent_coin_info c = n \<and> 0 \<le> coin_amount c"
  by (auto simp: created_coin_def rbind_eq_Inr uint_values split: if_splits)

lemma additions_parent:
  assumes "additions_for_npc ifb npcs = Inr adds" and "c \<in> set adds"
  shows "coin_parent_coin_info c \<in> npc_coin_name ` set npcs"
proof -
  obtain cs where cs: "rmap (\<lambda>npc. rbind (condition_dict npc) (\<lambda>d.
      created_outputs_for_conditions_dict ifb d (npc_coin_name npc))) npcs = Inr cs" "adds = concat cs"
    using assms(1) by (auto simp: additions_for_npc_def rbind_eq_Inr)
  obtain l where l: "l \<in> set cs" "c \<in> set l" using assms(2) cs(2) by auto
  obtain npc d where "npc \<in> set npcs" "created_outputs_for_conditions_dict ifb d (npc_coin_name npc) = Inr l"
    using rmap_mem [OF cs(1) l(1)] by (auto simp: rbind_eq_Inr)
  then show ?thesis
    using l(2) unfolding created_outputs_for_conditions_dict_def by (auto dest!: rmap_mem created_coin_parent)
qed

lemma addition_total_sum:
  "addition_total mx cs acc = Inr (Inr s) \<Longrightarrow> s = acc + sum_list (map coin_amount cs)"
proof (induction cs arbitrary: acc)
  case (Cons c cs)
  then have "addition_total mx cs (acc + coin_amount c) = Inr (Inr s)"
    by (auto simp: rbind_eq_Inr uint_values split: if_splits)
  from Cons.IH [OF this] show ?case by simp
qed simp

lemma additions_dict_get:
  assumes "dget (fold (\<lambda>a. dput (nm a) a) adds d) n = Some c"
  shows "c \<in> set adds \<and> nm c = n \<or> dget d n = Some c"
  using assms by (induction adds arbitrary: d) (fastforce split: if_splits)+

section \<open>The coins that are spent\<close>

definition spendable :: "(bytes \<Rightarrow> bytes) \<Rightarrow> (int \<Rightarrow> bytes) \<Rightarrow> CoinStore \<Rightarrow> (bytes32, Coin) dict \<Rightarrow> bytes32 \<Rightarrow> CoinRecord \<Rightarrow> bool" where
  "spendable sh ib store adds n r = (case dget adds n of
     Some c \<Rightarrow> cr_coin r = c | None \<Rightarrow> coins sh ib store n = Some r)"

lemma removal_records_ok:
  assumes "removal_records sh ib peak adds names store recs amt = Inr (store', res)" and "store_ok sh ib store"
    and "distinct names" and "\<forall>n \<in> set names. \<not> dmem n recs"
  shows "store_ok sh ib store' \<and> store_records store' = store_records store \<and>
    (\<forall>recs' amt'. res = Inr (recs', amt') \<longrightarrow> (\<exists>new. recs' = recs @ new \<and> map fst new = names \<and>
      (\<forall>(n, r) \<in> set new. spendable sh ib store adds n r) \<and>
      amt' = amt + sum_list (map (\<lambda>q. coin_amount (cr_coin (snd q))) new)))"
  using assms
proof (induction names arbitrary: store recs amt)
  case (Cons n names)
  obtain s1 where s1: "get_coin_record sh ib n store = (s1, Inr (coins sh ib store n))" "store_ok sh ib s1"
    "store_records s1 = store_records store" using get_coin_record_lookup [OF Cons.prems(2)] by blast
  have "coins sh ib s1 = coins sh ib store" by (simp add: coins_def s1(3))
  then have same: "spendable sh ib s1 = spendable sh ib store" by (intro ext) (simp add: spendable_def split: option.split)
  show ?case
  proof (cases "coins sh ib store n = None \<and> \<not> dmem n adds")
    case True
    with Cons.prems(1) s1 show ?thesis by auto
  next
    case False
    obtain r a where r: "(case dget adds n of Some coin \<Rightarrow> ephemeral_record peak coin | None \<Rightarrow> not_none (coins sh ib store n)) = Inr r"
      "uint64 (amt + coin_amount (cr_coin r)) = Inr a"
      "removal_records sh ib peak adds names s1 (dput n r recs) a = Inr (store', res)"
      using Cons.prems(1) False s1(1) by (auto simp: rbind_eq_Inr)
    have a: "a = amt + coin_amount (cr_coin r)" using r(2) by (auto simp: uint_values split: if_splits)
    have sp: "spendable sh ib store adds n r"
      using r(1) by (auto simp: spendable_def ephemeral_record_def rbind_eq_Inr new_record_def split: option.splits)
    have put: "dput n r recs = recs @ [(n, r)]" using Cons.prems(4) by (simp add: dput_new)
    have "\<forall>k \<in> set names. \<not> dmem k (dput n r recs)" using Cons.prems(3,4) by auto
    note ih = Cons.IH [OF r(3) s1(2) _ this]
    show ?thesis
    proof (intro conjI allI impI)
      show "store_ok sh ib store'" "store_records store' = store_records store"
        using ih Cons.prems(3) s1(3) by simp_all
      fix recs' amt' assume "res = Inr (recs', amt')"
      then obtain new where new: "recs' = dput n r recs @ new" "map fst new = names"
        "\<forall>(n, r) \<in> set new. spendable sh ib store adds n r"
        "amt' = a + sum_list (map (\<lambda>q. coin_amount (cr_coin (snd q))) new)"
        using ih Cons.prems(3) unfolding same by auto
      show "\<exists>new. recs' = recs @ new \<and> map fst new = n # names \<and> (\<forall>(n, r) \<in> set new. spendable sh ib store adds n r) \<and>
          amt' = amt + sum_list (map (\<lambda>q. coin_amount (cr_coin (snd q))) new)"
        using new sp a put by (intro exI [of _ "(n, r) # new"]) auto
    qed
  qed
qed auto

section \<open>Conflicts\<close>

lemma check_removals_ok:
  assumes "check_removals name recs m = Inr (fail, conflicts)"
  shows "fail = Some Err_DOUBLE_SPEND \<or>
    (\<forall>r \<in> snd ` set recs. \<not> cr_spent r) \<and>
    conflicts = filter (\<lambda>c. dmem (name c) (mp_removals (mm_mempool m))) (map cr_coin (dvalues recs)) \<and>
    fail = (if conflicts = [] then None else Some Err_MEMPOOL_CONFLICT)"
  using assms by (auto simp: check_removals_def rbind_eq_Inr py_assert_def Let_def list_ex_iff dvalues_def split: if_splits)

lemma conflicting_items_fold:
  assumes "rfold (\<lambda>coin d. rbind (from_key (dget (mp_removals p) (name coin))) (\<lambda>sb. Inr (dput (item_name sb) sb d))) cs d0 = Inr d"
    and "mempool_ok name p" and "dict_wf d0" and "\<forall>n i. dget d0 n = Some i \<longrightarrow> n = item_name i \<and> dget (mp_spends p) n = Some i"
  shows "dict_wf d \<and> (\<forall>n i. dget d n = Some i \<longrightarrow> n = item_name i \<and> dget (mp_spends p) n = Some i) \<and>
    (\<forall>n. dmem n d0 \<longrightarrow> dmem n d) \<and>
    (\<forall>c \<in> set cs. \<forall>i. dget (mp_removals p) (name c) = Some i \<longrightarrow> dmem (item_name i) d)"
  using assms
proof (induction cs arbitrary: d0)
  case (Cons c cs)
  obtain i where i: "dget (mp_removals p) (name c) = Some i"
    "rfold (\<lambda>coin d. rbind (from_key (dget (mp_removals p) (name coin))) (\<lambda>sb. Inr (dput (item_name sb) sb d))) cs
      (dput (item_name i) i d0) = Inr d"
    using Cons.prems(1) by (auto simp: rbind_eq_Inr)
  have sp: "dget (mp_spends p) (item_name i) = Some i"
    using i(1) index_iff [OF mempool_okD(4) [OF Cons.prems(2)]] by simp
  have wf: "dict_wf (dput (item_name i) i d0)" using Cons.prems(3) by simp
  have inv: "\<forall>n j. dget (dput (item_name i) i d0) n = Some j \<longrightarrow> n = item_name j \<and> dget (mp_spends p) n = Some j"
    using Cons.prems(4) sp by auto
  note ih = Cons.IH [OF i(2) Cons.prems(2) wf inv]
  show ?case
  proof (intro conjI)
    show "\<forall>c' \<in> set (c # cs). \<forall>j. dget (mp_removals p) (name c') = Some j \<longrightarrow> dmem (item_name j) d"
      using ih i(1) by auto
    show "\<forall>n. dmem n d0 \<longrightarrow> dmem n d" using ih by auto
  qed (use ih in blast)+
qed auto

lemma remove_all_conflicts:
  assumes "mempool_ok name p" and "distinct (map item_name is)" and "\<forall>i \<in> set is. dget (mp_spends p) (item_name i) = Some i"
  shows "\<exists>p'. rfold (remove_from_pool name) is p = Inr p' \<and> mempool_ok name p' \<and> max_size_in_cost p' = max_size_in_cost p \<and>
    (\<forall>n. dget (mp_spends p') n = (if n \<in> item_name ` set is then None else dget (mp_spends p) n))"
  using assms
proof (induction "is" arbitrary: p)
  case (Cons i "is")
  have sp: "dget (mp_spends p) (item_name i) = Some i" using Cons.prems(3) by simp
  obtain p1 where p1: "remove_from_pool name i p = Inr p1" "mempool_ok name p1"
    "mp_spends p1 = ddel (item_name i) (mp_spends p)" "max_size_in_cost p1 = max_size_in_cost p"
    using remove_ok [OF Cons.prems(1) sp] by blast
  have d: "distinct (map item_name is)" using Cons.prems(2) by simp
  have ne: "item_name j \<noteq> item_name i" if "j \<in> set is" for j
    using Cons.prems(2) that by (metis distinct.simps(2) image_eqI list.set_map list.simps(9))
  have "\<forall>j \<in> set is. dget (mp_spends p1) (item_name j) = Some j"
    using Cons.prems(3) ne by (simp add: p1(3))
  from Cons.IH [OF p1(2) d this] obtain p' where p': "rfold (remove_from_pool name) is p1 = Inr p'" "mempool_ok name p'"
    "max_size_in_cost p' = max_size_in_cost p1"
    "\<forall>n. dget (mp_spends p') n = (if n \<in> item_name ` set is then None else dget (mp_spends p1) n)"
    by (elim exE conjE) (rule that)
  have "dget (mp_spends p') n = (if n \<in> item_name ` set (i # is) then None else dget (mp_spends p) n)" for n
    using p'(4) [rule_format, of n] by (simp add: p1(3))
  with p'(1-3) p1(1,4) show ?case by (intro exI [of _ p'] conjI allI) simp_all
qed simp

text \<open>
  With the conflicting items gone, no coin that the new item spends is spent in the pool. As its new coins
  have parents that it spends, none of them is created in the pool either, unless two coins have the same
  name.
\<close>

lemma fresh_after_conflicts:
  assumes pool: "pool_ok name p" and p': "mempool_ok name p'"
    and sub: "\<And>n j. dget (mp_spends p') n = Some j \<Longrightarrow> dget (mp_spends p) n = Some j"
    and gone: "\<And>c j. c \<in> set (mi_removals i) \<Longrightarrow> dget (mp_removals p) (name c) = Some j \<Longrightarrow> dget (mp_spends p') (item_name j) = None"
    and new: "\<not> dmem (item_name i) (mp_spends p)" "0 < mi_cost i" "distinct (map name (mi_additions i))"
      "distinct (map name (mi_removals i))" "parents_spent name i"
    and inj: "\<And>n j a b. dget (mp_spends p) n = Some j \<Longrightarrow> a \<in> set (mi_additions j) \<Longrightarrow> b \<in> set (mi_additions i) \<Longrightarrow>
      name a = name b \<Longrightarrow> a = b"
  shows "fresh_item name i p'"
proof -
  have rem: "\<not> dmem k (mp_removals p')" if k: "k \<in> name ` set (mi_removals i)" for k
  proof
    assume "dmem k (mp_removals p')"
    then obtain j where j: "dget (mp_spends p') (item_name j) = Some j" "k \<in> name ` set (mi_removals j)"
      by (rule index_memD [OF mempool_okD(4) [OF p']])
    have "dget (mp_removals p) k = Some j"
      using sub [OF j(1)] j(2) index_iff [OF mempool_okD(4) [OF pool_okD(1) [OF pool]]] by simp
    with k gone j(1) show False by auto
  qed
  have add: "\<not> dmem (name b) (mp_additions p')" if b: "b \<in> set (mi_additions i)" for b
  proof
    assume "dmem (name b) (mp_additions p')"
    then obtain j where j: "dget (mp_spends p') (item_name j) = Some j" "name b \<in> name ` set (mi_additions j)"
      by (rule index_memD [OF mempool_okD(3) [OF p']])
    then obtain a where a: "a \<in> set (mi_additions j)" "name a = name b" by auto
    have "a = b" using inj [OF sub [OF j(1)] a(1) b a(2)] .
    then have "coin_parent_coin_info b \<in> name ` set (mi_removals j)"
      using pool_okD(4) [OF pool sub [OF j(1)]] a(1) by (auto simp: parents_spent_def)
    then have "dget (mp_removals p') (coin_parent_coin_info b) = Some j"
      using j(1) index_iff [OF mempool_okD(4) [OF p']] by simp
    moreover have "coin_parent_coin_info b \<in> name ` set (mi_removals i)" using new(5) b by (simp add: parents_spent_def)
    ultimately show False using rem by (auto simp: dmem_dget)
  qed
  have "\<not> dmem (item_name i) (mp_spends p')" using new(1) sub unfolding dmem_dget by blast
  with new rem add show ?thesis by (simp add: fresh_item_def)
qed

section \<open>The last stages\<close>

definition admit_post :: "(bytes \<Rightarrow> bytes) \<Rightarrow> clvm_lib \<Rightarrow> BlockRecord \<Rightarrow> tx_item \<Rightarrow> (bytes32, CoinRecord) dict \<Rightarrow> NPC list \<Rightarrow>
    MempoolManager \<Rightarrow> MempoolManager \<times> outcome \<Rightarrow> bool" where
  "admit_post sh L peak i recs npcs m = (\<lambda>(m', cost, st, e).
     manager_ok sh (lib_int_to_bytes L) m' \<and> mm_coin_store m' = mm_coin_store m \<and>
     (if st = SUCCESS then e = None \<and> dget (mp_spends (mm_mempool m')) (item_name i) = Some i \<and>
        (\<forall>n j. dget (mp_spends (mm_mempool m')) n = Some j \<longrightarrow> n = item_name i \<or> dget (mp_spends (mm_mempool m)) n = Some j) \<and>
        (\<forall>r \<in> snd ` set recs. \<not> cr_spent r) \<and> first_error (npc_error (lib_int_from_bytes L) peak recs) npcs = Inr None
      else mm_mempool m' = mm_mempool m \<and> e \<noteq> None))"

lemma manager_ok_update:
  assumes "manager_ok sh ib m"
  shows "pool_ok (coin_name sh ib) p \<Longrightarrow> max_size_in_cost p = max_size_in_cost (mm_mempool m) \<Longrightarrow>
      manager_ok sh ib (m\<lparr>mm_mempool := p\<rparr>)"
    and "store_ok sh ib s \<Longrightarrow> manager_ok sh ib (m\<lparr>mm_coin_store := s\<rparr>)"
    and "pending_ok c \<Longrightarrow> cache_max_total_cost c = cache_max_total_cost (mm_potential_cache m) \<Longrightarrow>
      manager_ok sh ib (m\<lparr>mm_potential_cache := c\<rparr>)"
  using assms by (simp_all add: manager_ok_def block_cost_limit_def)

lemma keep_pending_ok:
  assumes "manager_ok sh (lib_int_to_bytes L) m"
  shows "post (admit_post sh L peak i recs npcs m) (keep_pending j e m)"
proof -
  obtain c where "pending_add j (mm_potential_cache m) = cret c" "pending_ok c"
    "cache_max_total_cost c = cache_max_total_cost (mm_potential_cache m)"
    using pending_add_ok [OF manager_okD(3,4) [OF assms], of j] by blast
  then show ?thesis
    using manager_ok_update(3) [OF assms] by (simp add: keep_pending_def post_def admit_post_def)
qed

lemma admit_ok:
  assumes ok: "manager_ok sh (lib_int_to_bytes L) m" and srt: "items_sorted items"
    and recs: "dict_wf recs" "\<forall>(n, r) \<in> set recs. coin_name sh (lib_int_to_bytes L) (cr_coin r) = n"
      "mi_removals i = map cr_coin (dvalues recs)"
    and i: "\<not> dmem (item_name i) (mp_spends (mm_mempool m))" "0 < mi_cost i" "mi_cost i \<le> max_size_in_cost (mm_mempool m)"
      "distinct (map (coin_name sh (lib_int_to_bytes L)) (mi_additions i))" "conserves i"
      "parents_spent (coin_name sh (lib_int_to_bytes L)) i"
    and inj: "\<And>n j a b. dget (mp_spends (mm_mempool m)) n = Some j \<Longrightarrow> a \<in> set (mi_additions j) \<Longrightarrow> b \<in> set (mi_additions i) \<Longrightarrow>
      coin_name sh (lib_int_to_bytes L) a = coin_name sh (lib_int_to_bytes L) b \<Longrightarrow> a = b"
  shows "post (admit_post sh L peak i recs npcs m) (admit sh L items peak i recs npcs rate m)"
proof -
  let ?name = "coin_name sh (lib_int_to_bytes L)" and ?p = "mm_mempool m"
  note pool = manager_okD(1) [OF ok]
  have "map ?name (mi_removals i) = map fst recs" using recs(2) by (auto simp: recs(3) dvalues_def)
  then have dist: "distinct (map ?name (mi_removals i))" using recs(1) by (simp add: dict_wf_def)
  have change: "post (admit_post sh L peak i recs npcs m)
      (replace_items ?name items d i m)"
    if d: "dict_wf d" "\<forall>n j. dget d n = Some j \<longrightarrow> n = item_name j \<and> dget (mp_spends ?p) n = Some j"
      and cover: "\<And>c j. c \<in> set (mi_removals i) \<Longrightarrow> dget (mp_removals ?p) (?name c) = Some j \<Longrightarrow> dmem (item_name j) d"
      and unspent: "\<forall>r \<in> snd ` set recs. \<not> cr_spent r"
      and conds: "first_error (npc_error (lib_int_from_bytes L) peak recs) npcs = Inr None" for d
  proof -
    have di: "(n, j) \<in> set d \<Longrightarrow> n = item_name j \<and> dget (mp_spends ?p) n = Some j" for n j
      using d(2) dict_wf_dget [OF d(1)] by blast
    have keys: "map item_name (dvalues d) = map fst d" using di by (auto simp: dvalues_def)
    have "\<forall>j \<in> set (dvalues d). dget (mp_spends ?p) (item_name j) = Some j" using di by (auto simp: dvalues_def)
    with keys d(1) obtain p1 where p1: "rfold (remove_from_pool ?name) (dvalues d) ?p = Inr p1" "mempool_ok ?name p1"
      "max_size_in_cost p1 = max_size_in_cost ?p"
      "\<forall>n. dget (mp_spends p1) n = (if n \<in> item_name ` set (dvalues d) then None else dget (mp_spends ?p) n)"
      using remove_all_conflicts [OF pool_okD(1) [OF pool], of "dvalues d"] by (auto simp: dict_wf_def)
    have sub: "dget (mp_spends p1) n = Some j \<Longrightarrow> dget (mp_spends ?p) n = Some j" for n j
      using p1(4) by (simp split: if_splits)
    have gone: "dget (mp_spends p1) (item_name j) = None"
      if "c \<in> set (mi_removals i)" "dget (mp_removals ?p) (?name c) = Some j" for c j
    proof -
      have "item_name j \<in> set (map fst d)" using cover [OF that] by (simp add: dmem_def)
      then have "item_name j \<in> item_name ` set (dvalues d)" unfolding keys [symmetric] by simp
      then show ?thesis using p1(4) by simp
    qed
    have fresh: "fresh_item ?name i p1"
      by (rule fresh_after_conflicts [OF pool p1(2) sub gone i(1,2,4) dist i(6) inj])
    obtain p2 where p2: "add_to_pool ?name items i p1 = cret p2" "mempool_ok ?name p2"
      "max_size_in_cost p2 = max_size_in_cost p1" "total_mempool_cost p2 \<le> max_size_in_cost p2"
      "dget (mp_spends p2) (item_name i) = Some i"
      "\<forall>n j. dget (mp_spends p2) n = Some j \<longrightarrow> n = item_name i \<or> dget (mp_spends p1) n = Some j"
      using add_to_pool_ok [OF p1(2) srt fresh] i(3) p1(3) by auto
    have others: "dget (mp_spends p2) n = Some j \<Longrightarrow> n = item_name i \<and> j = i \<or> dget (mp_spends ?p) n = Some j" for n j
      using p2(5,6) sub by (cases "n = item_name i") auto
    then have "pool_ok ?name p2"
      using p2(2,4) i(5,6) pool_okD(3,4) [OF pool] unfolding pool_ok_def by metis
    then have "manager_ok sh (lib_int_to_bytes L) (m\<lparr>mm_mempool := p2\<rparr>)"
      using manager_ok_update(1) [OF ok] p2(3) p1(3) by simp
    with p1(1) p2(1,5) others unspent conds show ?thesis by (auto simp: replace_items_def post_def admit_post_def)
  qed
  note pend = keep_pending_ok [OF ok]
  show ?thesis
    unfolding admit_def Let_def
  proof (intro post_intros)
    fix a fail conflicts assume "check_removals ?name recs m = Inr a" and a: "a = (fail, conflicts)"
    then have cr: "check_removals ?name recs m = Inr (fail, conflicts)" by simp
    show "admit_post sh L peak i recs npcs m (m, None, FAILED, fail)"
      if "fail \<noteq> None \<and> fail \<noteq> Some Err_MEMPOOL_CONFLICT"
      using that ok by (simp add: admit_post_def)
    fix d rep err
    assume "\<not> (fail \<noteq> None \<and> fail \<noteq> Some Err_MEMPOOL_CONFLICT)"
      and d: "(if fail = Some Err_MEMPOOL_CONFLICT then conflicting_items ?name conflicts m else Inr []) = Inr d"
    then have c: "\<forall>r \<in> snd ` set recs. \<not> cr_spent r"
      "conflicts = filter (\<lambda>c. dmem (?name c) (mp_removals ?p)) (mi_removals i)"
      "fail = (if conflicts = [] then None else Some Err_MEMPOOL_CONFLICT)"
      using check_removals_ok [OF cr] by (auto simp: err_defs recs(3))
    show "post (admit_post sh L peak i recs npcs m) (keep_pending i Err_MEMPOOL_CONFLICT m)" by (rule pend)
    show "post (admit_post sh L peak i recs npcs m) (keep_pending i e m)" for e by (rule pend)
    show "admit_post sh L peak i recs npcs m (m, failed e)" for e using ok by (simp add: admit_post_def failed_def)
    have dd: "dict_wf d \<and> (\<forall>n j. dget d n = Some j \<longrightarrow> n = item_name j \<and> dget (mp_spends ?p) n = Some j) \<and>
        (\<forall>c \<in> set conflicts. \<forall>j. dget (mp_removals ?p) (?name c) = Some j \<longrightarrow> dmem (item_name j) d)"
    proof (cases "conflicts = []")
      case True
      with d c(3) show ?thesis by auto
    next
      case False
      with d c(3) have "conflicting_items ?name conflicts m = Inr d" by simp
      from conflicting_items_fold [OF this [unfolded conflicting_items_def] pool_okD(1) [OF pool]] show ?thesis by simp
    qed
    assume "first_error (npc_error (lib_int_from_bytes L) peak recs) npcs = Inr err" and "err = None"
    then have fe: "first_error (npc_error (lib_int_from_bytes L) peak recs) npcs = Inr None" by simp
    have cover: "dmem (item_name j) d" if "x \<in> set (mi_removals i)" "dget (mp_removals ?p) (?name x) = Some j" for x j
    proof -
      have "x \<in> set conflicts" using that c(2) by (auto simp: dmem_dget)
      with dd that(2) show ?thesis by blast
    qed
    from dd have d1: "dict_wf d" and d2: "\<forall>n j. dget d n = Some j \<longrightarrow> n = item_name j \<and> dget (mp_spends ?p) n = Some j" by blast+
    show "post (admit_post sh L peak i recs npcs m)
      (replace_items ?name items d i m)"
      by (rule change [OF d1 d2 cover c(1) fe])
  qed
qed

section \<open>Conditions\<close>

lemma first_error_None: "first_error f xs = Inr None \<longleftrightarrow> (\<forall>x \<in> set xs. f x = Inr None)"
proof (induction xs)
  case (Cons x xs)
  then show ?case by (auto simp: rbind_eq_Inr split: option.splits)
qed simp

lemma condition_dict_eq:
  assumes "condition_dict npc = Inr d"
  shows "d = npc_conditions npc"
proof -
  have "rfold (\<lambda>(opcode, l) d. rbind (py_assert (\<not> dmem opcode d)) (\<lambda>_. Inr (dput opcode l d))) cs d0 = Inr d \<Longrightarrow> d = d0 @ cs"
    for cs d0
  proof (induction cs arbitrary: d0)
    case (Cons q cs)
    obtain opc l where q: "q = (opc, l)" by (cases q)
    have new: "\<not> dmem opc d0" using Cons.prems by (auto simp: q rbind_eq_Inr py_assert_def split: if_splits)
    have "d = (d0 @ [(opc, l)]) @ cs"
      by (rule Cons.IH) (use Cons.prems new in \<open>simp add: q py_assert_def dput_new\<close>)
    then show ?case by (simp add: q)
  qed simp
  from this [of "npc_conditions npc" "[]"] assms show ?thesis by (simp add: condition_dict_def)
qed

text \<open>What a time or height condition means for the coin that carries it.\<close>

definition condition_met :: "(bytes \<Rightarrow> int res) \<Rightarrow> CoinRecord \<Rightarrow> int \<Rightarrow> int \<Rightarrow> ConditionWithArgs \<Rightarrow> bool" where
  "condition_met ifb r height time cvp =
     (let asks = (\<lambda>offset present. \<exists>v. condition_number ifb cvp = Inr (Some v) \<and> v + offset \<le> present) in
      (cwa_opcode cvp = OP_ASSERT_HEIGHT_ABSOLUTE \<longrightarrow> asks 0 height) \<and>
      (cwa_opcode cvp = OP_ASSERT_HEIGHT_RELATIVE \<longrightarrow> asks (cr_confirmed_block_index r) height) \<and>
      (cwa_opcode cvp = OP_ASSERT_SECONDS_ABSOLUTE \<longrightarrow> asks 0 time) \<and>
      (cwa_opcode cvp = OP_ASSERT_SECONDS_RELATIVE \<longrightarrow> asks (cr_timestamp r) time))"

lemma exceeds_None: "exceeds ifb cvp k now err = Inr None \<Longrightarrow> \<exists>v. condition_number ifb cvp = Inr (Some v) \<and> v + k \<le> now"
  by (auto simp: exceeds_def rbind_eq_Inr split: option.splits if_splits)

lemma check_condition_None: "check_condition ifb r height time cvp = Inr None \<Longrightarrow> condition_met ifb r height time cvp"
  unfolding condition_met_def Let_def check_condition_def mempool_assert_absolute_block_height_exceeds_def
    mempool_assert_relative_block_height_exceeds_def mempool_assert_absolute_time_exceeds_def
    mempool_assert_relative_time_exceeds_def
  by (intro conjI impI; simp; drule exceeds_None; simp)

definition chain_height :: "BlockRecord \<Rightarrow> int" where
  "chain_height peak = (if br_is_transaction_block peak then br_height peak else br_prev_transaction_block_height peak)"

lemma npc_error_None:
  assumes "npc_error ifb peak recs npc = Inr None"
  shows "\<exists>r t. dget recs (npc_coin_name npc) = Some r \<and> npc_puzzle_hash npc = coin_puzzle_hash (cr_coin r) \<and>
    br_timestamp peak = Some t \<and>
    (\<forall>(op, l) \<in> set (npc_conditions npc). \<forall>cvp \<in> set l. condition_met ifb r (chain_height peak) t cvp)"
proof -
  obtain r t d h where r: "dget recs (npc_coin_name npc) = Some r" "npc_puzzle_hash npc = coin_puzzle_hash (cr_coin r)"
    "br_timestamp peak = Some t" "condition_dict npc = Inr d"
    "uint32 (if \<not> br_is_transaction_block peak then br_prev_transaction_block_height peak else br_height peak) = Inr h"
    "mempool_check_conditions_dict ifb r d h t = Inr None"
    using assms by (auto simp: npc_error_def rbind_eq_Inr split: if_splits)
  have h: "h = chain_height peak" using r(5) by (auto simp: chain_height_def uint_values split: if_splits)
  have "condition_met ifb r h t cvp" if "(op, l) \<in> set d" "cvp \<in> set l" for op l cvp
    using r(6) that by (force simp: mempool_check_conditions_dict_def first_error_None dvalues_def intro!: check_condition_None)
  then show ?thesis using r(1-3) condition_dict_eq [OF r(4)] h by blast
qed

section \<open>Admission is sound\<close>

text \<open>
  An item that spends what the list of spends says: every spend is of an unspent coin of the store, or of a
  coin the item creates, shows its puzzle, and has its conditions met.
\<close>

definition valid_spend :: "(bytes \<Rightarrow> bytes) \<Rightarrow> clvm_lib \<Rightarrow> CoinStore \<Rightarrow> BlockRecord \<Rightarrow> NPC list \<Rightarrow> tx_item \<Rightarrow> bool" where
  "valid_spend sh L store peak npcs i =
     (let name = coin_name sh (lib_int_to_bytes L) in
      conserves i \<and> parents_spent name i \<and> distinct (map npc_coin_name npcs) \<and>
      map name (mi_removals i) = map npc_coin_name npcs \<and>
      (\<forall>npc \<in> set npcs. \<exists>r t. cr_coin r \<in> set (mi_removals i) \<and> name (cr_coin r) = npc_coin_name npc \<and> \<not> cr_spent r \<and>
         (coins sh (lib_int_to_bytes L) store (npc_coin_name npc) = Some r \<or> cr_coin r \<in> set (mi_additions i)) \<and>
         npc_puzzle_hash npc = coin_puzzle_hash (cr_coin r) \<and> br_timestamp peak = Some t \<and>
         (\<forall>(op, l) \<in> set (npc_conditions npc). \<forall>cvp \<in> set l.
            condition_met (lib_int_from_bytes L) r (chain_height peak) t cvp)))"

definition admission :: "(bytes \<Rightarrow> bytes) \<Rightarrow> clvm_lib \<Rightarrow> NPC list \<Rightarrow> bytes32 \<Rightarrow> MempoolManager \<Rightarrow> MempoolManager \<times> outcome \<Rightarrow> bool" where
  "admission sh L npcs spend_name m = (\<lambda>(m', cost, st, e).
     manager_ok sh (lib_int_to_bytes L) m' \<and> store_records (mm_coin_store m') = store_records (mm_coin_store m) \<and>
     (if st = SUCCESS then
        e = None \<and>
        (\<forall>n j. dget (mp_spends (mm_mempool m')) n = Some j \<longrightarrow> n = spend_name \<or> dget (mp_spends (mm_mempool m)) n = Some j) \<and>
        (\<exists>i. dget (mp_spends (mm_mempool m')) spend_name = Some i \<and>
           (dget (mp_spends (mm_mempool m)) spend_name = Some i \<or>
            (\<exists>peak. mm_peak m = Some peak \<and> valid_spend sh L (mm_coin_store m) peak npcs i)))
      else mm_mempool m' = mm_mempool m \<and> e \<noteq> None))"

lemma coins_name: "store_ok sh ib s \<Longrightarrow> coins sh ib s n = Some r \<Longrightarrow> coin_name sh ib (cr_coin r) = n"
  using store_okD(2) [of sh ib s] by (simp add: coins_def table_ok_def coin_map_Some cr_name_def)

lemma admitted_valid:
  assumes ok: "manager_ok sh (lib_int_to_bytes L) m" and peak: "mm_peak m = Some peak"
    and adds: "additions_for_npc (lib_int_from_bytes L) npcs = Inr adds"
    and dist: "distinct (map (coin_name sh (lib_int_to_bytes L)) adds)" "distinct (map npc_coin_name npcs)"
    and total: "addition_total mx adds 0 = Inr (Inr a)" "\<not> r < a"
    and recs: "removal_records sh (lib_int_to_bytes L) peak (fold (\<lambda>add. dput (coin_name sh (lib_int_to_bytes L) add) add) adds [])
      (map npc_coin_name npcs) (mm_coin_store m) [] 0 = Inr (store, Inr (recs, r))"
    and new: "\<not> dmem n (mp_spends (mm_mempool m))" and cost: "0 < cost" "cost \<le> int_of_float (block_cost_limit m)"
    and i: "i = \<lparr>mi_payload = pl, mi_fee = r - a, mi_cost = cost, mi_spend_bundle_name = n, mi_additions = adds,
      mi_removals = map cr_coin (dvalues recs)\<rparr>"
    and srt: "items_sorted items"
    and inj: "\<And>n j a b. dget (mp_spends (mm_mempool m)) n = Some j \<Longrightarrow> a \<in> set (mi_additions j) \<Longrightarrow> b \<in> set adds \<Longrightarrow>
      coin_name sh (lib_int_to_bytes L) a = coin_name sh (lib_int_to_bytes L) b \<Longrightarrow> a = b"
  shows "post (admission sh L npcs n m) (admit sh L items peak i recs npcs rate (m\<lparr>mm_coin_store := store\<rparr>))"
proof -
  let ?name = "coin_name sh (lib_int_to_bytes L)"
  let ?ad = "fold (\<lambda>add. dput (?name add) add) adds []" and ?m = "m\<lparr>mm_coin_store := store\<rparr>"
  have sto: "store_ok sh (lib_int_to_bytes L) (mm_coin_store m)" by (rule manager_okD(2) [OF ok])
  have rr: "store_ok sh (lib_int_to_bytes L) store" "store_records store = store_records (mm_coin_store m)"
    "map fst recs = map npc_coin_name npcs"
    "\<forall>(n, r) \<in> set recs. spendable sh (lib_int_to_bytes L) (mm_coin_store m) ?ad n r"
    "r = sum_list (map (\<lambda>q. coin_amount (cr_coin (snd q))) recs)"
    using removal_records_ok [OF recs sto dist(2)] by auto
  have rec: "?name (cr_coin x) = k \<and> (coins sh (lib_int_to_bytes L) (mm_coin_store m) k = Some x \<or> cr_coin x \<in> set adds)"
    if "(k, x) \<in> set recs" for k x
  proof (cases "dget ?ad k")
    case None
    with rr(4) that have "coins sh (lib_int_to_bytes L) (mm_coin_store m) k = Some x" by (auto simp: spendable_def)
    with coins_name [OF sto] show ?thesis by blast
  next
    case (Some c)
    with rr(4) that have "cr_coin x = c" by (auto simp: spendable_def)
    with additions_dict_get [OF Some] show ?thesis by auto
  qed
  have wf: "dict_wf recs" using rr(3) dist(2) by (simp add: dict_wf_def)
  have names: "map ?name (mi_removals i) = map npc_coin_name npcs"
    unfolding rr(3) [symmetric] using rec by (auto simp: i dvalues_def)
  have par: "parents_spent ?name i"
  proof -
    have "?name ` set (mi_removals i) = npc_coin_name ` set npcs" using names by (metis list.set_map)
    then show ?thesis using additions_parent [OF adds] by (simp add: parents_spent_def i)
  qed
  have a: "a = sum_list (map coin_amount adds)" using addition_total_sum [OF total(1)] by simp
  have cons: "conserves i" using total(2) a rr(5) by (simp add: conserves_def i dvalues_def comp_def)
  have ok': "manager_ok sh (lib_int_to_bytes L) ?m" by (rule manager_ok_update(2) [OF ok rr(1)])
  have "post (admit_post sh L peak i recs npcs ?m) (admit sh L items peak i recs npcs rate ?m)"
  proof (rule admit_ok [OF ok' srt wf])
    show "mi_cost i \<le> max_size_in_cost (mm_mempool ?m)"
      using cost(2) manager_okD(5,6) [OF ok] by (simp add: i)
  qed (use rec new cost(1) dist(1) cons par inj in \<open>auto simp: i item_name_def\<close>)
  moreover have "admission sh L npcs n m q" if q: "admit_post sh L peak i recs npcs ?m q" for q
  proof -
    obtain m' co st e where q': "q = (m', co, st, e)" by (cases q) auto
    have valid: "valid_spend sh L (mm_coin_store m) peak npcs i" if s: "st = SUCCESS"
    proof -
      have un: "\<forall>r \<in> snd ` set recs. \<not> cr_spent r" and fe: "\<forall>npc \<in> set npcs. npc_error (lib_int_from_bytes L) peak recs npc = Inr None"
        using q s by (simp_all add: q' admit_post_def first_error_None)
      have "\<exists>x t. cr_coin x \<in> set (mi_removals i) \<and> ?name (cr_coin x) = npc_coin_name npc \<and> \<not> cr_spent x \<and>
         (coins sh (lib_int_to_bytes L) (mm_coin_store m) (npc_coin_name npc) = Some x \<or> cr_coin x \<in> set (mi_additions i)) \<and>
         npc_puzzle_hash npc = coin_puzzle_hash (cr_coin x) \<and> br_timestamp peak = Some t \<and>
         (\<forall>(op, l) \<in> set (npc_conditions npc). \<forall>cvp \<in> set l.
            condition_met (lib_int_from_bytes L) x (chain_height peak) t cvp)" if npc: "npc \<in> set npcs" for npc
      proof -
        obtain x t where x: "dget recs (npc_coin_name npc) = Some x" "npc_puzzle_hash npc = coin_puzzle_hash (cr_coin x)"
          "br_timestamp peak = Some t" "\<forall>(op, l) \<in> set (npc_conditions npc). \<forall>cvp \<in> set l.
            condition_met (lib_int_from_bytes L) x (chain_height peak) t cvp"
          using npc_error_None [OF fe [rule_format, OF npc]] by blast
        note mem = dget_in_set [OF x(1)]
        have "cr_coin x \<in> set (mi_removals i)" using mem by (force simp: i dvalues_def)
        moreover have "\<not> cr_spent x" using un mem by force
        ultimately show ?thesis using rec [OF mem] x(2-4) by (intro exI [of _ x] exI [of _ t]) (simp add: i)
      qed
      then show ?thesis unfolding valid_spend_def Let_def using cons par dist(2) names by blast
    qed
    show ?thesis using q valid peak rr(2) by (auto simp: q' admission_def admit_post_def i item_name_def split: if_splits)
  qed
  ultimately show ?thesis by (auto simp: post_def)
qed

text \<open>Coins of the pool and new coins with the same name are the same.\<close>

definition names_apart :: "(Coin \<Rightarrow> bytes32) \<Rightarrow> (bytes \<Rightarrow> int res) \<Rightarrow> NPC list \<Rightarrow> tx_data Mempool \<Rightarrow> bool" where
  "names_apart name ifb npcs p = (case additions_for_npc ifb npcs of
     Inl e \<Rightarrow> True
   | Inr adds \<Rightarrow> list_all (\<lambda>j. list_all (\<lambda>a. list_all (\<lambda>b. name a = name b \<longrightarrow> a = b) adds) (mi_additions j)) (dvalues (mp_spends p)))"

lemma names_apartD:
  assumes "names_apart name ifb npcs p" and "additions_for_npc ifb npcs = Inr adds"
    and "dget (mp_spends p) n = Some j" and "a \<in> set (mi_additions j)" and "b \<in> set adds" and "name a = name b"
  shows "a = b"
proof -
  have "j \<in> set (dvalues (mp_spends p))" using dget_in_set [OF assms(3)] by (force simp: dvalues_def)
  with assms show ?thesis by (auto simp: names_apart_def list_all_iff)
qed

lemma cost_nonneg: "calculate_cost_of_program pr res k = Inr c \<Longrightarrow> 0 \<le> c"
  by (auto simp: calculate_cost_of_program_def rbind_eq_Inr uint_values split: if_splits)

lemma add_spendbundle_ok:
  assumes ok: "manager_ok sh (lib_int_to_bytes L) m" and srt: "items_sorted items"
    and apart: "names_apart (coin_name sh (lib_int_to_bytes L)) (lib_int_from_bytes L) (nr_npc_list res) (mm_mempool m)"
  shows "post (admission sh L (nr_npc_list res) n m) (add_spendbundle sh L items bundle res n program m)"
proof -
  have stay: "admission sh L (nr_npc_list res) n m (m, failed e)" for e using ok by (simp add: admission_def failed_def)
  have stay': "admission sh L (nr_npc_list res) n m (m\<lparr>mm_coin_store := store\<rparr>, failed e)"
    if "removal_records sh (lib_int_to_bytes L) peak ad names (mm_coin_store m) [] 0 = Inr (store, found)" "distinct names"
    for store e peak ad names found
    using removal_records_ok [OF that(1) manager_okD(2) [OF ok] that(2)] manager_ok_update(2) [OF ok]
    by (simp add: admission_def failed_def)
  have known: "admission sh L (nr_npc_list res) n m (m, Some c, SUCCESS, None)" if "dmem n (mp_spends (mm_mempool m))" for c
    using ok that by (auto simp: admission_def dmem_dget)
  have last: "post (admission sh L (nr_npc_list res) n m) (admit sh L items peak
      \<lparr>mi_payload = pl, mi_fee = fees, mi_cost = cost, mi_spend_bundle_name = n, mi_additions = adds,
       mi_removals = map cr_coin (dvalues recs)\<rparr> recs (nr_npc_list res) rate (m\<lparr>mm_coin_store := store\<rparr>))"
    if "mm_peak m = Some peak" "additions_for_npc (lib_int_from_bytes L) (nr_npc_list res) = Inr adds"
      "distinct (map (coin_name sh (lib_int_to_bytes L)) adds)" "distinct (map npc_coin_name (nr_npc_list res))"
      "addition_total mx adds 0 = Inr (Inr a)" "\<not> r < a"
      "removal_records sh (lib_int_to_bytes L) peak (fold (\<lambda>add. dput (coin_name sh (lib_int_to_bytes L) add) add) adds [])
        (map npc_coin_name (nr_npc_list res)) (mm_coin_store m) [] 0 = Inr (store, Inr (recs, r))"
      "\<not> dmem n (mp_spends (mm_mempool m))" "calculate_cost_of_program pr res k = Inr cost" "cost \<noteq> 0"
      "\<not> int_of_float (block_cost_limit m) < cost" "uint64 (r - a) = Inr fees"
    for peak adds a r recs store cost mx pr k fees pl rate
  proof -
    have fees: "fees = r - a" using that(12) by (auto simp: uint_values split: if_splits)
    have cost: "0 < cost" "cost \<le> int_of_float (block_cost_limit m)" using cost_nonneg [OF that(9)] that(10,11) by simp_all
    show ?thesis unfolding fees
      by (rule admitted_valid [OF ok that(1-8) cost refl srt names_apartD [OF apart that(2)]])
  qed
  show ?thesis
    unfolding add_spendbundle_def Let_def
    apply (intro post_intros stay)
         apply (rule known, assumption)
        apply (simp_all only: not_not)
        apply (erule stay', assumption)+
     apply (rule last; (assumption | simp))
    apply (erule stay', assumption)
    done
qed


section \<open>Making a block\<close>

lemma pick_items_ok:
  assumes "\<forall>i \<in> set is. 0 < mi_cost i" and "of_int cs \<le> lmt" and "fs \<le> mx"
  shows "\<exists>k. pick_items lmt mx cs fs is = Inr (take k is) \<and>
    of_int (cs + sum_list (map mi_cost (take k is))) \<le> lmt \<and> fs + sum_list (map mi_fee (take k is)) \<le> mx"
  using assms
proof (induction "is" arbitrary: cs fs)
  case (Cons i "is")
  obtain f where f: "fee_per_cost i = Inr f" using Cons.prems(1) fee_per_cost_defined [of i] by auto
  show ?case
  proof (cases "of_int (mi_cost i + cs) \<le> lmt \<and> mi_fee i + fs \<le> mx")
    case True
    then obtain k where k: "pick_items lmt mx (cs + mi_cost i) (fs + mi_fee i) is = Inr (take k is)"
      "of_int (cs + mi_cost i + sum_list (map mi_cost (take k is))) \<le> lmt" "fs + mi_fee i + sum_list (map mi_fee (take k is)) \<le> mx"
      using Cons.IH [of "cs + mi_cost i" "fs + mi_fee i"] Cons.prems(1) by (auto simp: add.commute)
    show ?thesis using k f True by (intro exI [of _ "Suc k"]) (simp add: add.assoc)
  next
    case False
    then show ?thesis using f Cons.prems by (intro exI [of _ 0]) auto
  qed
qed (auto intro: exI [of _ 0])

lemma falling_triples: "by_falling_rate items p = map (\<lambda>t. snd (snd t)) (triples (rev (items (mp_sorted_spends p))))"
  by (simp add: by_falling_rate_def triples_def dvalues_def map_concat rev_map comp_def case_prod_unfold)

lemma falling_items:
  assumes ok: "mempool_ok name p" and srt: "items_sorted items"
  shows "distinct (by_falling_rate items p)"
    and "i \<in> set (by_falling_rate items p) \<Longrightarrow> dget (mp_spends p) (item_name i) = Some i"
proof -
  note okD = mempool_okD [OF ok]
  let ?gs = "rev (items (mp_sorted_spends p))"
  have wf: "dict_wf (mp_sorted_spends p)" "\<And>f d. dget (mp_sorted_spends p) f = Some d \<Longrightarrow> dict_wf d"
    using okD(5) by (auto simp: rates_ok_def)
  have gs: "set ?gs = set (mp_sorted_spends p)" "dict_wf ?gs"
    using srt wf(1) by (auto simp: items_sorted_def dict_wf_def rev_map [symmetric])
  have mem: "dget (mp_spends p) n = Some i \<and> item_name i = n \<and> fee_per_cost i = Inr f" if tri: "(f, n, i) \<in> set (triples ?gs)" for f n i
  proof -
    obtain d where d: "(f, d) \<in> set (mp_sorted_spends p)" "(n, i) \<in> set d" using tri gs(1) by (auto simp: set_triples)
    have "dget (mp_sorted_spends p) f = Some d" by (rule dict_wf_dget [OF wf(1) d(1)])
    moreover have "dget d n = Some i" by (rule dict_wf_dget [OF wf(2) d(2)]) fact
    ultimately have "dget (mp_spends p) n = Some i \<and> fee_per_cost i = Inr f" using okD(5) unfolding rates_ok_def by blast
    with okD(2) show ?thesis by blast
  qed
  have "\<forall>g \<in> set ?gs. dict_wf (snd g)"
    using gs(1) wf(2) dict_wf_dget [OF wf(1)] by (metis prod.collapse)
  then have "distinct (triples ?gs)" by (rule distinct_triples [OF gs(2)])
  moreover have "inj_on (\<lambda>t. snd (snd t)) (set (triples ?gs))"
  proof (rule inj_onI)
    fix t u assume t: "t \<in> set (triples ?gs)" and u: "u \<in> set (triples ?gs)" and eq: "snd (snd t) = snd (snd u)"
    obtain f n i where t': "t = (f, n, i)" by (cases t) auto
    obtain g k where u': "u = (g, k, i)" using eq t' by (cases u) auto
    show "t = u" using mem [of f n i] mem [of g k i] t u by (simp add: t' u')
  qed
  ultimately show "distinct (by_falling_rate items p)" by (simp add: falling_triples distinct_map)
  show "dget (mp_spends p) (item_name i) = Some i" if "i \<in> set (by_falling_rate items p)"
    using that mem unfolding falling_triples by fastforce
qed

lemma distinct_concat_names:
  assumes "distinct is" and "\<And>i. i \<in> set is \<Longrightarrow> distinct (map nm (sel i))"
    and "\<And>i j c d. i \<in> set is \<Longrightarrow> j \<in> set is \<Longrightarrow> c \<in> set (sel i) \<Longrightarrow> d \<in> set (sel j) \<Longrightarrow> nm c = nm d \<Longrightarrow> i = j"
  shows "distinct (map nm (concat (map sel is)))"
  using assms
proof (induction "is")
  case (Cons i "is")
  have "distinct (map nm (concat (map sel is)))"
    by (rule Cons.IH) (use Cons.prems in \<open>simp, simp, metis list.set_intros(2)\<close>)
  moreover have "distinct (map nm (sel i))" using Cons.prems(2) by simp
  moreover have "nm c \<noteq> nm d" if "c \<in> set (sel i)" "j \<in> set is" "d \<in> set (sel j)" for c d j
    using Cons.prems(1) Cons.prems(3) [of i j c d] that by auto
  ultimately show ?case by auto
qed simp

lemma index_distinct:
  assumes ix: "index_ok name sel sp d" and "distinct is" and mem: "\<And>i. i \<in> set is \<Longrightarrow> dget sp (item_name i) = Some i"
  shows "distinct (map name (concat (map sel is)))"
proof (rule distinct_concat_names [OF assms(2)])
  show "distinct (map name (sel i))" if "i \<in> set is" for i using ix mem [OF that] unfolding index_ok_def by blast
  show "i = j" if "i \<in> set is" "j \<in> set is" "c \<in> set (sel i)" "e \<in> set (sel j)" "name c = name e" for i j c e
  proof -
    have "dget d (name c) = Some i" "dget d (name c) = Some j"
      using index_iff [OF ix] mem that by (metis image_eqI)+
    then show ?thesis by simp
  qed
qed

lemma sum_conserved:
  "(\<And>i. i \<in> set is \<Longrightarrow> conserves i) \<Longrightarrow>
    sum_list (map coin_amount (concat (map mi_removals is))) =
      sum_list (map coin_amount (concat (map mi_additions is))) + sum_list (map mi_fee is)"
  by (induction "is") (auto simp: conserves_def)

text \<open>
  C9. A block made from a well formed pool at its peak spends no coin twice and creates no two coins of the same
  name, conserves value with fees that fit the maximum, and costs at most the limit. Making it never raises.
\<close>

theorem block_from_mempool_sound:
  assumes "manager_ok sh (lib_int_to_bytes L) m" and "items_sorted items" and "mm_peak m = Some peak"
    and "0 < MAX_BLOCK_COST_CLVM (mm_constants m)" and "0 \<le> MAX_COIN_AMOUNT (mm_constants m)" and "0 \<le> block_cost_limit m"
  shows "\<exists>picked. (\<forall>i \<in> set picked. dget (mp_spends (mm_mempool m)) (item_name i) = Some i) \<and>
    create_bundle_from_mempool agg items (br_header_hash peak) m = Inr (if picked = [] then None else
      Some (sb_aggregate agg (map (\<lambda>i. td_spend_bundle (mi_payload i)) picked),
        concat (map mi_additions picked), concat (map mi_removals picked))) \<and>
    distinct (map (coin_name sh (lib_int_to_bytes L)) (concat (map mi_removals picked))) \<and>
    distinct (map (coin_name sh (lib_int_to_bytes L)) (concat (map mi_additions picked))) \<and>
    sum_list (map coin_amount (concat (map mi_removals picked))) =
      sum_list (map coin_amount (concat (map mi_additions picked))) + sum_list (map mi_fee picked) \<and>
    sum_list (map mi_fee picked) \<le> MAX_COIN_AMOUNT (mm_constants m) \<and>
    of_int (sum_list (map mi_cost picked)) \<le> block_cost_limit m"
proof -
  note pool = manager_okD(1) [OF assms(1)]
  note ok = pool_okD(1) [OF pool]
  let ?is = "by_falling_rate items (mm_mempool m)"
  have mem: "dget (mp_spends (mm_mempool m)) (item_name i) = Some i" if "i \<in> set ?is" for i
    using falling_items(2) [OF ok assms(2) that] .
  have pos: "\<forall>i \<in> set ?is. 0 < mi_cost i" using mempool_okD(2) [OF ok mem] by blast
  obtain k where k: "pick_items (block_cost_limit m) (MAX_COIN_AMOUNT (mm_constants m)) 0 0 ?is = Inr (take k ?is)"
    "of_int (sum_list (map mi_cost (take k ?is))) \<le> block_cost_limit m"
    "sum_list (map mi_fee (take k ?is)) \<le> MAX_COIN_AMOUNT (mm_constants m)"
    using pick_items_ok [OF pos, of 0 "block_cost_limit m" 0 "MAX_COIN_AMOUNT (mm_constants m)"] assms(5,6) unfolding of_int_0 add_0
    by blast
  define picked where "picked = take k ?is"
  have pm: "dget (mp_spends (mm_mempool m)) (item_name i) = Some i" if "i \<in> set picked" for i
    by (rule mem) (use that in \<open>auto simp: picked_def dest: in_set_takeD\<close>)
  have pd: "distinct picked" using falling_items(1) [OF ok assms(2)] by (simp add: picked_def)
  have "create_bundle_from_mempool agg items (br_header_hash peak) m = Inr (if picked = [] then None else
      Some (sb_aggregate agg (map (\<lambda>i. td_spend_bundle (mi_payload i)) picked),
        concat (map mi_additions picked), concat (map mi_removals picked)))"
    using assms(3,4) k(1) by (simp add: create_bundle_from_mempool_def true_div_def picked_def [symmetric])
  moreover have "distinct (map (coin_name sh (lib_int_to_bytes L)) (concat (map mi_removals picked)))"
    by (rule index_distinct [OF mempool_okD(4) [OF ok] pd pm])
  moreover have "distinct (map (coin_name sh (lib_int_to_bytes L)) (concat (map mi_additions picked)))"
    by (rule index_distinct [OF mempool_okD(3) [OF ok] pd pm])
  moreover have "sum_list (map coin_amount (concat (map mi_removals picked))) =
      sum_list (map coin_amount (concat (map mi_additions picked))) + sum_list (map mi_fee picked)"
    by (rule sum_conserved) (use pm pool_okD(3) [OF pool] in blast)
  moreover have "\<forall>i \<in> set picked. dget (mp_spends (mm_mempool m)) (item_name i) = Some i" using pm by blast
  moreover note k(2,3) [folded picked_def]
  ultimately show ?thesis by (intro exI [of _ picked] conjI)
qed

section \<open>An example\<close>

text \<open>The name of a coin is the length of what is hashed here, and an atom is read as its first byte.\<close>

definition tx_hash :: "bytes \<Rightarrow> bytes" where
  "tx_hash b = [of_nat (length b)]"

definition tx_lib :: clvm_lib where
  "tx_lib = \<lparr>lib_int_to_bytes = (\<lambda>_. []), lib_int_from_bytes = (\<lambda>b. Inr (case b of [] \<Rightarrow> 0 | x # _ \<Rightarrow> uint x)),
     lib_atom_bin = (\<lambda>b. b), lib_int_bin = (\<lambda>_. []), lib_quote_bin = [1]\<rparr>"

definition tx_by_rate :: "tx_data sorted_items" where
  "tx_by_rate d = sort_key fst d"

definition tx_coin :: Coin where
  "tx_coin = \<lparr>coin_parent_coin_info = replicate 32 1, coin_puzzle_hash = replicate 32 0, coin_amount = 5\<rparr>"

definition tx_store :: CoinStore where
  "tx_store = coin_store_create [row_of tx_hash (\<lambda>_. []) (new_record 1 7 True tx_coin)] 2"

definition tx_peak :: BlockRecord where
  "tx_peak = (sample_record 0)\<lparr>br_header_hash := [5], br_height := 9, br_timestamp := Some 100\<rparr>"

definition tx_manager :: MempoolManager where
  "tx_manager = (mempool_manager_new tx_store DEFAULT_CONSTANTS)\<lparr>mm_peak := Some tx_peak\<rparr>"

definition tx_result :: NPCResult where
  "tx_result = \<lparr>nr_error = None, nr_npc_list = [\<lparr>npc_coin_name = [64], npc_puzzle_hash = replicate 32 0,
       npc_conditions = [(OP_CREATE_COIN, [\<lparr>cwa_opcode = OP_CREATE_COIN, cwa_vars = [replicate 32 7, [3]]\<rparr>]),
         (OP_ASSERT_HEIGHT_ABSOLUTE, [\<lparr>cwa_opcode = OP_ASSERT_HEIGHT_ABSOLUTE, cwa_vars = [[4]]\<rparr>])]\<rparr>],
     nr_clvm_cost = 1000\<rparr>"

definition tx_bundle :: SpendBundle where
  "tx_bundle = \<lparr>sb_coin_spends = [\<lparr>csp_coin = tx_coin, csp_puzzle_reveal = [1], csp_solution = [2]\<rparr>],
     sb_aggregated_signature = []\<rparr>"

definition tx_added :: "(MempoolManager \<times> outcome) comp" where
  "tx_added = add_spendbundle tx_hash tx_lib tx_by_rate tx_bundle tx_result [42] None tx_manager"

lemma tx_by_rate_sorted: "items_sorted tx_by_rate"
  by (simp add: items_sorted_def tx_by_rate_def dict_wf_def distinct_map)

lemma tx_manager_parts:
  "mm_mempool tx_manager = mempool_new (mm_mempool_max_total_cost tx_manager)" "mm_coin_store tx_manager = tx_store"
  "lib_int_to_bytes tx_lib = (\<lambda>_. [])" "mm_mempool_max_total_cost tx_manager = 110000000000"
  "block_cost_limit tx_manager = float_mul (1 / 2) (float_of_int 11000000000)"
  "mm_potential_cache tx_manager = pending_new 55000000000"
  by (simp_all add: tx_manager_def mempool_manager_new_def Let_def tx_lib_def block_cost_limit_def DEFAULT_CONSTANTS_def)

lemma tx_manager_values:
  "store_ok tx_hash (\<lambda>_. []) tx_store" "int_of_float (float_mul (1 / 2) (float_of_int 11000000000)) \<le> 110000000000"
  by code_simp+

lemma tx_pool_ok: "pool_ok name (mempool_new 110000000000)"
  using mempool_new_ok by (simp add: pool_ok_def mempool_new_def)

lemma tx_manager_ok: "manager_ok tx_hash (lib_int_to_bytes tx_lib) tx_manager"
  unfolding manager_ok_def tx_manager_parts
  using tx_pool_ok tx_manager_values by (simp add: mempool_new_def pending_new_def pending_ok_def)

lemma tx_names_apart:
  "names_apart (coin_name tx_hash (lib_int_to_bytes tx_lib)) (lib_int_from_bytes tx_lib) (nr_npc_list tx_result) (mm_mempool tx_manager)"
  by (simp add: names_apart_def tx_manager_parts(1) mempool_new_def dvalues_def split: sum.split)

lemma tx_added_facts:
  "case tx_added of
     Some (Inr (m, c, st, e)) \<Rightarrow> st = SUCCESS \<and> e = None \<and> dget (mp_spends (mm_mempool tx_manager)) [42] = None \<and>
       mm_peak tx_manager = Some tx_peak \<and> mm_peak m = Some tx_peak \<and> br_header_hash tx_peak = [5] \<and>
       0 < MAX_BLOCK_COST_CLVM (mm_constants m) \<and> 0 \<le> MAX_COIN_AMOUNT (mm_constants m) \<and> 0 \<le> block_cost_limit m \<and>
       (case create_bundle_from_mempool concat tx_by_rate [5] m of Inr (Some b) \<Rightarrow> snd (snd b) = [tx_coin] | _ \<Rightarrow> False)
   | _ \<Rightarrow> False"
  by code_simp


text \<open>The block made from that pool spends the coin, and what it does not create again is the fee.\<close>

theorem block_from_mempool_sound_witness:
  "\<exists>m q b fees. tx_added = cret (m, q) \<and> create_bundle_from_mempool concat tx_by_rate [5] m = Inr (Some b) \<and>
     snd (snd b) = [tx_coin] \<and> distinct (map (coin_name tx_hash (lib_int_to_bytes tx_lib)) (fst (snd b))) \<and>
     5 = sum_list (map coin_amount (fst (snd b))) + fees \<and> fees \<le> MAX_COIN_AMOUNT (mm_constants m)"
proof -
  obtain m q b where r: "tx_added = cret (m, q)" and m: "mm_peak m = Some tx_peak" "br_header_hash tx_peak = [5]"
      "0 < MAX_BLOCK_COST_CLVM (mm_constants m)" "0 \<le> MAX_COIN_AMOUNT (mm_constants m)" "0 \<le> block_cost_limit m"
    and b: "create_bundle_from_mempool concat tx_by_rate [5] m = Inr (Some b)" "snd (snd b) = [tx_coin]"
    using tx_added_facts by (auto split: option.splits sum.splits)
  have ok: "manager_ok tx_hash (lib_int_to_bytes tx_lib) m"
    using add_spendbundle_ok [OF tx_manager_ok tx_by_rate_sorted tx_names_apart, of "[42]" tx_bundle None] r
    by (cases q) (auto simp: tx_added_def post_def admission_def)
  have five: "coin_amount tx_coin = 5" by (simp add: tx_coin_def)
  have "\<exists>fees. distinct (map (coin_name tx_hash (lib_int_to_bytes tx_lib)) (fst (snd b))) \<and>
      sum_list (map coin_amount (snd (snd b))) = sum_list (map coin_amount (fst (snd b))) + fees \<and>
      fees \<le> MAX_COIN_AMOUNT (mm_constants m)"
    using block_from_mempool_sound [OF ok tx_by_rate_sorted m(1,3,4,5), of concat] b(1) unfolding m(2)
    by (auto split: if_splits)
  then obtain fees where "distinct (map (coin_name tx_hash (lib_int_to_bytes tx_lib)) (fst (snd b)))"
      "5 = sum_list (map coin_amount (fst (snd b))) + fees" "fees \<le> MAX_COIN_AMOUNT (mm_constants m)"
    using b(2) five by auto
  with r b show ?thesis by (intro exI conjI)
qed

end
