(* ===== verification/Gold_Bech32m.thy ===== *)
theory Gold_Bech32m
  imports Gold_Prelude
begin

unbundle bit_operations_syntax

text \<open>
  Addresses in Bech32m (\<^verbatim>\<open>src/chia/util/bech32m.py\<close>). Integers are unbounded, as in the code. A string
  is a list of characters; \<open>ascii_lower\<close> and \<open>ascii_upper\<close> are \<^verbatim>\<open>str.lower\<close> and \<^verbatim>\<open>str.upper\<close> on the
  printable ASCII characters, the only ones that get that far.
\<close>

definition ord :: "char \<Rightarrow> int" where
  "ord c = of_char c"

definition ascii_lower :: "string \<Rightarrow> string" where
  "ascii_lower s = map (\<lambda>c. if 65 \<le> ord c \<and> ord c \<le> 90 then char_of (of_char c + 32 :: nat) else c) s"

definition ascii_upper :: "string \<Rightarrow> string" where
  "ascii_upper s = map (\<lambda>c. if 97 \<le> ord c \<and> ord c \<le> 122 then char_of (of_char c - 32 :: nat) else c) s"

text \<open>\<^verbatim>\<open>str.find\<close> of one character, and \<^verbatim>\<open>str.rfind\<close>.\<close>

fun find_char :: "string \<Rightarrow> char \<Rightarrow> int" where
  "find_char [] c = -1"
| "find_char (x # xs) c = (if x = c then 0 else (let r = find_char xs c in if r < 0 then r else r + 1))"

fun rfind_char :: "string \<Rightarrow> char \<Rightarrow> int" where
  "rfind_char [] c = -1"
| "rfind_char (x # xs) c = (let r = rfind_char xs c in if r \<ge> 0 then r + 1 else if x = c then 0 else -1)"

definition CHARSET :: string where
  "CHARSET = ''qpzry9x8gf2tvdw0s3jn54khce6mua7l''"

definition generator :: "int list" where
  "generator = [0x3B6A57B2, 0x26508E6D, 0x1EA119FA, 0x3D4233DD, 0x2A1462B3]"

definition polymod_step :: "int \<Rightarrow> int \<Rightarrow> int" where
  "polymod_step value chk =
     (let top = drop_bit 25 chk;
          chk = push_bit 5 (chk AND 0x1FFFFFF) XOR value in
      fold (\<lambda>i chk. chk XOR (if drop_bit i top AND 1 \<noteq> 0 then generator ! i else 0)) [0..<5] chk)"

definition bech32_polymod :: "int list \<Rightarrow> int" where
  "bech32_polymod values = fold polymod_step values 1"

definition bech32_hrp_expand :: "string \<Rightarrow> int list" where
  "bech32_hrp_expand hrp = map (\<lambda>x. drop_bit 5 (ord x)) hrp @ [0] @ map (\<lambda>x. ord x AND 31) hrp"

definition bech32_M :: int where
  "bech32_M = 0x2BC830A3"

definition bech32_verify_checksum :: "string \<Rightarrow> int list \<Rightarrow> bool" where
  "bech32_verify_checksum hrp data = (bech32_polymod (bech32_hrp_expand hrp @ data) = bech32_M)"

definition bech32_create_checksum :: "string \<Rightarrow> int list \<Rightarrow> int list" where
  "bech32_create_checksum hrp data =
     (let values = bech32_hrp_expand hrp @ data;
          polymod = bech32_polymod (values @ [0, 0, 0, 0, 0, 0]) XOR bech32_M in
      map (\<lambda>i. drop_bit (5 * (5 - i)) polymod AND 31) [0..<6])"

definition bech32_encode :: "string \<Rightarrow> int list \<Rightarrow> string res" where
  "bech32_encode hrp data =
     (let combined = data @ bech32_create_checksum hrp data in
      rbind (rmap (py_nth CHARSET) combined) (\<lambda>cs. Inr (hrp @ ''1'' @ cs)))"

text \<open>The pair \<^verbatim>\<open>(None, None)\<close> is \<^term>\<open>None\<close>.\<close>

definition bech32_decode :: "string \<Rightarrow> (string \<times> int list) option" where
  "bech32_decode bech =
     (if list_ex (\<lambda>x. ord x < 33 \<or> ord x > 126) bech \<or> (ascii_lower bech \<noteq> bech \<and> ascii_upper bech \<noteq> bech) then None
      else
        (let bech = ascii_lower bech;
             pos = rfind_char bech CHR ''1'' in
         if pos < 1 \<or> pos + 7 > int (length bech) \<or> length bech > 90 then None
         else if \<not> list_all (\<lambda>x. x \<in> set CHARSET) (drop (nat (pos + 1)) bech) then None
         else
           (let hrp = take (nat pos) bech;
                data = map (find_char CHARSET) (drop (nat (pos + 1)) bech) in
            if \<not> bech32_verify_checksum hrp data then None
            else Some (hrp, take (length data - 6) data))))"

text \<open>
  The inner loop of the conversion, which takes \<open>tobits\<close> bits at a time. The code converts between
  widths 8 and 5 only; for width 0, which it never uses, the loop would not end.
\<close>

function emit :: "nat \<Rightarrow> int \<Rightarrow> int \<Rightarrow> nat \<Rightarrow> int list \<Rightarrow> nat \<times> int list" where
  "emit tobits maxv acc bits ret =
     (if 0 < tobits \<and> bits \<ge> tobits then
        emit tobits maxv acc (bits - tobits) (ret @ [drop_bit (bits - tobits) acc AND maxv])
      else (bits, ret))"
  by pat_completeness auto
termination by (relation "measure (\<lambda>(tobits, maxv, acc, bits, ret). bits)") auto

declare emit.simps [simp del]

definition convert_value :: "nat \<Rightarrow> nat \<Rightarrow> int \<Rightarrow> int \<times> nat \<times> int list \<Rightarrow> (int \<times> nat \<times> int list) res" where
  "convert_value frombits tobits value = (\<lambda>(acc, bits, ret).
     if value < 0 \<or> drop_bit frombits value \<noteq> 0 then Inl ValueError
     else
       (let acc = (push_bit frombits acc OR value) AND (push_bit (frombits + tobits - 1) 1 - 1);
            (bits, ret) = emit tobits (push_bit tobits 1 - 1) acc (bits + frombits) ret in
        Inr (acc, bits, ret)))"

definition convertbits :: "int list \<Rightarrow> nat \<Rightarrow> nat \<Rightarrow> bool \<Rightarrow> int list res" where
  "convertbits data frombits tobits pad =
     rbind (rfold (convert_value frombits tobits) data (0, 0, [])) (\<lambda>(acc, bits, ret).
     let maxv = push_bit tobits 1 - 1 in
     if pad then Inr (if bits \<noteq> 0 then ret @ [push_bit (tobits - bits) acc AND maxv] else ret)
     else if bits \<ge> frombits \<or> push_bit (tobits - bits) acc AND maxv \<noteq> 0 then Inl ValueError
     else Inr ret)"

definition encode_puzzle_hash :: "bytes \<Rightarrow> string \<Rightarrow> string res" where
  "encode_puzzle_hash puzzle_hash prefix =
     rbind (convertbits (map uint puzzle_hash) 8 5 True) (bech32_encode prefix)"

text \<open>\<^verbatim>\<open>bytes(xs)\<close> of a list of integers.\<close>

definition bytes_of_ints :: "int list \<Rightarrow> bytes res" where
  "bytes_of_ints xs = rmap (\<lambda>x. if 0 \<le> x \<and> x < 256 then Inr (word_of_int x) else Inl ValueError) xs"

definition decode_puzzle_hash :: "string \<Rightarrow> bytes res" where
  "decode_puzzle_hash address =
     (case bech32_decode address of
        None \<Rightarrow> Inl ValueError
      | Some (hrpgot, data) \<Rightarrow> rbind (convertbits data 5 8 False) bytes_of_ints)"

end
