(* ===== verification/Gold_Bech32m_Correct.thy ===== *)
theory Gold_Bech32m_Correct
  imports Gold_Bech32m
begin

text \<open>
  Addresses: the checksum of an encoded address verifies, one changed character is always detected, and
  decoding inverts encoding. The proofs rest on the checksum step being linear and on reading the digits
  of both sides of a conversion as one number.
\<close>

unbundle bit_operations_syntax

section \<open>The checksum\<close>

text \<open>
  One step of the checksum is \<open>shift30\<close>, which is linear, plus the next value. Below \<open>2 ^ 25\<close> it only shifts,
  so the six values at the end go straight into the result.
\<close>

definition tap :: "int \<Rightarrow> nat \<Rightarrow> int" where
  "tap chk i = (if bit chk (25 + i) then generator ! i else 0)"

definition shift30 :: "int \<Rightarrow> int" where
  "shift30 chk = push_bit 5 (chk AND 0x1FFFFFF) XOR (tap chk 0 XOR (tap chk 1 XOR (tap chk 2 XOR (tap chk 3 XOR tap chk 4))))"

lemma and_one_bit: "drop_bit i (drop_bit 25 (c :: int)) AND 1 \<noteq> 0 \<longleftrightarrow> bit c (25 + i)"
  by (simp add: and_one_eq bit_iff_odd_drop_bit odd_iff_mod_2_eq_one add.commute)

lemma polymod_step_shift: "polymod_step v c = shift30 c XOR v"
proof -
  have r: "[0..<5] = [0, 1, 2, 3, 4 :: nat]" by (simp add: upt_rec)
  show ?thesis unfolding polymod_step_def Let_def r and_one_bit
    by (simp add: shift30_def tap_def xor.assoc xor.left_commute xor.commute)
qed

lemma tap_xor: "tap (c XOR d) i = tap c i XOR tap d i"
  by (simp add: tap_def bit_xor_iff)

lemma shift30_xor: "shift30 (c XOR d) = shift30 c XOR shift30 d"
proof -
  have a: "(c XOR d) AND m = (c AND m) XOR (d AND m)" for m :: int
    by (rule bit_eqI) (auto simp: bit_simps)
  show ?thesis unfolding shift30_def tap_xor a push_bit_xor
    by (simp only: xor.assoc xor.left_commute xor.commute)
qed

lemma shift30_small:
  assumes "0 \<le> v" and "v < 2 ^ 25"
  shows "shift30 v = push_bit 5 v"
proof -
  have "take_bit 25 v = v" using assms by (simp add: take_bit_int_eq_self)
  moreover have "v AND 0x1FFFFFF = take_bit 25 v" using take_bit_eq_mask [of 25 v] by (simp add: mask_eq_exp_minus_1)
  ultimately have m: "v AND 0x1FFFFFF = v" by simp
  have "\<not> bit v (25 + i)" for i using \<open>take_bit 25 v = v\<close> by (metis bit_take_bit_iff not_add_less1)
  then have "tap v i = 0" for i by (simp add: tap_def)
  then show ?thesis by (simp only: shift30_def m xor.right_neutral)
qed

lemma xor_bound: "0 \<le> a \<and> a < 2 ^ n \<Longrightarrow> 0 \<le> b \<and> b < 2 ^ n \<Longrightarrow> 0 \<le> a XOR b \<and> a XOR b < (2 ^ n :: int)"
  by (simp add: XOR_upper)

lemma shift30_bound: "0 \<le> shift30 c \<and> shift30 c < 2 ^ 30"
proof -
  have t: "0 \<le> tap c i \<and> tap c i < 2 ^ 30" if "i < 5" for i
  proof -
    have "i \<in> {0, 1, 2, 3, 4}" using that by auto
    then show ?thesis by (auto simp: tap_def generator_def)
  qed
  have "c AND 0x1FFFFFF = take_bit 25 c" using take_bit_eq_mask [of 25 c] by (simp add: mask_eq_exp_minus_1)
  then have "0 \<le> push_bit 5 (c AND 0x1FFFFFF) \<and> push_bit 5 (c AND 0x1FFFFFF) < 2 ^ 30"
    using take_bit_int_less_exp [of 25 c] by (simp add: push_bit_eq_mult)
  then show ?thesis unfolding shift30_def by (rule xor_bound) (intro xor_bound t; simp)
qed

lemma polymod_bound:
  assumes "\<forall>v \<in> set vs. 0 \<le> v \<and> v < 2 ^ 30" and "0 \<le> c" and "c < 2 ^ 30"
  shows "0 \<le> fold polymod_step vs c \<and> fold polymod_step vs c < 2 ^ 30"
  using assms
proof (induction vs arbitrary: c)
  case (Cons v vs)
  have "0 \<le> polymod_step v c \<and> polymod_step v c < 2 ^ 30"
    unfolding polymod_step_shift using shift30_bound [of c] Cons.prems(1) by (intro xor_bound) simp_all
  then show ?case using Cons by simp
qed simp

text \<open>Running from \<open>c\<close> and from \<open>d\<close> over the same values differs by the run of \<open>c XOR d\<close> over zeros.\<close>

lemma polymod_linear:
  "length vs = length ws \<Longrightarrow>
    fold polymod_step (map2 (XOR) vs ws) (c XOR d) = fold polymod_step vs c XOR fold polymod_step ws d"
proof (induction vs ws arbitrary: c d rule: list_induct2)
  case (Cons v vs w ws)
  have "polymod_step (v XOR w) (c XOR d) = polymod_step v c XOR polymod_step w d"
    unfolding polymod_step_shift shift30_xor by (simp only: xor.assoc xor.left_commute xor.commute)
  then show ?case using Cons.IH [of "polymod_step v c" "polymod_step w d"] by simp
qed simp

lemma shift_add:
  assumes "0 \<le> d" and "d < 32"
  shows "push_bit 5 v XOR d = 32 * v + (d :: int)"
proof -
  have "take_bit 5 d = d" using assms by (simp add: take_bit_int_eq_self)
  then have nb: "\<not> bit d n" if "5 \<le> n" for n using that by (metis bit_take_bit_iff not_le)
  have "push_bit 5 v AND d = 0"
    by (rule bit_eqI) (use nb in \<open>auto simp: bit_simps\<close>)
  then have "push_bit 5 v + d = push_bit 5 v XOR d" by (rule disjunctive_add_eq_xor)
  then show ?thesis by (simp add: push_bit_eq_mult)
qed

text \<open>The number that digits of \<open>b\<close> bits write after \<open>v\<close>, the most significant digit first.\<close>

definition num :: "nat \<Rightarrow> int list \<Rightarrow> int \<Rightarrow> int" where
  "num b ds v = fold (\<lambda>d v. 2 ^ b * v + d) ds v"

lemma num_simps [simp]:
  "num b [] v = v" "num b (d # ds) v = num b ds (2 ^ b * v + d)" "num b (xs @ ys) v = num b ys (num b xs v)"
  by (simp_all add: num_def)

lemma polymod_num:
  assumes "\<forall>d \<in> set ds. 0 \<le> d \<and> d < 32" and "0 \<le> v" and "v < 2 ^ k" and "k + 5 * length ds \<le> 30"
  shows "fold polymod_step ds v = num 5 ds v"
  using assms
proof (induction ds arbitrary: v k)
  case (Cons d ds)
  have k: "k \<le> 25" using Cons.prems(4) by simp
  have "v < 2 ^ 25" using Cons.prems(3) power_increasing [OF k, of "2 :: int"] by simp
  then have st: "polymod_step d v = 32 * v + d"
    using Cons.prems(1,2) by (simp add: polymod_step_shift shift30_small shift_add)
  have "32 * v + d < 2 ^ (k + 5)" using Cons.prems(1,3) by (simp add: power_add)
  then show ?case using Cons.IH [of "32 * v + d" "k + 5"] Cons.prems st by (simp add: num_def)
qed (simp add: num_def)

lemma num_digits:
  assumes "0 \<le> p" and "p < 2 ^ 30"
  shows "num 5 (map (\<lambda>i. drop_bit (5 * (5 - i)) p AND 31) [0..<6]) 0 = p"
proof -
  have u: "[0..<6] = [0, 1, 2, 3, 4, 5 :: nat]" by (simp add: upt_rec)
  have m: "x AND 31 = x mod 32" for x :: int using take_bit_eq_mask [of 5 x] by (simp add: mask_eq_exp_minus_1 take_bit_eq_mod)
  have e: "drop_bit n p = 32 * drop_bit (n + 5) p + drop_bit n p mod 32" for n
  proof -
    have "drop_bit (n + 5) p = drop_bit n p div 32" by (simp add: drop_bit_eq_div power_add zdiv_zmult2_eq)
    then show ?thesis by simp
  qed
  have "drop_bit 25 p mod 32 = drop_bit 25 p" using assms by (simp add: drop_bit_eq_div mod_pos_pos_trivial)
  moreover have "num 5 (map (\<lambda>i. drop_bit (5 * (5 - i)) p AND 31) [0..<6]) 0 =
      32 * (32 * (32 * (32 * (32 * (drop_bit 25 p mod 32) + drop_bit 20 p mod 32) + drop_bit 15 p mod 32) +
        drop_bit 10 p mod 32) + drop_bit 5 p mod 32) + drop_bit 0 p mod 32"
    unfolding u num_def m by simp
  moreover have "drop_bit (0 + 5) p = drop_bit 5 p" "drop_bit (5 + 5) p = drop_bit 10 p"
    "drop_bit (10 + 5) p = drop_bit 15 p" "drop_bit (15 + 5) p = drop_bit 20 p" "drop_bit (20 + 5) p = drop_bit 25 p"
    "drop_bit 0 p = p" by simp_all
  moreover have "32 * (32 * (32 * (32 * (32 * a5 + r4) + r3) + r2) + r1) + r0 = a0"
    if "a0 = 32 * a1 + r0" "a1 = 32 * a2 + r1" "a2 = 32 * a3 + r2" "a3 = 32 * a4 + r3" "a4 = 32 * a5 + r4"
    for a0 a1 a2 a3 a4 a5 r0 r1 r2 r3 r4 :: int
    using that by simp
  ultimately show ?thesis using e [of 0] e [of 5] e [of 10] e [of 15] e [of 20] by metis
qed

lemma checksum_digits: "d \<in> set (bech32_create_checksum hrp data) \<Longrightarrow> 0 \<le> d \<and> d < 32"
proof -
  have m: "x AND 31 = x mod 32" for x :: int using take_bit_eq_mask [of 5 x] by (simp add: mask_eq_exp_minus_1 take_bit_eq_mod)
  assume "d \<in> set (bech32_create_checksum hrp data)"
  then show ?thesis unfolding bech32_create_checksum_def Let_def m by auto
qed

lemma length_checksum [simp]: "length (bech32_create_checksum hrp data) = 6"
  by (simp add: bech32_create_checksum_def Let_def)

lemma ord_bound: "0 \<le> ord c \<and> ord c < 256"
proof -
  have "ord c = int (of_char c)" by (simp add: ord_def of_nat_of_char)
  moreover have "of_char c < (256 :: nat)" by simp
  ultimately show ?thesis by linarith
qed

lemma hrp_expand_bound: "v \<in> set (bech32_hrp_expand hrp) \<Longrightarrow> 0 \<le> v \<and> v < 2 ^ 30"
proof -
  have m: "x AND 31 = x mod 32" for x :: int using take_bit_eq_mask [of 5 x] by (simp add: mask_eq_exp_minus_1 take_bit_eq_mod)
  have "0 \<le> drop_bit 5 (ord c) \<and> drop_bit 5 (ord c) < 2 ^ 30" for c
    using ord_bound [of c] by (simp add: drop_bit_eq_div) arith
  moreover have "0 \<le> x mod 32 \<and> x mod 32 < 2 ^ 30" for x :: int
    using pos_mod_bound [of 32 x] by simp
  moreover assume "v \<in> set (bech32_hrp_expand hrp)"
  ultimately show ?thesis unfolding bech32_hrp_expand_def m by auto
qed

lemma checksum_verifies:
  assumes "\<forall>d \<in> set data. 0 \<le> d \<and> d < 32"
  shows "bech32_verify_checksum hrp (data @ bech32_create_checksum hrp data)"
proof -
  let ?ck = "bech32_create_checksum hrp data" and ?z = "[0, 0, 0, 0, 0, 0 :: int]"
  define c where "c = fold polymod_step (bech32_hrp_expand hrp @ data) 1"
  define p where "p = fold polymod_step ?z c"
  have vs: "\<forall>v \<in> set (bech32_hrp_expand hrp @ data). 0 \<le> v \<and> v < 2 ^ 30"
    using hrp_expand_bound assms by fastforce
  have cb: "0 \<le> c \<and> c < 2 ^ 30" unfolding c_def by (rule polymod_bound [OF vs]) simp_all
  have pb: "0 \<le> p \<and> p < 2 ^ 30" unfolding p_def by (rule polymod_bound) (use cb in simp_all)
  have q: "0 \<le> p XOR bech32_M \<and> p XOR bech32_M < 2 ^ 30"
    using pb by (intro xor_bound) (simp_all add: bech32_M_def)
  have ck: "?ck = map (\<lambda>i. drop_bit (5 * (5 - i)) (p XOR bech32_M) AND 31) [0..<6]"
    by (simp add: bech32_create_checksum_def Let_def bech32_polymod_def p_def c_def)
  have "fold polymod_step ?ck 0 = num 5 ?ck 0"
    by (rule polymod_num [where k = 0]) (use checksum_digits in auto)
  also have "\<dots> = p XOR bech32_M" unfolding ck using q by (intro num_digits) auto
  finally have h: "fold polymod_step ?ck 0 = p XOR bech32_M" .
  have z: "map2 (XOR) ?z ?ck = ?ck" by (rule nth_equalityI) (auto simp: nth_Cons' less_Suc_eq_0_disj)
  have "fold polymod_step ?ck c = p XOR fold polymod_step ?ck 0"
    using polymod_linear [of ?z ?ck c 0] unfolding z p_def by simp
  also have "\<dots> = bech32_M" unfolding h by (simp add: xor.assoc [symmetric])
  finally show ?thesis by (simp add: bech32_verify_checksum_def bech32_polymod_def c_def)
qed

section \<open>One wrong character\<close>

lemma low_taps:
  "(a \<longrightarrow> False) \<and> (b \<longrightarrow> False) \<and> (c \<longrightarrow> False) \<and> (d \<longrightarrow> False) \<and> (e \<longrightarrow> False)"
  if "take_bit 5 ((if a then generator ! 0 else 0) XOR ((if b then generator ! 1 else 0) XOR
    ((if c then generator ! 2 else 0) XOR ((if d then generator ! 3 else 0) XOR
    (if e then generator ! 4 else 0))))) = 0"
  using that by (cases a; cases b; cases c; cases d; cases e) (simp_all add: generator_def take_bit_eq_mod)

lemma shift30_kernel:
  assumes "0 \<le> c" and "c < 2 ^ 30" and z: "shift30 c = 0"
  shows "c = 0"
proof -
  have "take_bit 5 (push_bit 5 x XOR y) = take_bit 5 y" for x y :: int
    by (simp add: take_bit_push_bit)
  with z have "take_bit 5 (tap c 0 XOR (tap c 1 XOR (tap c 2 XOR (tap c 3 XOR tap c 4)))) = 0"
    unfolding shift30_def by (metis take_bit_of_0)
  then have nt: "\<not> bit c (25 + 0)" "\<not> bit c (25 + 1)" "\<not> bit c (25 + 2)" "\<not> bit c (25 + 3)" "\<not> bit c (25 + 4)"
    unfolding tap_def using low_taps by blast+
  then have "tap c 0 = 0" "tap c 1 = 0" "tap c 2 = 0" "tap c 3 = 0" "tap c 4 = 0" by (simp_all add: tap_def)
  with z have "push_bit 5 (c AND 0x1FFFFFF) = 0" unfolding shift30_def by simp
  moreover have "c AND 0x1FFFFFF = take_bit 25 c" using take_bit_eq_mask [of 25 c] by (simp add: mask_eq_exp_minus_1)
  ultimately have low: "take_bit 25 c = 0" by simp
  have t30: "take_bit 30 c = c" using assms by (simp add: take_bit_int_eq_self)
  show ?thesis
  proof (rule bit_eqI)
    fix n
    have "\<not> bit c n" if "n < 25" using low that by (metis bit_0_eq bit_take_bit_iff bot_apply bot_bool_def)
    moreover have "\<not> bit c n" if "n \<ge> 30" using t30 that by (metis bit_take_bit_iff not_le)
    moreover have "\<not> bit c n" if "25 \<le> n" "n < 30"
    proof -
      have "n = 25 + 0 \<or> n = 25 + 1 \<or> n = 25 + 2 \<or> n = 25 + 3 \<or> n = 25 + 4" using that by arith
      with nt show ?thesis by metis
    qed
    ultimately show "bit c n \<longleftrightarrow> bit (0 :: int) n" by fastforce
  qed
qed

lemma zeros_nonzero:
  assumes "0 \<le> c" and "c < 2 ^ 30" and "c \<noteq> 0"
  shows "fold polymod_step (replicate n 0) c \<noteq> 0"
  using assms
proof (induction n arbitrary: c)
  case (Suc n)
  have "polymod_step 0 c = shift30 c" by (simp add: polymod_step_shift)
  with Suc shift30_bound [of c] shift30_kernel [of c] show ?case by auto
qed simp

text \<open>
  C22. The checksum detects every change of one character of the data part: of two strings of values
  that differ in one place at most one is accepted.
\<close>

theorem checksum_detects_substitution:
  assumes "0 \<le> v" "v < 32" "0 \<le> w" "w < 32" and "v \<noteq> w" and "bech32_verify_checksum hrp (xs @ v # ys)"
  shows "\<not> bech32_verify_checksum hrp (xs @ w # ys)"
proof
  assume ver: "bech32_verify_checksum hrp (xs @ w # ys)"
  define c where "c = fold polymod_step (bech32_hrp_expand hrp @ xs) 1"
  let ?run = "\<lambda>d. fold polymod_step ys d"
  have "?run (polymod_step v c) = ?run (polymod_step w c)"
    using assms(6) ver by (simp add: bech32_verify_checksum_def bech32_polymod_def c_def)
  moreover have "map2 (XOR) ys ys = replicate (length ys) (0 :: int)"
    by (rule nth_equalityI) simp_all
  ultimately have "fold polymod_step (replicate (length ys) 0) (polymod_step v c XOR polymod_step w c) = 0"
    using polymod_linear [of ys ys "polymod_step v c" "polymod_step w c"] by simp
  moreover have e: "polymod_step v c XOR polymod_step w c = v XOR w"
    unfolding polymod_step_shift by (simp add: xor.assoc xor.left_commute xor.commute)
  have "0 \<le> v XOR w \<and> v XOR w < 2 ^ 5" using assms by (intro xor_bound) simp_all
  moreover have "v XOR w \<noteq> 0" using assms(5) by (metis xor.assoc xor.right_neutral xor_self_eq)
  ultimately show False using zeros_nonzero [of "v XOR w" "length ys"] unfolding e by simp
qed

section \<open>Conversion of digits\<close>

lemma push_mask: "push_bit n 1 - 1 = (mask n :: int)"
  by (simp add: mask_eq_exp_minus_1 push_bit_eq_mult)

lemma and_mask: "x AND mask n = x mod (2 ^ n :: int)"
  by (metis take_bit_eq_mask take_bit_eq_mod)

definition digits :: "nat \<Rightarrow> int list \<Rightarrow> bool" where
  "digits b ds = (\<forall>d \<in> set ds. 0 \<le> d \<and> d < 2 ^ b)"

lemma split_mod: "(a :: int) mod 2 ^ (k + n) = a div 2 ^ n mod 2 ^ k * 2 ^ n + a mod 2 ^ n"
proof -
  have "a mod (2 ^ n * 2 ^ k) = 2 ^ n * (a div 2 ^ n mod 2 ^ k) + a mod 2 ^ n" by (rule zmod_zmult2_eq) simp
  then show ?thesis by (simp add: power_add mult.commute)
qed

lemma emit_spec:
  assumes "0 < t" and "digits t ret" and "emit t (mask t) acc bits ret = (bits', ret')"
  shows "bits' < t \<and> digits t ret' \<and> length ret' * t + bits' = length ret * t + bits \<and>
    num t ret' 0 * 2 ^ bits' + acc mod 2 ^ bits' = num t ret 0 * 2 ^ bits + acc mod 2 ^ bits"
  using assms
proof (induction t "mask t :: int" acc bits ret rule: emit.induct)
  case (1 t acc bits ret)
  show ?case
  proof (cases "t \<le> bits")
    case False
    with 1 show ?thesis by (simp add: emit.simps [of t "mask t"])
  next
    case True
    let ?d = "drop_bit (bits - t) acc AND mask t"
    have d: "?d = acc div 2 ^ (bits - t) mod 2 ^ t" by (simp add: and_mask drop_bit_eq_div)
    have dg: "digits t (ret @ [?d])" using 1(3) by (simp add: digits_def d)
    have em: "emit t (mask t) acc (bits - t) (ret @ [?d]) = (bits', ret')"
      using 1(2,4) True by (simp add: emit.simps [of t "mask t" acc bits ret])
    note ih = 1(1) [OF _ 1(2) dg em]
    have "acc mod 2 ^ bits = ?d * 2 ^ (bits - t) + acc mod 2 ^ (bits - t)"
      using split_mod [of acc t "bits - t"] True d by simp
    moreover have "(2 :: int) ^ bits = 2 ^ t * 2 ^ (bits - t)" using True by (simp flip: power_add)
    ultimately have "num t (ret @ [?d]) 0 * 2 ^ (bits - t) + acc mod 2 ^ (bits - t) = num t ret 0 * 2 ^ bits + acc mod 2 ^ bits"
      by (simp add: algebra_simps)
    with ih 1(2) True show ?thesis by (simp add: algebra_simps)
  qed
qed

definition converted :: "nat \<Rightarrow> nat \<Rightarrow> int list \<Rightarrow> int \<times> nat \<times> int list \<Rightarrow> bool" where
  "converted f t pre = (\<lambda>(acc, bits, ret). 0 \<le> acc \<and> bits < t \<and> digits t ret \<and>
     length ret * t + bits = length pre * f \<and> num t ret 0 * 2 ^ bits + acc mod 2 ^ bits = num f pre 0)"

lemma append_bits:
  assumes "0 \<le> v" and "v < 2 ^ f"
  shows "push_bit f acc OR v = acc * 2 ^ f + (v :: int)"
proof -
  have "take_bit f v = v" using assms by (simp add: take_bit_int_eq_self)
  then have nb: "\<not> bit v n" if "f \<le> n" for n using that by (metis bit_take_bit_iff not_le)
  have "push_bit f acc AND v = 0" by (rule bit_eqI) (use nb in \<open>auto simp: bit_simps\<close>)
  then have "push_bit f acc + v = push_bit f acc OR v" by (rule disjunctive_add_eq_or)
  then show ?thesis by (simp add: push_bit_eq_mult)
qed

lemma mod_append:
  assumes "0 \<le> v" and "v < (2 :: int) ^ f"
  shows "(acc * 2 ^ f + v) mod 2 ^ (b + f) = (acc mod 2 ^ b) * 2 ^ f + v"
proof -
  have "(acc * 2 ^ f + v) div 2 ^ f = acc" "(acc * 2 ^ f + v) mod 2 ^ f = v"
    using assms by (simp_all add: div_pos_pos_trivial)
  then show ?thesis using split_mod [of "acc * 2 ^ f + v" b f] by simp
qed

lemma convert_step:
  assumes "converted f t pre st" and "0 \<le> v" and "v < 2 ^ f" and "0 < t"
  shows "\<exists>st'. convert_value f t v st = Inr st' \<and> converted f t (pre @ [v]) st'"
proof -
  obtain acc bits ret where st: "st = (acc, bits, ret)" by (cases st) auto
  have c: "0 \<le> acc" "bits < t" "digits t ret" "length ret * t + bits = length pre * f"
    "num t ret 0 * 2 ^ bits + acc mod 2 ^ bits = num f pre 0" using assms(1) by (simp_all add: converted_def st)
  define acc' where "acc' = (push_bit f acc OR v) AND mask (f + t - 1)"
  have acc': "acc' = (acc * 2 ^ f + v) mod 2 ^ (f + t - 1)"
    unfolding acc'_def and_mask append_bits [OF assms(2,3)] ..
  have "acc' mod 2 ^ (bits + f) = (acc * 2 ^ f + v) mod 2 ^ (bits + f)"
    unfolding acc' by (rule mod_mod_cancel) (use c(2) in \<open>simp add: le_imp_power_dvd\<close>)
  then have low: "acc' mod 2 ^ (bits + f) = (acc mod 2 ^ bits) * 2 ^ f + v"
    using mod_append [OF assms(2,3)] by simp
  obtain bits' ret' where em: "emit t (mask t) acc' (bits + f) ret = (bits', ret')" by fastforce
  note e = emit_spec [OF assms(4) c(3) em]
  have "drop_bit f v = 0" using assms(2,3) by (simp add: drop_bit_eq_div div_pos_pos_trivial)
  then have run: "convert_value f t v st = Inr (acc', bits', ret')"
    unfolding convert_value_def st push_mask prod.case Let_def acc'_def [symmetric] em using assms(2) by simp
  have "num t ret' 0 * 2 ^ bits' + acc' mod 2 ^ bits' = 2 ^ f * (num t ret 0 * 2 ^ bits + acc mod 2 ^ bits) + v"
    using e low by (simp add: power_add algebra_simps)
  also have "\<dots> = num f (pre @ [v]) 0" unfolding c(5) by simp
  finally have "converted f t (pre @ [v]) (acc', bits', ret')"
    using e c(4) by (simp add: converted_def) (simp add: acc')
  with run show ?thesis by blast
qed

lemma convert_all:
  assumes "digits f data" and "0 < t" and "converted f t pre st"
  shows "\<exists>st'. rfold (convert_value f t) data st = Inr st' \<and> converted f t (pre @ data) st'"
  using assms
proof (induction data arbitrary: pre st)
  case (Cons v data)
  have v: "0 \<le> v" "v < 2 ^ f" using Cons.prems(1) by (simp_all add: digits_def)
  obtain st1 where st1: "convert_value f t v st = Inr st1" "converted f t (pre @ [v]) st1"
    using convert_step [OF Cons.prems(3) v Cons.prems(2)] by blast
  have "digits f data" using Cons.prems(1) by (simp add: digits_def)
  from Cons.IH [OF this Cons.prems(2) st1(2)] show ?case by (simp add: st1(1))
qed simp

lemma num_inj:
  assumes "length xs = length ys" and "digits b xs" and "digits b ys" and "num b xs 0 = num b ys 0"
  shows "xs = ys"
  using assms
proof (induction xs arbitrary: ys rule: rev_induct)
  case (snoc x xs)
  obtain y zs where ys: "ys = zs @ [y]" using snoc.prems(1) by (cases ys rule: rev_cases) auto
  have r: "0 \<le> x" "x < 2 ^ b" "0 \<le> y" "y < 2 ^ b" using snoc.prems(2,3) ys by (auto simp: digits_def)
  have eq: "2 ^ b * num b xs 0 + x = 2 ^ b * num b zs 0 + y" using snoc.prems(4) ys by simp
  have "(2 ^ b * num b xs 0 + x) mod 2 ^ b = x" "(2 ^ b * num b zs 0 + y) mod 2 ^ b = y" using r by simp_all
  with eq have xy: "x = y" by simp
  with eq have "num b xs 0 = num b zs 0" by simp
  with snoc.IH [of zs] snoc.prems ys xy show ?case by (simp add: digits_def)
qed simp

lemma pad_mod: "b \<le> t \<Longrightarrow> push_bit (t - b) acc AND mask t = (acc mod 2 ^ b) * (2 ^ (t - b) :: int)"
proof -
  assume "b \<le> t"
  then show ?thesis using mod_append [of 0 "t - b" acc b] by (simp add: and_mask push_bit_eq_mult)
qed

lemma converted_start: "0 < t \<Longrightarrow> converted f t [] (0, 0, [])"
  by (simp add: converted_def digits_def)

lemma convert_pad:
  assumes "digits f data" and "0 < t"
  shows "\<exists>ds p. convertbits data f t True = Inr ds \<and> digits t ds \<and> p < t \<and> length ds * t = length data * f + p \<and>
    num t ds 0 = num f data 0 * 2 ^ p"
proof -
  obtain acc bits ret where r: "rfold (convert_value f t) data (0, 0, []) = Inr (acc, bits, ret)"
    and c: "0 \<le> acc" "bits < t" "digits t ret" "length ret * t + bits = length data * f"
      "num t ret 0 * 2 ^ bits + acc mod 2 ^ bits = num f data 0"
    using convert_all [OF assms converted_start [OF assms(2)]] by (auto simp: converted_def)
  show ?thesis
  proof (cases "bits = 0")
    case True
    with r c assms(2) show ?thesis by (intro exI [of _ ret] exI [of _ 0]) (simp add: convertbits_def Let_def)
  next
    case False
    let ?d = "push_bit (t - bits) acc AND mask t"
    have d: "?d = (acc mod 2 ^ bits) * 2 ^ (t - bits)" by (rule pad_mod) (use c(2) in simp)
    have "0 \<le> ?d \<and> ?d < 2 ^ t" by (simp add: and_mask)
    then have "digits t (ret @ [?d])" using c(3) by (simp add: digits_def)
    moreover have "convertbits data f t True = Inr (ret @ [?d])"
      using False by (simp add: convertbits_def r Let_def flip: push_mask)
    moreover have "(2 :: int) ^ t = 2 ^ bits * 2 ^ (t - bits)" using c(2) by (simp flip: power_add)
    then have "num t (ret @ [?d]) 0 = num f data 0 * 2 ^ (t - bits)"
      unfolding c(5) [symmetric] by (simp add: d algebra_simps)
    moreover have "length (ret @ [?d]) * t = length data * f + (t - bits)" using c(2,4) by simp
    ultimately show ?thesis using False c(2) by (intro exI [of _ "ret @ [?d]"] exI [of _ "t - bits"]) simp
  qed
qed

lemma convert_back:
  assumes "digits f data" and "digits t ds" and "0 < f" and "t \<le> f" and "p < t"
    and "length ds * t = length data * f + p" and "num t ds 0 = num f data 0 * 2 ^ p"
  shows "convertbits ds t f False = Inr data"
proof -
  obtain acc bits ret where r: "rfold (convert_value t f) ds (0, 0, []) = Inr (acc, bits, ret)"
    and c: "0 \<le> acc" "bits < f" "digits f ret" "length ret * f + bits = length ds * t"
      "num f ret 0 * 2 ^ bits + acc mod 2 ^ bits = num t ds 0"
    using convert_all [OF assms(2,3) converted_start [OF assms(3)]] by (auto simp: converted_def)
  have len: "length ret = length data" and b: "bits = p"
  proof -
    have e: "length ret * f + bits = length data * f + p" using c(4) assms(6) by simp
    have "(length ret * f + bits) div f = length ret" "(length data * f + p) div f = length data"
      using c(2) assms(4,5) by simp_all
    with e show "length ret = length data" by simp
    with e show "bits = p" by simp
  qed
  have "(num f ret 0 * 2 ^ p + acc mod 2 ^ p) mod 2 ^ p = 0" using c(5) assms(7) b by simp
  then have z: "acc mod 2 ^ p = 0" by simp
  with c(5) assms(7) b have "num f ret 0 = num f data 0" by simp
  then have eq: "ret = data" using num_inj [OF len c(3) assms(1)] by simp
  have "push_bit (f - bits) acc AND mask f = 0" using pad_mod [of bits f acc] c(2) z b by simp
  then show ?thesis unfolding convertbits_def r rbind_Inr prod.case Let_def push_mask using b assms(5) eq by simp
qed

section \<open>Addresses\<close>

definition hrp_ok :: "string \<Rightarrow> bool" where
  "hrp_ok hrp = (hrp \<noteq> [] \<and> list_all (\<lambda>c. 33 \<le> ord c \<and> ord c \<le> 126 \<and> \<not> (65 \<le> ord c \<and> ord c \<le> 90)) hrp)"

lemma charset_chars:
  "list_all (\<lambda>c. 33 \<le> ord c \<and> ord c \<le> 126 \<and> \<not> (65 \<le> ord c \<and> ord c \<le> 90) \<and> c \<noteq> CHR ''1'') CHARSET"
  by code_simp

lemma charset_find: "list_all (\<lambda>d. find_char CHARSET (CHARSET ! d) = int d) [0..<32]"
  by code_simp

lemma length_CHARSET: "length CHARSET = 32"
  by code_simp

lemma find_nth: "0 \<le> d \<Longrightarrow> d < 32 \<Longrightarrow> find_char CHARSET (CHARSET ! nat d) = d"
  using charset_find by (auto simp: list_all_iff)

lemma lower_id:
  "list_all (\<lambda>c. 33 \<le> ord c \<and> ord c \<le> 126 \<and> \<not> (65 \<le> ord c \<and> ord c \<le> 90)) s \<Longrightarrow> ascii_lower s = s"
  by (induction s) (auto simp: ascii_lower_def)

lemma rfind_absent: "c \<notin> set s \<Longrightarrow> rfind_char s c = -1"
  by (induction s) auto

lemma rfind_last: "c \<notin> set s \<Longrightarrow> rfind_char (h @ c # s) c = int (length h)"
  by (induction h) (auto simp: rfind_absent)

lemma bech32_roundtrip:
  assumes hrp: "hrp_ok hrp" and ds: "digits 5 ds" and len: "length hrp + length ds + 7 \<le> 90"
  shows "\<exists>a. bech32_encode hrp ds = Inr a \<and> bech32_decode a = Some (hrp, ds)"
proof -
  define cb where "cb = ds @ bech32_create_checksum hrp ds"
  define cs where "cs = map (\<lambda>d. CHARSET ! nat d) cb"
  have cb: "0 \<le> d \<and> d < 32" if "d \<in> set cb" for d
    using that ds checksum_digits [of d hrp ds] by (auto simp: cb_def digits_def)
  have "rmap (py_nth CHARSET) cb = Inr cs"
    unfolding cs_def by (rule rmap_total) (use cb in \<open>simp add: py_nth_nonneg length_CHARSET\<close>)
  then have enc: "bech32_encode hrp ds = Inr (hrp @ CHR ''1'' # cs)"
    by (simp add: bech32_encode_def Let_def cb_def [symmetric])
  have cs: "x \<in> set CHARSET" if x: "x \<in> set cs" for x
  proof -
    obtain d where d: "d \<in> set cb" "x = CHARSET ! nat d" using x by (auto simp: cs_def)
    then have "nat d < length CHARSET" using cb [OF d(1)] by (simp add: length_CHARSET nat_less_iff)
    with d(2) show ?thesis by simp
  qed
  have one: "33 \<le> ord CHR ''1'' \<and> ord CHR ''1'' \<le> 126 \<and> \<not> (65 \<le> ord CHR ''1'' \<and> ord CHR ''1'' \<le> 90)" by code_simp
  have csok: "33 \<le> ord x \<and> ord x \<le> 126 \<and> \<not> (65 \<le> ord x \<and> ord x \<le> 90) \<and> x \<noteq> CHR ''1''" if "x \<in> set cs" for x
    using charset_chars cs [OF that] by (auto simp: list_all_iff)
  let ?a = "hrp @ CHR ''1'' # cs"
  have ok: "list_all (\<lambda>c. 33 \<le> ord c \<and> ord c \<le> 126 \<and> \<not> (65 \<le> ord c \<and> ord c \<le> 90)) ?a"
    using hrp one csok by (auto simp: hrp_ok_def list_all_iff)
  have "CHR ''1'' \<notin> set cs" using csok by blast
  then have pos: "rfind_char ?a CHR ''1'' = int (length hrp)" by (rule rfind_last)
  have data: "map (find_char CHARSET) cs = cb"
    unfolding cs_def map_map comp_def by (rule map_idI) (use cb find_nth in blast)
  have ver: "bech32_verify_checksum hrp cb"
    unfolding cb_def by (rule checksum_verifies) (use ds in \<open>simp add: digits_def\<close>)
  have rng: "\<not> list_ex (\<lambda>x. ord x < 33 \<or> ord x > 126) ?a"
    using ok unfolding list_all_iff list_ex_iff by (meson not_le)
  have nat1: "nat (int (length hrp) + 1) = Suc (length hrp)" by simp
  have lcs: "length cs = length ds + 6" by (simp add: cs_def cb_def)
  have all: "list_all (\<lambda>x. x \<in> set CHARSET) cs" using cs by (simp add: list_all_iff)
  have "bech32_decode ?a = Some (hrp, ds)"
    unfolding bech32_decode_def lower_id [OF ok] Let_def pos
    using rng hrp len lcs all ver data by (simp add: nat1 hrp_ok_def) (simp add: cb_def)
  with enc show ?thesis by blast
qed

lemma bytes_roundtrip: "bytes_of_ints (map uint bs) = Inr bs"
proof (induction bs)
  case (Cons b bs)
  have "uint b < 256" using uint_lt2p [of b] by simp
  with Cons show ?case by (simp add: bytes_of_ints_def)
qed (simp add: bytes_of_ints_def)

text \<open>
  C11. An address decodes to the bytes it was made from, for every prefix of printable characters without
  capital letters, as long as the address has at most ninety characters.
\<close>

theorem address_roundtrip:
  assumes "hrp_ok hrp" and "length hrp + (8 * length ph + 4) div 5 + 7 \<le> 90"
  shows "\<exists>a. encode_puzzle_hash ph hrp = Inr a \<and> decode_puzzle_hash a = Inr ph"
proof -
  have d8: "digits 8 (map uint ph)"
  proof -
    have "uint b < 256" for b :: byte using uint_lt2p [of b] by simp
    then show ?thesis by (auto simp: digits_def)
  qed
  obtain ds p where ds: "convertbits (map uint ph) 8 5 True = Inr ds" "digits 5 ds" "p < 5"
    "length ds * 5 = length (map uint ph) * 8 + p" "num 5 ds 0 = num 8 (map uint ph) 0 * 2 ^ p"
    using convert_pad [OF d8, of 5] by auto
  have "length ds = (8 * length ph + 4) div 5" using ds(3,4) by simp
  then have len: "length hrp + length ds + 7 \<le> 90" using assms(2) by simp
  obtain a where a: "bech32_encode hrp ds = Inr a" "bech32_decode a = Some (hrp, ds)"
    using bech32_roundtrip [OF assms(1) ds(2) len] by blast
  have "convertbits ds 5 8 False = Inr (map uint ph)"
    by (rule convert_back [OF d8 ds(2) _ _ ds(3-5)]) simp_all
  with ds(1) a show ?thesis by (simp add: encode_puzzle_hash_def decode_puzzle_hash_def bytes_roundtrip)
qed

theorem address_roundtrip_witness:
  "\<exists>a. encode_puzzle_hash [0, 1, 2, 3, 4, 5, 6, 7, 8, 9, 10, 11, 12, 13, 14, 15, 16, 17, 18, 19, 20, 21, 22, 23, 24, 25, 26,
      27, 28, 29, 30, 255] ''gl'' = Inr a \<and>
    decode_puzzle_hash a = Inr [0, 1, 2, 3, 4, 5, 6, 7, 8, 9, 10, 11, 12, 13, 14, 15, 16, 17, 18, 19, 20, 21, 22, 23, 24, 25, 26,
      27, 28, 29, 30, 255]"
proof (rule address_roundtrip)
  show "hrp_ok ''gl''" by code_simp
qed simp

theorem checksum_detects_substitution_witness:
  "bech32_verify_checksum ''gl'' ([] @ 3 # bech32_create_checksum ''gl'' [3]) \<and>
   \<not> bech32_verify_checksum ''gl'' ([] @ 4 # bech32_create_checksum ''gl'' [3])"
proof -
  have v: "bech32_verify_checksum ''gl'' ([] @ 3 # bech32_create_checksum ''gl'' [3])" by code_simp
  show ?thesis using v checksum_detects_substitution [OF _ _ _ _ _ v, of 4] by simp
qed

end
