(* ===== verification/Gold_Rate_Limits.thy ===== *)
theory Gold_Rate_Limits
  imports Gold_Prelude Gold_Float
begin

text \<open>
  The types of messages (\<^verbatim>\<open>src/chia/protocols/protocol_message_types.py\<close>) and the limits on what a peer may
  send (\<^verbatim>\<open>src/chia/server/rate_limits.py\<close>). The time is an argument of the operations that read it.
\<close>

section \<open>Types of messages\<close>

datatype (plugins only: code) ProtocolMessageTypes =
    handshake
  | harvester_handshake
  | new_proof_of_space
  | request_signatures
  | respond_signatures
  | new_signage_point
  | declare_proof_of_space
  | request_signed_values
  | signed_values
  | farming_info
  | new_peak_timelord
  | new_unfinished_block_timelord
  | new_infusion_point_vdf
  | new_signage_point_vdf
  | new_end_of_sub_slot_vdf
  | request_compact_proof_of_time
  | respond_compact_proof_of_time
  | new_peak
  | new_transaction
  | request_transaction
  | respond_transaction
  | request_proof_of_weight
  | respond_proof_of_weight
  | request_block
  | respond_block
  | reject_block
  | request_blocks
  | respond_blocks
  | reject_blocks
  | new_unfinished_block
  | request_unfinished_block
  | respond_unfinished_block
  | new_signage_point_or_end_of_sub_slot
  | request_signage_point_or_end_of_sub_slot
  | respond_signage_point
  | respond_end_of_sub_slot
  | request_mempool_transactions
  | request_compact_vdf
  | respond_compact_vdf
  | new_compact_vdf
  | request_peers
  | respond_peers
  | request_puzzle_solution
  | respond_puzzle_solution
  | reject_puzzle_solution
  | send_transaction
  | transaction_ack
  | new_peak_wallet
  | request_block_header
  | respond_block_header
  | reject_header_request
  | request_removals
  | respond_removals
  | reject_removals_request
  | request_additions
  | respond_additions
  | reject_additions_request
  | request_header_blocks
  | reject_header_blocks
  | respond_header_blocks
  | request_peers_introducer
  | respond_peers_introducer
  | farm_new_block
  | new_signage_point_harvester
  | request_plots
  | respond_plots
  | coin_state_update
  | register_interest_in_puzzle_hash
  | respond_to_ph_update
  | register_interest_in_coin
  | respond_to_coin_update
  | request_children
  | respond_children
  | request_ses_hashes
  | respond_ses_hashes
  | request_stakings
  | respond_stakings

definition protocol_values :: "(int, ProtocolMessageTypes) dict" where
  "protocol_values = [
     (1, handshake),
     (3, harvester_handshake),
     (5, new_proof_of_space),
     (6, request_signatures),
     (7, respond_signatures),
     (8, new_signage_point),
     (9, declare_proof_of_space),
     (10, request_signed_values),
     (11, signed_values),
     (12, farming_info),
     (13, new_peak_timelord),
     (14, new_unfinished_block_timelord),
     (15, new_infusion_point_vdf),
     (16, new_signage_point_vdf),
     (17, new_end_of_sub_slot_vdf),
     (18, request_compact_proof_of_time),
     (19, respond_compact_proof_of_time),
     (20, new_peak),
     (21, new_transaction),
     (22, request_transaction),
     (23, respond_transaction),
     (24, request_proof_of_weight),
     (25, respond_proof_of_weight),
     (26, request_block),
     (27, respond_block),
     (28, reject_block),
     (29, request_blocks),
     (30, respond_blocks),
     (31, reject_blocks),
     (32, new_unfinished_block),
     (33, request_unfinished_block),
     (34, respond_unfinished_block),
     (35, new_signage_point_or_end_of_sub_slot),
     (36, request_signage_point_or_end_of_sub_slot),
     (37, respond_signage_point),
     (38, respond_end_of_sub_slot),
     (39, request_mempool_transactions),
     (40, request_compact_vdf),
     (41, respond_compact_vdf),
     (42, new_compact_vdf),
     (43, request_peers),
     (44, respond_peers),
     (45, request_puzzle_solution),
     (46, respond_puzzle_solution),
     (47, reject_puzzle_solution),
     (48, send_transaction),
     (49, transaction_ack),
     (50, new_peak_wallet),
     (51, request_block_header),
     (52, respond_block_header),
     (53, reject_header_request),
     (54, request_removals),
     (55, respond_removals),
     (56, reject_removals_request),
     (57, request_additions),
     (58, respond_additions),
     (59, reject_additions_request),
     (60, request_header_blocks),
     (61, reject_header_blocks),
     (62, respond_header_blocks),
     (63, request_peers_introducer),
     (64, respond_peers_introducer),
     (65, farm_new_block),
     (66, new_signage_point_harvester),
     (67, request_plots),
     (68, respond_plots),
     (69, coin_state_update),
     (70, register_interest_in_puzzle_hash),
     (71, respond_to_ph_update),
     (72, register_interest_in_coin),
     (73, respond_to_coin_update),
     (74, request_children),
     (75, respond_children),
     (76, request_ses_hashes),
     (77, respond_ses_hashes),
     (100, request_stakings),
     (101, respond_stakings)]"

text \<open>\<^verbatim>\<open>ProtocolMessageTypes(value)\<close>, which raises for a value that is not in the enumeration.\<close>

definition message_type :: "int \<Rightarrow> ProtocolMessageTypes option" where
  "message_type v = dget protocol_values v"

section \<open>Limits\<close>

datatype RLSettings = RLSettings (frequency: int) (max_size: int) (max_total_size: "int option")

definition DEFAULT_SETTINGS :: RLSettings where
  "DEFAULT_SETTINGS = RLSettings 100 (1024 * 1024) (Some (100 * 1024 * 1024))"

definition NON_TX_FREQ :: int where
  "NON_TX_FREQ = 1000"

definition NON_TX_MAX_TOTAL_SIZE :: int where
  "NON_TX_MAX_TOTAL_SIZE = 100 * 1024 * 1024"

definition rate_limits_tx :: "(ProtocolMessageTypes, RLSettings) dict" where
  "rate_limits_tx = [
     (new_transaction, RLSettings 5000 100 (Some (5000 * 100))),
     (request_transaction, RLSettings 5000 100 (Some (5000 * 100))),
     (respond_transaction, RLSettings 5000 (1 * 1024 * 1024) (Some (20 * 1024 * 1024))),
     (send_transaction, RLSettings 5000 (1024 * 1024) None),
     (transaction_ack, RLSettings 5000 2048 None)]"

definition rate_limits_other :: "(ProtocolMessageTypes, RLSettings) dict" where
  "rate_limits_other = [
     (handshake, RLSettings 5 (10 * 1024) (Some (5 * 10 * 1024))),
     (harvester_handshake, RLSettings 5 (1024 * 1024) None),
     (new_signage_point_harvester, RLSettings 100 1024 None),
     (new_proof_of_space, RLSettings 100 2048 None),
     (request_signatures, RLSettings 100 2048 None),
     (respond_signatures, RLSettings 100 2048 None),
     (new_signage_point, RLSettings 200 2048 None),
     (declare_proof_of_space, RLSettings 100 (10 * 1024) None),
     (request_signed_values, RLSettings 100 512 None),
     (farming_info, RLSettings 100 1024 None),
     (signed_values, RLSettings 100 1024 None),
     (new_peak_timelord, RLSettings 100 (20 * 1024) None),
     (new_unfinished_block_timelord, RLSettings 100 (10 * 1024) None),
     (new_signage_point_vdf, RLSettings 100 (100 * 1024) None),
     (new_infusion_point_vdf, RLSettings 100 (100 * 1024) None),
     (new_end_of_sub_slot_vdf, RLSettings 100 (100 * 1024) None),
     (request_compact_proof_of_time, RLSettings 100 (10 * 1024) None),
     (respond_compact_proof_of_time, RLSettings 100 (100 * 1024) None),
     (new_peak, RLSettings 200 512 None),
     (request_proof_of_weight, RLSettings 5 100 None),
     (respond_proof_of_weight, RLSettings 5 (50 * 1024 * 1024) (Some (100 * 1024 * 1024))),
     (request_block, RLSettings 200 100 None),
     (reject_block, RLSettings 200 100 None),
     (request_blocks, RLSettings 500 100 None),
     (respond_blocks, RLSettings 100 (50 * 1024 * 1024) (Some (5 * 50 * 1024 * 1024))),
     (reject_blocks, RLSettings 100 100 None),
     (respond_block, RLSettings 200 (2 * 1024 * 1024) (Some (10 * 2 * 1024 * 1024))),
     (new_unfinished_block, RLSettings 200 100 None),
     (request_unfinished_block, RLSettings 200 100 None),
     (respond_unfinished_block, RLSettings 200 (2 * 1024 * 1024) (Some (10 * 2 * 1024 * 1024))),
     (new_signage_point_or_end_of_sub_slot, RLSettings 200 200 None),
     (request_signage_point_or_end_of_sub_slot, RLSettings 200 200 None),
     (respond_signage_point, RLSettings 200 (50 * 1024) None),
     (respond_end_of_sub_slot, RLSettings 100 (50 * 1024) None),
     (request_mempool_transactions, RLSettings 5 (1024 * 1024) None),
     (request_compact_vdf, RLSettings 200 1024 None),
     (respond_compact_vdf, RLSettings 200 (100 * 1024) None),
     (new_compact_vdf, RLSettings 100 1024 None),
     (request_peers, RLSettings 10 100 None),
     (respond_peers, RLSettings 10 (1 * 1024 * 1024) None),
     (request_puzzle_solution, RLSettings 1000 100 None),
     (respond_puzzle_solution, RLSettings 1000 (1024 * 1024) None),
     (reject_puzzle_solution, RLSettings 1000 100 None),
     (new_peak_wallet, RLSettings 200 300 None),
     (request_block_header, RLSettings 500 100 None),
     (respond_block_header, RLSettings 500 (500 * 1024) None),
     (reject_header_request, RLSettings 500 100 None),
     (request_removals, RLSettings 500 (50 * 1024) (Some (10 * 1024 * 1024))),
     (respond_removals, RLSettings 500 (1024 * 1024) (Some (10 * 1024 * 1024))),
     (reject_removals_request, RLSettings 500 100 None),
     (request_additions, RLSettings 500 (1024 * 1024) (Some (10 * 1024 * 1024))),
     (respond_additions, RLSettings 500 (1024 * 1024) (Some (10 * 1024 * 1024))),
     (reject_additions_request, RLSettings 500 100 None),
     (request_header_blocks, RLSettings 500 100 None),
     (reject_header_blocks, RLSettings 100 100 None),
     (respond_header_blocks, RLSettings 500 (2 * 1024 * 1024) (Some (100 * 1024 * 1024))),
     (request_peers_introducer, RLSettings 100 100 None),
     (respond_peers_introducer, RLSettings 100 (1024 * 1024) None),
     (farm_new_block, RLSettings 200 200 None),
     (request_plots, RLSettings 10 (10 * 1024 * 1024) None),
     (respond_plots, RLSettings 10 (100 * 1024 * 1024) None),
     (request_stakings, RLSettings 100 2048 None),
     (respond_stakings, RLSettings 100 2048 None),
     (coin_state_update, RLSettings 1000 (100 * 1024 * 1024) None),
     (register_interest_in_puzzle_hash, RLSettings 1000 (100 * 1024 * 1024) None),
     (respond_to_ph_update, RLSettings 1000 (100 * 1024 * 1024) None),
     (register_interest_in_coin, RLSettings 1000 (100 * 1024 * 1024) None),
     (respond_to_coin_update, RLSettings 1000 (100 * 1024 * 1024) None),
     (request_ses_hashes, RLSettings 2000 (1 * 1024 * 1024) None),
     (respond_ses_hashes, RLSettings 2000 (1 * 1024 * 1024) None),
     (request_children, RLSettings 2000 (1024 * 1024) None),
     (respond_children, RLSettings 2000 (1 * 1024 * 1024) None)]"

section \<open>The rate limiter\<close>

record Message =
  msg_type :: int
  msg_id :: "int option"
  msg_data :: bytes

record RateLimiter =
  rl_incoming :: bool
  rl_reset_seconds :: int
  rl_current_minute :: int
  rl_message_counts :: "(ProtocolMessageTypes, int) dict"
  rl_message_cumulative_sizes :: "(ProtocolMessageTypes, int) dict"
  rl_percentage_of_limit :: int
  rl_non_tx_message_counts :: int
  rl_non_tx_cumulative_size :: int

text \<open>A counter has value 0 for a missing key.\<close>

definition counter_get :: "('k, int) dict \<Rightarrow> 'k \<Rightarrow> int" where
  "counter_get d k = (case dget d k of None \<Rightarrow> 0 | Some v \<Rightarrow> v)"

text \<open>\<^verbatim>\<open>time.time() // reset_seconds\<close>: for times of this size the floor of the quotient is a float.\<close>

definition window :: "pyfloat \<Rightarrow> int \<Rightarrow> int res" where
  "window now reset_seconds =
     (if reset_seconds = 0 then Inl ZeroDivisionError else Inr \<lfloor>now / of_int reset_seconds\<rfloor>)"

definition rate_limiter_new :: "pyfloat \<Rightarrow> bool \<Rightarrow> int \<Rightarrow> int \<Rightarrow> RateLimiter res" where
  "rate_limiter_new now incoming reset_seconds percentage_of_limit =
     rbind (window now reset_seconds) (\<lambda>minute.
     Inr \<lparr>rl_incoming = incoming, rl_reset_seconds = reset_seconds, rl_current_minute = minute,
       rl_message_counts = [], rl_message_cumulative_sizes = [], rl_percentage_of_limit = percentage_of_limit,
       rl_non_tx_message_counts = 0, rl_non_tx_cumulative_size = 0\<rparr>)"

definition start_window :: "int \<Rightarrow> RateLimiter \<Rightarrow> RateLimiter" where
  "start_window current_minute m =
     (if current_minute \<noteq> rl_current_minute m then
        m\<lparr>rl_current_minute := current_minute, rl_message_counts := [], rl_message_cumulative_sizes := [],
          rl_non_tx_message_counts := 0, rl_non_tx_cumulative_size := 0\<rparr>
      else m)"

definition scaled :: "int \<Rightarrow> RateLimiter \<Rightarrow> pyfloat" where
  "scaled limit m = float_mul (float_of_int limit) (round53 (of_int (rl_percentage_of_limit m) / 100))"

text \<open>The limits of a type, the new aggregate counters and whether the aggregate limits hold.\<close>

definition aggregate :: "ProtocolMessageTypes \<Rightarrow> int \<Rightarrow> RateLimiter \<Rightarrow> RLSettings \<times> int \<times> int \<times> bool" where
  "aggregate t data_len m =
     (case dget rate_limits_tx t of
        Some limits \<Rightarrow> (limits, rl_non_tx_message_counts m, rl_non_tx_cumulative_size m, True)
      | None \<Rightarrow>
          (case dget rate_limits_other t of
             Some limits \<Rightarrow>
               (let new_non_tx_count = rl_non_tx_message_counts m + 1;
                    new_non_tx_size = rl_non_tx_cumulative_size m + data_len in
                (limits, new_non_tx_count, new_non_tx_size,
                 \<not> of_int new_non_tx_count > scaled NON_TX_FREQ m \<and>
                 \<not> of_int new_non_tx_size > scaled NON_TX_MAX_TOTAL_SIZE m))
           | None \<Rightarrow> (DEFAULT_SETTINGS, rl_non_tx_message_counts m, rl_non_tx_cumulative_size m, True)))"

definition total_limit :: "RLSettings \<Rightarrow> int" where
  "total_limit limits = (case max_total_size limits of None \<Rightarrow> frequency limits * max_size limits | Some n \<Rightarrow> n)"

definition process_msg_and_check :: "pyfloat \<Rightarrow> Message \<Rightarrow> RateLimiter \<Rightarrow> (bool \<times> RateLimiter) res" where
  "process_msg_and_check now message m =
     rbind (window now (rl_reset_seconds m)) (\<lambda>current_minute.
     let m = start_window current_minute m in
     case message_type (msg_type message) of
       None \<Rightarrow> Inr (True, m)
     | Some t \<Rightarrow>
         (let data_len = int (length (msg_data message));
              new_message_counts = counter_get (rl_message_counts m) t + 1;
              new_cumulative_size = counter_get (rl_message_cumulative_sizes m) t + data_len;
              (limits, new_non_tx_count, new_non_tx_size, ok) = aggregate t data_len m;
              ret = (ok \<and> \<not> of_int new_message_counts > scaled (frequency limits) m \<and>
                \<not> data_len > max_size limits \<and> \<not> of_int new_cumulative_size > scaled (total_limit limits) m) in
          Inr (ret, if rl_incoming m \<or> ret
               then m\<lparr>rl_message_counts := dput t new_message_counts (rl_message_counts m),
                      rl_message_cumulative_sizes := dput t new_cumulative_size (rl_message_cumulative_sizes m),
                      rl_non_tx_message_counts := new_non_tx_count, rl_non_tx_cumulative_size := new_non_tx_size\<rparr>
               else m)))"

end
