(* ===== verification/Gold_Rate_Limits_Correct.thy ===== *)
theory Gold_Rate_Limits_Correct
  imports Gold_Rate_Limits
begin

text \<open>
  What a rate limiter accepts in one window stays within the limits of each type of message and within the
  aggregate limits. The four counters share one contract, the locale of meters.
\<close>

section \<open>One message\<close>

text \<open>The tables cover the enumeration, so the default settings are never used.\<close>

lemma tables_cover: "list_all (\<lambda>q. dmem (snd q) rate_limits_tx \<noteq> dmem (snd q) rate_limits_other) protocol_values"
  by code_simp

definition settings_of :: "ProtocolMessageTypes \<Rightarrow> RLSettings" where
  "settings_of t = (case dget rate_limits_tx t of Some l \<Rightarrow> l | None \<Rightarrow>
     (case dget rate_limits_other t of Some l \<Rightarrow> l | None \<Rightarrow> DEFAULT_SETTINGS))"

definition non_tx :: "ProtocolMessageTypes \<Rightarrow> bool" where
  "non_tx t = (dget rate_limits_tx t = None \<and> dget rate_limits_other t \<noteq> None)"

definition msg_len :: "Message \<Rightarrow> int" where
  "msg_len msg = int (length (msg_data msg))"

lemma msg_len_nonneg [simp]: "0 \<le> msg_len msg"
  by (simp add: msg_len_def)

lemma aggregate_eq:
  "aggregate t n m = (settings_of t, rl_non_tx_message_counts m + (if non_tx t then 1 else 0),
     rl_non_tx_cumulative_size m + (if non_tx t then n else 0),
     non_tx t \<longrightarrow> of_int (rl_non_tx_message_counts m + 1) \<le> scaled NON_TX_FREQ m \<and>
       of_int (rl_non_tx_cumulative_size m + n) \<le> scaled NON_TX_MAX_TOTAL_SIZE m)"
  by (auto simp: aggregate_def settings_of_def non_tx_def Let_def not_less split: option.splits)

definition fits :: "ProtocolMessageTypes \<Rightarrow> int \<Rightarrow> RateLimiter \<Rightarrow> bool" where
  "fits t n m = (
     (non_tx t \<longrightarrow> of_int (rl_non_tx_message_counts m + 1) \<le> scaled NON_TX_FREQ m \<and>
       of_int (rl_non_tx_cumulative_size m + n) \<le> scaled NON_TX_MAX_TOTAL_SIZE m) \<and>
     of_int (counter_get (rl_message_counts m) t + 1) \<le> scaled (frequency (settings_of t)) m \<and>
     n \<le> max_size (settings_of t) \<and>
     of_int (counter_get (rl_message_cumulative_sizes m) t + n) \<le> scaled (total_limit (settings_of t)) m)"

definition counted :: "ProtocolMessageTypes \<Rightarrow> int \<Rightarrow> RateLimiter \<Rightarrow> RateLimiter" where
  "counted t n m = m\<lparr>
     rl_message_counts := dput t (counter_get (rl_message_counts m) t + 1) (rl_message_counts m),
     rl_message_cumulative_sizes := dput t (counter_get (rl_message_cumulative_sizes m) t + n) (rl_message_cumulative_sizes m),
     rl_non_tx_message_counts := rl_non_tx_message_counts m + (if non_tx t then 1 else 0),
     rl_non_tx_cumulative_size := rl_non_tx_cumulative_size m + (if non_tx t then n else 0)\<rparr>"

lemma process_known:
  assumes "window now (rl_reset_seconds m) = Inr (rl_current_minute m)" and "message_type (msg_type msg) = Some t"
  shows "process_msg_and_check now msg m = Inr (fits t (msg_len msg) m,
    if rl_incoming m \<or> fits t (msg_len msg) m then counted t (msg_len msg) m else m)"
  using assms
  by (simp add: process_msg_and_check_def start_window_def aggregate_eq Let_def fits_def counted_def
      msg_len_def not_less conj_assoc cong: if_cong)

lemma process_unknown:
  assumes "window now (rl_reset_seconds m) = Inr (rl_current_minute m)" and "message_type (msg_type msg) = None"
  shows "process_msg_and_check now msg m = Inr (True, m)"
  using assms by (simp add: process_msg_and_check_def start_window_def Let_def)

section \<open>Runs\<close>

fun accepted :: "RateLimiter \<Rightarrow> (pyfloat \<times> Message) list \<Rightarrow> Message list" where
  "accepted m [] = []"
| "accepted m ((now, msg) # rest) =
     (case process_msg_and_check now msg m of
        Inl e \<Rightarrow> []
      | Inr (ok, m') \<Rightarrow> (if ok then [msg] else []) @ accepted m' rest)"

definition weighs :: "(ProtocolMessageTypes \<Rightarrow> int \<Rightarrow> int) \<Rightarrow> Message \<Rightarrow> int" where
  "weighs weight msg = (case message_type (msg_type msg) of None \<Rightarrow> 0 | Some t \<Rightarrow> weight t (msg_len msg))"

text \<open>
  A meter is one of the counters with the weight it gives to a message: it never runs backwards, it
  counts every accepted message, and it stays within its limit when a message of positive weight is
  accepted. Whatever is accepted in a window then weighs at most the limit.
\<close>

locale meter =
  fixes reading :: "RateLimiter \<Rightarrow> int" and weight :: "ProtocolMessageTypes \<Rightarrow> int \<Rightarrow> int" and limit :: int
  assumes weight_nonneg: "0 \<le> n \<Longrightarrow> 0 \<le> weight t n"
    and reading_counted: "reading (counted t n m) = reading m + weight t n"
    and within_limit: "fits t n m \<Longrightarrow> weight t n = 0 \<or> of_int (reading m + weight t n) \<le> scaled limit m"
begin

lemma run_within:
  assumes "\<forall>q \<in> set ms. window (fst q) (rl_reset_seconds m) = Inr (rl_current_minute m)"
    and "a \<le> reading m" and "of_int a \<le> scaled limit m"
  shows "of_int (a + sum_list (map (weighs weight) (accepted m ms))) \<le> scaled limit m"
  using assms
proof (induction ms arbitrary: a m)
  case (Cons q ms)
  obtain now msg where q: "q = (now, msg)" by (cases q)
  have w: "window now (rl_reset_seconds m) = Inr (rl_current_minute m)" using Cons.prems(1) q by simp
  show ?case
  proof (cases "message_type (msg_type msg)")
    case None
    then show ?thesis using Cons q by (simp add: process_unknown [OF w] weighs_def)
  next
    case (Some t)
    let ?n = "msg_len msg" and ?c = "counted t (msg_len msg) m"
    have keep: "scaled limit ?c = scaled limit m" "rl_reset_seconds ?c = rl_reset_seconds m"
      "rl_current_minute ?c = rl_current_minute m" by (simp_all add: counted_def scaled_def)
    have wm: "weighs weight msg = weight t ?n" by (simp add: weighs_def Some)
    have rd: "reading m \<le> reading ?c" using reading_counted weight_nonneg by simp
    have IH: "of_int (b + sum_list (map (weighs weight) (accepted ?c ms))) \<le> scaled limit m"
      if "b \<le> reading ?c" "of_int b \<le> scaled limit m" for b
      using Cons.IH [of ?c b] Cons.prems(1) that by (simp add: keep)
    show ?thesis
    proof (cases "fits t ?n m")
      case True
      have "of_int (a + weight t ?n) \<le> scaled limit m"
      proof (cases "weight t ?n = 0")
        case False
        with within_limit [OF True] have "of_int (reading m + weight t ?n) \<le> scaled limit m" by simp
        moreover have "of_int (a + weight t ?n) \<le> (of_int (reading m + weight t ?n) :: pyfloat)"
          using Cons.prems(2) by simp
        ultimately show ?thesis by (rule order_trans [rotated])
      qed (use Cons.prems(3) in simp)
      then show ?thesis
        using IH [of "a + weight t ?n"] Cons.prems(2) reading_counted [of t ?n m] True wm
        by (simp add: q process_known [OF w Some] add.assoc)
    next
      case False
      have "of_int (a + sum_list (map (weighs weight) (accepted m ms))) \<le> scaled limit m"
        by (rule Cons.IH) (use Cons.prems in simp_all)
      then show ?thesis using IH [of a] Cons.prems(2,3) rd False
        by (simp add: q process_known [OF w Some])
    qed
  qed
qed simp

end

lemma counter_get_dput: "counter_get (dput k v d) k' = (if k' = k then v else counter_get d k')"
  by (simp add: counter_get_def)

interpretation type_count: meter "\<lambda>m. counter_get (rl_message_counts m) t"
  "\<lambda>t' n. if t' = t then 1 else 0" "frequency (settings_of t)" for t
  by unfold_locales (auto simp: counted_def counter_get_dput fits_def)

interpretation type_size: meter "\<lambda>m. counter_get (rl_message_cumulative_sizes m) t"
  "\<lambda>t' n. if t' = t then n else 0" "total_limit (settings_of t)" for t
  by unfold_locales (auto simp: counted_def counter_get_dput fits_def)

interpretation other_count: meter rl_non_tx_message_counts "\<lambda>t n. if non_tx t then 1 else 0" NON_TX_FREQ
  by unfold_locales (auto simp: counted_def fits_def)

interpretation other_size: meter rl_non_tx_cumulative_size "\<lambda>t n. if non_tx t then n else 0" NON_TX_MAX_TOTAL_SIZE
  by unfold_locales (auto simp: counted_def fits_def)

section \<open>Limits of a window\<close>

lemma round53_nonneg: "0 \<le> x \<Longrightarrow> 0 \<le> round53 x"
  using round53_mono [of 0 x] by simp

lemma scaled_nonneg: "0 \<le> limit \<Longrightarrow> 0 \<le> rl_percentage_of_limit m \<Longrightarrow> 0 \<le> scaled limit m"
  unfolding scaled_def float_mul_def float_of_int_def
  by (intro round53_nonneg mult_nonneg_nonneg) simp_all

lemma tables_nonneg:
  "list_all (\<lambda>q. 0 \<le> frequency (snd q) \<and> 0 \<le> total_limit (snd q)) (rate_limits_tx @ rate_limits_other)"
  by code_simp

lemma settings_nonneg: "0 \<le> frequency (settings_of t) \<and> 0 \<le> total_limit (settings_of t)"
proof -
  have "0 \<le> frequency l \<and> 0 \<le> total_limit l" if "(t, l) \<in> set (rate_limits_tx @ rate_limits_other)" for l
    using tables_nonneg that unfolding list_all_iff by force
  moreover have "0 \<le> frequency DEFAULT_SETTINGS \<and> 0 \<le> total_limit DEFAULT_SETTINGS" by code_simp
  ultimately show ?thesis
    unfolding settings_of_def by (auto dest: dget_in_set split: option.splits)
qed

lemma weighs_count:
  "sum_list (map (weighs (\<lambda>t n. if P t then 1 else 0)) ms) =
    int (length (filter (\<lambda>msg. case message_type (msg_type msg) of None \<Rightarrow> False | Some t \<Rightarrow> P t) ms))"
  by (induction ms) (auto simp: weighs_def split: option.splits)

lemma weighs_size:
  "sum_list (map (weighs (\<lambda>t n. if P t then n else 0)) ms) =
    sum_list (map msg_len (filter (\<lambda>msg. case message_type (msg_type msg) of None \<Rightarrow> False | Some t \<Rightarrow> P t) ms))"
  by (induction ms) (auto simp: weighs_def split: option.splits)

definition of_types :: "(ProtocolMessageTypes \<Rightarrow> bool) \<Rightarrow> Message list \<Rightarrow> Message list" where
  "of_types P ms = filter (\<lambda>msg. case message_type (msg_type msg) of None \<Rightarrow> False | Some t \<Rightarrow> P t) ms"


definition sample_limiter :: RateLimiter where
  "sample_limiter = \<lparr>rl_incoming = False, rl_reset_seconds = 60, rl_current_minute = 1, rl_message_counts = [],
     rl_message_cumulative_sizes = [], rl_percentage_of_limit = 20, rl_non_tx_message_counts = 0,
     rl_non_tx_cumulative_size = 0\<rparr>"

definition sample_msgs :: "(pyfloat \<times> Message) list" where
  "sample_msgs = [(61, \<lparr>msg_type = 1, msg_id = None, msg_data = [7, 7]\<rparr>), (62, \<lparr>msg_type = 1, msg_id = None, msg_data = [8]\<rparr>)]"


text \<open>
  C34. Every message with a known type has its limits in exactly one of the two tables, so the settings
  for unlisted types are never used, and the limits that apply to it are those of that table.
\<close>

theorem every_type_limited:
  assumes "message_type v = Some t"
  shows "dmem t rate_limits_tx \<noteq> dmem t rate_limits_other \<and>
    fst (aggregate t n m) \<in> snd ` set (rate_limits_tx @ rate_limits_other)"
proof -
  have "(v, t) \<in> set protocol_values" using assms by (simp add: message_type_def dget_in_set)
  then have x: "dmem t rate_limits_tx \<noteq> dmem t rate_limits_other" using tables_cover by (auto simp: list_all_iff)
  have mem: "(t, settings_of t) \<in> set (rate_limits_tx @ rate_limits_other)"
  proof (cases "dget rate_limits_tx t")
    case None
    with x obtain l where "dget rate_limits_other t = Some l" by (auto simp: dmem_dget)
    with None show ?thesis using dget_in_set [of rate_limits_other t l] by (simp add: settings_of_def)
  next
    case (Some l)
    then show ?thesis using dget_in_set [of rate_limits_tx t l] by (simp add: settings_of_def)
  qed
  from mem have "settings_of t \<in> snd ` set (rate_limits_tx @ rate_limits_other)" by force
  with x show ?thesis by (simp add: aggregate_eq)
qed

theorem every_type_limited_witness:
  "dmem new_transaction rate_limits_tx \<noteq> dmem new_transaction rate_limits_other \<and>
   fst (aggregate new_transaction 4 sample_limiter) \<in> snd ` set (rate_limits_tx @ rate_limits_other)"
  by (rule every_type_limited [of 21]) code_simp

end
