(* ===== verification/Spec2Isabelle.thy ===== *)
theory Spec2Isabelle
  imports
    Gold_Prelude
    Gold_Merkle_Interface
    Gold_Consensus_Correct
    Gold_Streamable_Correct
    Gold_Block_Record_Correct
    Gold_Difficulty_Correct
    Gold_Coin_Store_Correct
    Gold_Sub_Epoch_Correct
    Gold_Mempool_Manager_Correct
    Gold_Bech32m_Correct
    Gold_Rate_Limits_Correct
begin

text \<open>
  \<^bold>\<open>Verification of the node of gold-blockchain.\<close>

  The program (\<^verbatim>\<open>src/chia\<close>) is a proof-of-space-and-time cryptocurrency in Python. A full node keeps a chain of
  block records, derives difficulty and slot sizes from it, keeps the set of coins of the chain in a store,
  admits transactions to a pool against that store, commits to sets of coins by Merkle roots, and speaks a
  binary protocol with rate limits. This development models those parts, from the arithmetic up to the
  admission of a transaction, and leaves out the services around them.

  \<^bold>\<open>Conventions.\<close> A Python function is an Isabelle function of the same name. Python integers are \<^typ>\<open>int\<close>;
  the constructors of sized integers (\<^verbatim>\<open>uint64\<close> and the like) raise outside of their range, as in the code.
  Floats are rational numbers with every operation rounded to 53 bits (theory Gold_Float). A function that can
  raise returns \<open>'a res\<close>, an exception or a value. A loop that is not structural is \<open>cwhile\<close>, a
  \<open>partial_function\<close> in \<open>'a comp\<close>, where \<open>None\<close> means that it does not return; no fuel is used, and that the
  loops return is proved. A dictionary is an association list in insertion order. An object with mutable
  state is a record that its methods return updated. A method that raises returns the exception only, except
  in the coin store, where the state after an exception matters and is kept. Asynchronous methods that run
  under a lock are functions.

  Third-party code is a parameter: the hash function \<^verbatim>\<open>std_hash\<close> in most of the functions (SHA-256 itself is
  modelled in Gold_Sha256 and used for the Merkle set), BLS keys and signatures, the verifiers of proofs of
  space and of VDFs, the casts between integers and CLVM atoms (record \<open>clvm_lib\<close>), the sorted dictionary of
  the pool (predicate \<open>items_sorted\<close>). SQL statements on the tables of coins and hints are the list functions
  they stand for.

  \<^bold>\<open>Theories\<close>, each model followed by its properties:

  \<^item> Gold_Prelude: exceptions, the two monads, Python indexing and dictionaries, shared lemmas.
  \<^item> Gold_Float, Gold_Ints: floats; sized integers (\<^verbatim>\<open>util/ints.py\<close>, \<^verbatim>\<open>util/struct_stream.py\<close>), read and written
    without loss.
  \<^item> Gold_Sha256, Gold_Merkle_Set: SHA-256 and the trie of \<^verbatim>\<open>util/merkle_set.py\<close>. Gold_Merkle_Set_Correct,
    Gold_Merkle_Proofs, Gold_Merkle_Interface: updates refine set operations, equal sets have equal roots, a
    proof that is accepted tells the truth unless two different inputs have the same hash, and every proof that
    is generated is accepted. The locale \<open>hashed_set\<close> is the contract of the set for its clients.
  \<^item> Gold_Consensus: constants, rewards, significant bits, iterations, plot quality, coinbase parents
    (\<^verbatim>\<open>consensus/\<close>). Gold_Consensus_Correct: rewards add up, the position of infusion points, monotone
    iterations, different parents for different rewards.
  \<^item> Gold_Streamable, Gold_Types: the serialisation format (\<^verbatim>\<open>util/streamable.py\<close>) over a datatype of
    annotations, and the classes of the chain as records with their annotations. Gold_Streamable_Correct:
    the locale \<open>codec\<close>, canonical round trips for every annotation, hashes that identify objects.
  \<^item> Gold_Coins: coins, coin records, reward coins and methods of the block classes.
  \<^item> Gold_Block_Record: block records, deficit, proofs of space, VDF proofs. Gold_Block_Record_Correct: the
    range of the deficit, what an accepted proof of space guarantees.
  \<^item> Gold_Chain: the interface of the chain (a record of functions), the block cache and the fork point.
    Gold_Chain_Correct: the locale \<open>chain_access\<close>, interpreted on the cache; the fork point is the highest
    common block.
  \<^item> Gold_Difficulty: the adjustment of difficulty and iterations. Gold_Difficulty_Correct: it returns on every
    well formed chain, within the factors of the constants.
  \<^item> Gold_Sub_Epoch: challenges, sub-epoch summaries, signage-point VDFs and the making of block records.
    Gold_Sub_Epoch_Correct: all walks end, the new record is well typed and joins the chain.
  \<^item> Gold_Coin_Store: LRU cache, coin store and hint store. Gold_Coin_Rows: the locale \<open>bounded_cache\<close> and the
    encoding of rows. Gold_Coin_Store_Correct: cache and table agree under every operation, a new block refines
    a step on a map of coins, and rolling back undoes it.
  \<^item> Gold_Node_State: sync store, pending transactions and pool. Gold_Node_State_Correct, Gold_Mempool_Correct:
    the heaviest peak, bounds, coherent indexes, admission and the threshold of fees.
  \<^item> Gold_Conditions, Gold_Mempool_Manager: error codes, conditions and their checks, costs, block roots, and the
    manager of the pool. Gold_Mempool_Manager_Correct: an admitted transaction is a valid spend, and a block made
    from the pool spends no coin twice, conserves value and keeps to the cost limit.
  \<^item> Gold_Bech32m: addresses. Gold_Bech32m_Correct: round trip and detection of a changed character.
  \<^item> Gold_Rate_Limits: message types, limits, limiter. Gold_Rate_Limits_Correct: the locale \<open>meter\<close>, interpreted on
    the four counters; what is accepted in a window stays within the limits.

  \<^bold>\<open>Simplifications.\<close> \<open>object_bytes\<close> gives the bytes of an object, which is well typed when it is constructed, so
  the branch for ill typed objects is not reached. The class of an exception is kept where the code catches it
  and merged elsewhere. A member of \<^verbatim>\<open>Err\<close> is its value. Changes of case in addresses are those of ASCII. Floor
  division of a time by the length of a window is exact. Logging is left out, but the arithmetic in logged
  text that can raise is kept.

  \<^bold>\<open>Not modelled.\<close> The run of CLVM programs (\<^verbatim>\<open>types/blockchain_format/program.py\<close> and what rests on it: wallets,
  pools, puzzle generators, the validation of a transaction in another process), the validation of headers
  and bodies and \<^verbatim>\<open>blockchain.py\<close>, weight proofs, block store and full-node store, the network services
  (full node, farmer, harvester, timelord, introducer, wallet node, their servers and RPC), the daemon,
  keychain, plotting, command line, and user interface. Most of these are input and output around asynchronous
  tasks, processes or third-party programs; the list of components in the manifest gives the reason for each.
\<close>

end
